(* ===== verification/Prelude.thy ===== *)
theory Prelude
  imports Complex_Main "HOL-Library.List_Lexorder" "HOL-Library.Char_ord"
    "HOL-Library.AList" "HOL-Library.Sublist"
begin

text \<open>
  The shared library of the development: the Python containers and string operations the
  components use, the reachability relation of their state machines, the locales that state
  the contracts several components rely on, and the generic lemmas.

  \<^item> A Python \<open>dict\<close> keeps its keys in insertion order; it is an association list
    without repeated keys (\<open>py_dict\<close>). \<open>d[k] = v\<close> is \<^const>\<open>AList.update\<close>
    (in place for a key that is there, at the end for a new one), \<open>d.pop(k, None)\<close>
    is \<^const>\<open>AList.delete\<close>, \<open>d.get(k)\<close> is \<^const>\<open>map_of\<close>.
  \<^item> A Python \<open>set\<close> is a HOL set; where the code sorts it, the sorted list.
  \<^item> A Python \<open>str\<close> is a \<open>string\<close>, ordered lexicographically by code point
    as Python's \<open>sorted\<close> orders it.
  \<^item> \<open>time.monotonic()\<close> and \<open>datetime\<close> values are reals; they are arguments
    of the operations that read the clock.
\<close>

section \<open>Collections of facts\<close>

named_theorems dict_simps \<open>rewrite rules of the dictionary operations\<close>
named_theorems py_defs \<open>definitions of the string operations, for evaluation\<close>

section \<open>Python dictionaries\<close>

type_synonym ('k, 'v) py_dict = "('k \<times> 'v) list"

type_synonym seconds = real

definition dict_wf :: "('k, 'v) py_dict \<Rightarrow> bool" where
  "dict_wf d \<longleftrightarrow> distinct (map fst d)"

definition dict_keys :: "('k, 'v) py_dict \<Rightarrow> 'k list" where
  "dict_keys d = map fst d"

definition dict_values :: "('k, 'v) py_dict \<Rightarrow> 'v list" where
  "dict_values d = map snd d"

text \<open>\<open>xs.remove(x)\<close>: the first occurrence goes; \<open>ValueError\<close> when there is none.\<close>

definition list_remove :: "'a \<Rightarrow> 'a list \<Rightarrow> 'a list option" where
  "list_remove x xs = (if x \<in> set xs then Some (remove1 x xs) else None)"

text \<open>The values that API calls carry: what JSON can express.\<close>

datatype pyval =
    PNone
  | PBool bool
  | PInt int
  | PFloat real
  | PStr string
  | PList "pyval list"
  | PDict "(string \<times> pyval) list"

text \<open>\<open>bool(v)\<close>: what an \<open>if\<close> on the value decides.\<close>

fun truthy :: "pyval \<Rightarrow> bool" where
  "truthy PNone \<longleftrightarrow> False"
| "truthy (PBool b) \<longleftrightarrow> b"
| "truthy (PInt i) \<longleftrightarrow> i \<noteq> 0"
| "truthy (PFloat r) \<longleftrightarrow> r \<noteq> 0"
| "truthy (PStr s) \<longleftrightarrow> s \<noteq> []"
| "truthy (PList vs) \<longleftrightarrow> vs \<noteq> []"
| "truthy (PDict d) \<longleftrightarrow> d \<noteq> []"

section \<open>Python strings\<close>

definition py_startswith :: "string \<Rightarrow> string \<Rightarrow> bool" where
  [py_defs]: "py_startswith s p \<longleftrightarrow> take (length p) s = p"

definition py_endswith :: "string \<Rightarrow> string \<Rightarrow> bool" where
  [py_defs]: "py_endswith s p \<longleftrightarrow> length p \<le> length s \<and> drop (length s - length p) s = p"

text \<open>\<open>s.split(c)\<close> for a one-character separator.\<close>

fun py_split :: "char \<Rightarrow> string \<Rightarrow> string list" where
  "py_split c [] = [[]]"
| "py_split c (x # xs) =
     (if x = c then [] # py_split c xs
      else (case py_split c xs of [] \<Rightarrow> [[x]] | y # ys \<Rightarrow> (x # y) # ys))"

text \<open>\<open>c.join(parts)\<close>.\<close>

fun py_join :: "string \<Rightarrow> string list \<Rightarrow> string" where
  "py_join c [] = []"
| "py_join c [x] = x"
| "py_join c (x # y # ys) = x @ c @ py_join c (y # ys)"

text \<open>\<open>str(n)\<close> for a non-negative integer, and \<open>int(s)\<close> on a string of ASCII digits.\<close>

definition digit_char :: "nat \<Rightarrow> char" where
  "digit_char d = char_of (48 + d)"

fun py_str :: "nat \<Rightarrow> string" where
  "py_str n = (if n < 10 then [digit_char n] else py_str (n div 10) @ [digit_char (n mod 10)])"

declare py_str.simps [simp del]

definition is_digit :: "char \<Rightarrow> bool" where
  "is_digit c \<longleftrightarrow> 48 \<le> (of_char c :: nat) \<and> (of_char c :: nat) \<le> 57"

definition digit_val :: "char \<Rightarrow> nat" where
  "digit_val c = of_char c - 48"

definition py_int :: "string \<Rightarrow> nat" where
  "py_int s = foldl (\<lambda>n c. 10 * n + digit_val c) 0 s"

text \<open>\<open>s.isdigit()\<close>: at least one character, all digits.\<close>

definition py_isdigit :: "string \<Rightarrow> bool" where
  "py_isdigit s \<longleftrightarrow> s \<noteq> [] \<and> list_all is_digit s"

text \<open>\<open>int(s)\<close> on any string: surrounding white space, a sign and single
  underscores between digits are accepted; everything else is a \<open>ValueError\<close>.\<close>

definition is_space :: "char \<Rightarrow> bool" where
  "is_space c \<longleftrightarrow> (let n = (of_char c :: nat) in 9 \<le> n \<and> n \<le> 13 \<or> 28 \<le> n \<and> n \<le> 32)"

definition py_lstrip :: "string \<Rightarrow> string" where
  "py_lstrip = dropWhile is_space"

definition py_rstrip :: "string \<Rightarrow> string" where
  "py_rstrip s = rev (dropWhile is_space (rev s))"

definition py_strip :: "string \<Rightarrow> string" where
  "py_strip s = py_rstrip (py_lstrip s)"

fun int_digits_ok :: "string \<Rightarrow> bool" where
  "int_digits_ok [] \<longleftrightarrow> False"
| "int_digits_ok [c] \<longleftrightarrow> is_digit c"
| "int_digits_ok (c # d # cs) \<longleftrightarrow>
     is_digit c \<and> (if d = CHR ''_'' then int_digits_ok cs else int_digits_ok (d # cs))"

definition py_nat_digits :: "string \<Rightarrow> nat option" where
  "py_nat_digits s = (if int_digits_ok s then Some (py_int (filter is_digit s)) else None)"

definition py_parse_int :: "string \<Rightarrow> int option" where
  "py_parse_int s =
     (case py_strip s of
        [] \<Rightarrow> None
      | c # cs \<Rightarrow>
          if c = CHR ''-'' then map_option (\<lambda>n. - int n) (py_nat_digits cs)
          else if c = CHR ''+'' then map_option int (py_nat_digits cs)
          else map_option int (py_nat_digits (c # cs)))"

section \<open>State machines\<close>

text \<open>
  The states a component can reach from its initial states by its steps. Every component's
  step relation is an argument, so the invariant rule is proved once.
\<close>

inductive reach :: "('s \<Rightarrow> bool) \<Rightarrow> ('s \<Rightarrow> 's \<Rightarrow> bool) \<Rightarrow> 's \<Rightarrow> bool"
  for init :: "'s \<Rightarrow> bool" and step :: "'s \<Rightarrow> 's \<Rightarrow> bool" where
  reach_init: "init s \<Longrightarrow> reach init step s"
| reach_step: "reach init step s \<Longrightarrow> step s t \<Longrightarrow> reach init step t"

text \<open>
  The contract of a component whose operations keep an invariant: it holds at the start and
  each step keeps it. What it gives is that every reachable state satisfies it.
\<close>

locale invariant_system =
  fixes init :: "'s \<Rightarrow> bool" and step :: "'s \<Rightarrow> 's \<Rightarrow> bool" and inv :: "'s \<Rightarrow> bool"
  assumes inv_init: "init s \<Longrightarrow> inv s"
    and inv_step: "inv s \<Longrightarrow> step s t \<Longrightarrow> inv t"
begin

lemma reach_inv: "reach init step s \<Longrightarrow> inv s"
  by (induction rule: reach.induct) (auto intro: inv_init inv_step)

lemma steps_inv: "step\<^sup>*\<^sup>* s t \<Longrightarrow> inv s \<Longrightarrow> inv t"
  by (induction rule: rtranclp_induct) (auto intro: inv_step)

lemma reach_from_inv: "inv s \<Longrightarrow> reach (\<lambda>u. u = s) step t \<Longrightarrow> inv t"
  by (rotate_tac, induction rule: reach.induct) (auto intro: inv_step)

end

section \<open>The dictionary contract\<close>

text \<open>
  What the components rely on of a Python dictionary: the lookup laws and that assignment
  and removal keep the keys distinct.
\<close>

locale dictionary =
  fixes get :: "'d \<Rightarrow> 'k \<Rightarrow> 'v option"
    and put :: "'k \<Rightarrow> 'v \<Rightarrow> 'd \<Rightarrow> 'd"
    and pop :: "'k \<Rightarrow> 'd \<Rightarrow> 'd"
    and keys :: "'d \<Rightarrow> 'k list"
    and wf :: "'d \<Rightarrow> bool"
  assumes get_put: "get (put k v d) k' = (if k' = k then Some v else get d k')"
    and get_pop: "wf d \<Longrightarrow> get (pop k d) k' = (if k' = k then None else get d k')"
    and keys_get: "k \<in> set (keys d) \<longleftrightarrow> get d k \<noteq> None"
    and keys_distinct: "wf d \<Longrightarrow> distinct (keys d)"
    and wf_put: "wf d \<Longrightarrow> wf (put k v d)"
    and wf_pop: "wf d \<Longrightarrow> wf (pop k d)"
    and keys_put_fresh: "k \<notin> set (keys d) \<Longrightarrow> keys (put k v d) = keys d @ [k]"
begin

lemma put_keys: "set (keys (put k v d)) = insert k (set (keys d))"
  by (auto simp: keys_get get_put split: if_splits)

lemma pop_keys: "wf d \<Longrightarrow> set (keys (pop k d)) = set (keys d) - {k}"
  by (auto simp: keys_get get_pop split: if_splits)

lemma put_overwrites: "get (put k w (put k v d)) = get (put k w d)"
  by (rule ext) (simp add: get_put)

lemma pop_after_put: "wf d \<Longrightarrow> get d k = None \<Longrightarrow> get (pop k (put k v d)) = get d"
  by (rule ext) (simp add: get_pop get_put wf_put)

lemma length_keys_put:
  "wf d \<Longrightarrow> length (keys (put k v d)) = (if get d k = None then Suc (length (keys d)) else length (keys d))"
proof -
  assume w: "wf d"
  have "length (keys (put k v d)) = card (insert k (set (keys d)))"
    using distinct_card [OF keys_distinct [OF wf_put [OF w]], of k v] by (simp add: put_keys)
  then show ?thesis
    using distinct_card [OF keys_distinct [OF w]] by (auto simp: keys_get card_insert_if)
qed

end

interpretation py_dict: dictionary map_of AList.update AList.delete dict_keys dict_wf
proof
  fix d :: "('k \<times> 'v) list" and k k' :: 'k and v :: 'v
  show "map_of (AList.update k v d) k' = (if k' = k then Some v else map_of d k')"
    by (simp add: update_conv')
  show "map_of (AList.delete k d) k' = (if k' = k then None else map_of d k')"
    by (simp add: delete_conv')
  show "(k \<in> set (dict_keys d)) = (map_of d k \<noteq> None)"
    by (simp add: dict_keys_def map_of_eq_None_iff)
  show "dict_wf d \<Longrightarrow> distinct (dict_keys d)"
    by (simp add: dict_wf_def dict_keys_def)
  show "dict_wf d \<Longrightarrow> dict_wf (AList.update k v d)"
    by (simp add: dict_wf_def distinct_update)
  show "dict_wf d \<Longrightarrow> dict_wf (AList.delete k d)"
    by (simp add: dict_wf_def distinct_delete)
  show "k \<notin> set (dict_keys d) \<Longrightarrow> dict_keys (AList.update k v d) = dict_keys d @ [k]"
    by (simp add: dict_keys_def update_keys)
qed

lemma update_fresh [dict_simps]: "k \<notin> fst ` set d \<Longrightarrow> AList.update k v d = d @ [(k, v)]"
  by (induction d) auto

lemma map_of_Some_key: "map_of d k = Some v \<Longrightarrow> k \<in> fst ` set d"
  by (force dest: map_of_SomeD)

lemmas dict_laws = py_dict.get_put py_dict.get_pop py_dict.wf_put py_dict.wf_pop

section \<open>Sizes of dictionaries\<close>

lemma update_new: "map_of d k = None \<Longrightarrow> AList.update k v d = d @ [(k, v)]"
  by (induction d) (auto split: if_splits)

lemma length_update_new: "map_of d k = None \<Longrightarrow> length (AList.update k v d) = Suc (length d)"
  by (simp add: update_new)

lemma delete_absent: "k \<notin> fst ` set d \<Longrightarrow> AList.delete k d = d"
  by (induction d) (auto simp: AList.delete_eq)

lemma length_delete_present: "dict_wf d \<Longrightarrow> map_of d k = Some v \<Longrightarrow> Suc (length (AList.delete k d)) = length d"
proof (induction d)
  case (Cons p d)
  then show ?case using delete_absent [of k d] by (cases "fst p = k") (auto simp: dict_wf_def AList.delete_eq split: if_splits)
qed simp

section \<open>Splitting and printing\<close>

lemma py_split_no_sep: "c \<notin> set s \<Longrightarrow> py_split c s = [s]"
  by (induction s) auto

lemma py_split_append: "c \<notin> set s \<Longrightarrow> py_split c (s @ c # t) = s # py_split c t"
  by (induction s) auto

lemma py_str_digits: "c \<in> set (py_str n) \<Longrightarrow> is_digit c"
  by (induction n rule: py_str.induct)
     (subst (asm) (2) py_str.simps, auto simp: is_digit_def digit_char_def of_char_of split: if_splits)

lemma py_int_append: "py_int (s @ [c]) = 10 * py_int s + digit_val c"
  by (simp add: py_int_def)

lemma digit_val_char: "d < 10 \<Longrightarrow> digit_val (digit_char d) = d"
  by (simp add: digit_val_def digit_char_def of_char_of)

lemma py_int_py_str [simp]: "py_int (py_str n) = n"
proof (induction n rule: py_str.induct)
  case (1 n)
  show ?case
  proof (cases "n < 10")
    case True
    then show ?thesis by (simp add: py_str.simps [of n] py_int_def digit_val_char)
  next
    case False
    with 1 show ?thesis by (simp add: py_str.simps [of n] py_int_append digit_val_char)
  qed
qed

lemma py_str_inj: "py_str m = py_str n \<longleftrightarrow> m = n"
  by (metis py_int_py_str)

end
