(* ===== verification/Role_Table.thy ===== *)
theory Role_Table
  imports Prelude
begin

unbundle bit_operations_syntax

text \<open>
  The role table of \<^verbatim>\<open>middlewared/role.py\<close>: the \<open>Role\<close> dataclass, the
  dictionary \<open>ROLES\<close> entry by entry, and the facts about the table that the
  expansion of roles rests on: the inclusions are well founded except for two roles that
  include themselves, and a read role includes only read roles.
\<close>

section \<open>The data model\<close>

text \<open>\<open>STIGType\<close> is an integer flag; \<open>STIGType.NONE\<close> is 0.\<close>

type_synonym stig = int

abbreviation GPOS :: stig where
  "GPOS \<equiv> 1"

record role =
  role_includes :: "string list"
  role_full_admin :: bool
  role_builtin :: bool
  role_stig :: "stig option"

text \<open>The constructor calls of the table: \<open>Role(includes=...)\<close> with the dataclass
  defaults, with \<open>stig=None\<close>, and with \<open>builtin=False\<close> and a \<open>full_admin\<close> value.\<close>

abbreviation Role :: "string list \<Rightarrow> role" where
  "Role incs \<equiv> \<lparr>role_includes = incs, role_full_admin = False, role_builtin = True, role_stig = Some GPOS\<rparr>"

abbreviation Role_no_stig :: "string list \<Rightarrow> role" where
  "Role_no_stig incs \<equiv> \<lparr>role_includes = incs, role_full_admin = False, role_builtin = True, role_stig = None\<rparr>"

abbreviation Role_assignable :: "bool \<Rightarrow> string list \<Rightarrow> role" where
  "Role_assignable fa incs \<equiv> \<lparr>role_includes = incs, role_full_admin = fa, role_builtin = False, role_stig = Some GPOS\<rparr>"

type_synonym role_table = "(string, role) py_dict"

section \<open>The role table\<close>

definition ROLES_system :: role_table where
  "ROLES_system = [
      (''ACCOUNT_READ'', Role []),
      (''ACCOUNT_WRITE'', Role [''ACCOUNT_READ'']),
      (''API_KEY_READ'', Role []),
      (''API_KEY_WRITE'', Role_no_stig [''API_KEY_READ'']),
      (''AUTH_SESSIONS_READ'', Role []),
      (''AUTH_SESSIONS_WRITE'', Role [''AUTH_SESSIONS_READ'']),
      (''BOOT_ENV_READ'', Role []),
      (''BOOT_ENV_WRITE'', Role [''BOOT_ENV_READ'']),
      (''DIRECTORY_SERVICE_READ'', Role []),
      (''DIRECTORY_SERVICE_WRITE'', Role [''DIRECTORY_SERVICE_READ'']),
      (''DISK_READ'', Role []),
      (''DISK_WRITE'', Role [''DISK_READ'']),
      (''FAILOVER_READ'', Role []),
      (''FAILOVER_WRITE'', Role [''FAILOVER_READ'']),
      (''FILESYSTEM_ATTRS_READ'', Role []),
      (''FILESYSTEM_ATTRS_WRITE'', Role [''FILESYSTEM_ATTRS_READ'']),
      (''FILESYSTEM_DATA_READ'', Role []),
      (''FILESYSTEM_DATA_WRITE'', Role [''FILESYSTEM_DATA_READ'']),
      (''FILESYSTEM_FULL_CONTROL'', Role [''FILESYSTEM_ATTRS_WRITE'', ''FILESYSTEM_DATA_WRITE'']),
      (''IPMI_READ'', Role []),
      (''IPMI_WRITE'', Role [''IPMI_READ'']),
      (''KMIP_READ'', Role []),
      (''KMIP_WRITE'', Role [''KMIP_READ'']),
      (''MAIL_WRITE'', Role []),
      (''PRIVILEGE_READ'', Role []),
      (''PRIVILEGE_WRITE'', Role [''PRIVILEGE_WRITE'']),
      (''REPORTING_READ'', Role []),
      (''REPORTING_WRITE'', Role [''REPORTING_READ'']),
      (''SUPPORT_READ'', Role []),
      (''SUPPORT_WRITE'', Role [''SUPPORT_READ'']),
      (''SSH_READ'', Role []),
      (''SSH_WRITE'', Role [''SSH_READ'']),
      (''SYSTEM_AUDIT_READ'', Role []),
      (''SYSTEM_AUDIT_WRITE'', Role []),
      (''FULL_ADMIN'', Role_assignable True []),
      (''ALERT_LIST_READ'', Role []),
      (''ALERT_LIST_WRITE'', Role [''ALERT_LIST_READ'']),
      (''ALERT_READ'', Role [''ALERT_LIST_READ'']),
      (''ALERT_WRITE'', Role [''ALERT_LIST_WRITE'', ''ALERT_READ'']),
      (''CLOUD_BACKUP_READ'', Role []),
      (''CLOUD_BACKUP_WRITE'', Role [''CLOUD_BACKUP_READ'']),
      (''CLOUD_SYNC_READ'', Role []),
      (''CLOUD_SYNC_WRITE'', Role [''CLOUD_SYNC_READ'']),
      (''SERVICE_READ'', Role []),
      (''SERVICE_WRITE'', Role []),
      (''ENCLOSURE_READ'', Role []),
      (''ENCLOSURE_WRITE'', Role [''ENCLOSURE_READ'']),
      (''NETWORK_GENERAL_READ'', Role []),
      (''NETWORK_GENERAL_WRITE'', Role [''NETWORK_GENERAL_READ'']),
      (''NETWORK_INTERFACE_READ'', Role []),
      (''NETWORK_INTERFACE_WRITE'', Role [''NETWORK_INTERFACE_READ'']),
      (''VM_READ'', Role []),
      (''VM_WRITE'', Role_no_stig [''VM_READ'']),
      (''VM_DEVICE_READ'', Role [''VM_READ'']),
      (''VM_DEVICE_WRITE'', Role_no_stig [''VM_WRITE'', ''VM_DEVICE_READ'']),
      (''CONTAINER_READ'', Role []),
      (''CONTAINER_WRITE'', Role_no_stig [''CONTAINER_READ'']),
      (''LXC_CONFIG_READ'', Role []),
      (''LXC_CONFIG_WRITE'', Role_no_stig [''LXC_CONFIG_READ'']),
      (''CONTAINER_DEVICE_READ'', Role [''CONTAINER_READ'']),
      (''CONTAINER_DEVICE_WRITE'', Role_no_stig [''CONTAINER_WRITE'', ''CONTAINER_DEVICE_READ'']),
      (''CONTAINER_IMAGE_READ'', Role []),
      (''CONTAINER_IMAGE_WRITE'', Role_no_stig [''CONTAINER_IMAGE_READ'']),
      (''JBOF_READ'', Role []),
      (''JBOF_WRITE'', Role [''JBOF_READ'']),
      (''TRUECOMMAND_READ'', Role []),
      (''TRUECOMMAND_WRITE'', Role_no_stig [''TRUECOMMAND_READ'']),
      (''TRUENAS_CONNECT_READ'', Role []),
      (''TRUENAS_CONNECT_WRITE'', Role_no_stig [''TRUENAS_CONNECT_READ'']),
      (''CERTIFICATE_READ'', Role []),
      (''CERTIFICATE_WRITE'', Role [''CERTIFICATE_READ'']),
      (''CATALOG_READ'', Role []),
      (''CATALOG_WRITE'', Role_no_stig [''CATALOG_READ'']),
      (''DOCKER_READ'', Role []),
      (''DOCKER_WRITE'', Role_no_stig [''DOCKER_READ'']),
      (''APPS_READ'', Role [''CATALOG_READ'']),
      (''APPS_WRITE'', Role_no_stig [''CATALOG_WRITE'', ''APPS_READ''])
   ]"

definition ROLES_storage :: role_table where
  "ROLES_storage = [
      (''SHARING_FTP_READ'', Role []),
      (''SHARING_FTP_WRITE'', Role [''SHARING_FTP_READ'']),
      (''SHARING_ISCSI_AUTH_READ'', Role []),
      (''SHARING_ISCSI_AUTH_WRITE'', Role [''SHARING_ISCSI_AUTH_READ'']),
      (''SHARING_ISCSI_EXTENT_READ'', Role []),
      (''SHARING_ISCSI_EXTENT_WRITE'', Role [''SHARING_ISCSI_EXTENT_READ'']),
      (''SHARING_ISCSI_GLOBAL_READ'', Role []),
      (''SHARING_ISCSI_GLOBAL_WRITE'', Role [''SHARING_ISCSI_GLOBAL_READ'']),
      (''SHARING_ISCSI_HOST_READ'', Role []),
      (''SHARING_ISCSI_HOST_WRITE'', Role [''SHARING_ISCSI_HOST_READ'']),
      (''SHARING_ISCSI_INITIATOR_READ'', Role []),
      (''SHARING_ISCSI_INITIATOR_WRITE'', Role [''SHARING_ISCSI_INITIATOR_READ'']),
      (''SHARING_ISCSI_PORTAL_READ'', Role []),
      (''SHARING_ISCSI_PORTAL_WRITE'', Role [''SHARING_ISCSI_PORTAL_READ'']),
      (''SHARING_ISCSI_TARGET_READ'', Role []),
      (''SHARING_ISCSI_TARGET_WRITE'', Role [''SHARING_ISCSI_TARGET_READ'']),
      (''SHARING_ISCSI_TARGETEXTENT_READ'', Role []),
      (''SHARING_ISCSI_TARGETEXTENT_WRITE'', Role [''SHARING_ISCSI_TARGETEXTENT_READ'']),
      (''SHARING_ISCSI_READ'', Role [''SHARING_ISCSI_AUTH_READ'', ''SHARING_ISCSI_EXTENT_READ'', ''SHARING_ISCSI_GLOBAL_READ'', ''SHARING_ISCSI_HOST_READ'', ''SHARING_ISCSI_INITIATOR_READ'', ''SHARING_ISCSI_PORTAL_READ'', ''SHARING_ISCSI_TARGET_READ'', ''SHARING_ISCSI_TARGETEXTENT_READ'']),
      (''SHARING_ISCSI_WRITE'', Role [''SHARING_ISCSI_AUTH_WRITE'', ''SHARING_ISCSI_EXTENT_WRITE'', ''SHARING_ISCSI_GLOBAL_WRITE'', ''SHARING_ISCSI_HOST_WRITE'', ''SHARING_ISCSI_INITIATOR_WRITE'', ''SHARING_ISCSI_PORTAL_WRITE'', ''SHARING_ISCSI_TARGET_WRITE'', ''SHARING_ISCSI_TARGETEXTENT_WRITE'']),
      (''SHARING_NFS_READ'', Role []),
      (''SHARING_NFS_WRITE'', Role [''SHARING_NFS_READ'']),
      (''SHARING_NVME_TARGET_READ'', Role []),
      (''SHARING_NVME_TARGET_WRITE'', Role [''SHARING_NVME_TARGET_READ'']),
      (''SHARING_SMB_READ'', Role []),
      (''SHARING_SMB_WRITE'', Role [''SHARING_SMB_READ'']),
      (''SHARING_WEBSHARE_READ'', Role []),
      (''SHARING_WEBSHARE_WRITE'', Role [''SHARING_WEBSHARE_READ'']),
      (''SHARING_READ'', Role [''SHARING_ISCSI_READ'', ''SHARING_NFS_READ'', ''SHARING_NVME_TARGET_READ'', ''SHARING_SMB_READ'', ''SHARING_FTP_READ'', ''SHARING_WEBSHARE_READ'']),
      (''SHARING_WRITE'', Role [''SHARING_ISCSI_WRITE'', ''SHARING_NFS_WRITE'', ''SHARING_NVME_TARGET_WRITE'', ''SHARING_SMB_WRITE'', ''SHARING_FTP_WRITE'', ''SHARING_WEBSHARE_WRITE'']),
      (''KEYCHAIN_CREDENTIAL_READ'', Role []),
      (''KEYCHAIN_CREDENTIAL_WRITE'', Role [''KEYCHAIN_CREDENTIAL_READ'']),
      (''REPLICATION_TASK_CONFIG_READ'', Role []),
      (''REPLICATION_TASK_CONFIG_WRITE'', Role [''REPLICATION_TASK_CONFIG_READ'']),
      (''REPLICATION_TASK_READ'', Role []),
      (''REPLICATION_TASK_WRITE'', Role [''REPLICATION_TASK_READ'']),
      (''REPLICATION_TASK_WRITE_PULL'', Role [''REPLICATION_TASK_WRITE'']),
      (''SNAPSHOT_TASK_READ'', Role []),
      (''SNAPSHOT_TASK_WRITE'', Role [''SNAPSHOT_TASK_READ'']),
      (''POOL_SCRUB_READ'', Role []),
      (''POOL_SCRUB_WRITE'', Role [''POOL_SCRUB_READ'']),
      (''POOL_READ'', Role [''POOL_SCRUB_READ'']),
      (''POOL_WRITE'', Role [''POOL_READ'', ''POOL_SCRUB_WRITE'']),
      (''DATASET_READ'', Role []),
      (''DATASET_WRITE'', Role [''DATASET_READ'']),
      (''DATASET_DELETE'', Role []),
      (''SNAPSHOT_READ'', Role []),
      (''SNAPSHOT_WRITE'', Role [''SNAPSHOT_READ'']),
      (''SNAPSHOT_DELETE'', Role []),
      (''REPLICATION_ADMIN'', Role_assignable False [''KEYCHAIN_CREDENTIAL_WRITE'', ''REPLICATION_TASK_CONFIG_WRITE'', ''REPLICATION_TASK_WRITE'', ''SNAPSHOT_TASK_WRITE'', ''SNAPSHOT_WRITE'']),
      (''SHARING_ADMIN'', Role_assignable False [''READONLY_ADMIN'', ''DATASET_WRITE'', ''SHARING_WRITE'', ''ZFS_RESOURCE_WRITE'', ''FILESYSTEM_ATTRS_WRITE'', ''SERVICE_READ'']),
      (''SYSTEM_GENERAL_READ'', Role []),
      (''SYSTEM_GENERAL_WRITE'', Role [''SYSTEM_GENERAL_READ'']),
      (''SYSTEM_PRODUCT_READ'', Role []),
      (''SYSTEM_PRODUCT_WRITE'', Role [''SYSTEM_PRODUCT_WRITE'']),
      (''SYSTEM_ADVANCED_READ'', Role []),
      (''SYSTEM_ADVANCED_WRITE'', Role [''SYSTEM_ADVANCED_READ'']),
      (''SYSTEM_SECURITY_READ'', Role []),
      (''SYSTEM_SECURITY_WRITE'', Role [''SYSTEM_SECURITY_READ'']),
      (''SYSTEM_TUNABLE_READ'', Role []),
      (''SYSTEM_TUNABLE_WRITE'', Role [''SYSTEM_TUNABLE_READ'']),
      (''SYSTEM_CRON_READ'', Role []),
      (''SYSTEM_CRON_WRITE'', Role [''SYSTEM_CRON_READ'']),
      (''SYSTEM_UPDATE_READ'', Role []),
      (''SYSTEM_UPDATE_WRITE'', Role [''SYSTEM_UPDATE_READ'']),
      (''ZFS_RESOURCE_READ'', Role []),
      (''ZFS_RESOURCE_WRITE'', Role [''ZFS_RESOURCE_READ'']),
      (''ZFS_RESOURCE_DELETE'', Role [])
   ]"

definition ROLES_literal :: role_table where
  "ROLES_literal = ROLES_system @ ROLES_storage"

text \<open>\<open>ROLES['READONLY_ADMIN']\<close> is added last, from the keys present at that point.\<close>

definition ROLES :: role_table where
  "ROLES = AList.update ''READONLY_ADMIN''
     (Role_assignable False (filter (\<lambda>r. py_endswith r ''_READ'') (dict_keys ROLES_literal)))
     ROLES_literal"

definition READ_RESOURCE_BLACKLIST :: "string list" where
  "READ_RESOURCE_BLACKLIST =
     [''.create'', ''.do_create'', ''.update'', ''.do_update'', ''.delete'', ''.do_delete'']"


section \<open>Facts of the table\<close>

text \<open>The roles whose \<open>includes\<close> name the role itself.\<close>

definition self_including :: "string list" where
  "self_including = [''PRIVILEGE_WRITE'', ''SYSTEM_PRODUCT_WRITE'']"

text \<open>A rank that every other inclusion of the table decreases.\<close>

definition role_level_exceptions :: "(string \<times> nat) list" where
  "role_level_exceptions =
     [(''SHARING_READ'', 3), (''SHARING_ISCSI_READ'', 2), (''ALERT_READ'', 2), (''APPS_READ'', 2),
      (''POOL_READ'', 2), (''VM_DEVICE_READ'', 2), (''CONTAINER_DEVICE_READ'', 2),
      (''VM_DEVICE_WRITE'', 5), (''CONTAINER_DEVICE_WRITE'', 5), (''APPS_WRITE'', 5),
      (''ALERT_WRITE'', 5), (''SHARING_ISCSI_WRITE'', 5), (''POOL_WRITE'', 5),
      (''REPLICATION_TASK_WRITE_PULL'', 5), (''FILESYSTEM_FULL_CONTROL'', 5),
      (''REPLICATION_ADMIN'', 5), (''SHARING_WRITE'', 6), (''SHARING_ADMIN'', 7)]"

definition role_level :: "string \<Rightarrow> nat" where
  "role_level r =
     (case map_of role_level_exceptions r of
        Some l \<Rightarrow> l
      | None \<Rightarrow> if py_endswith r ''_READ'' then 1 else 4)"

text \<open>The conditions on one entry of the table, as a check that evaluates.\<close>

definition entry_ok :: "string \<times> role \<Rightarrow> bool" where
  "entry_ok e = (case e of (n, r) \<Rightarrow>
     (role_full_admin r \<longleftrightarrow> n = ''FULL_ADMIN'') \<and>
     (n \<in> set self_including \<or>
        list_all (\<lambda>c. role_level c < role_level n \<and> c \<notin> set self_including \<and> c \<noteq> ''FULL_ADMIN'')
          (role_includes r)) \<and>
     (py_endswith n ''_READ'' \<longrightarrow> list_all (\<lambda>c. py_endswith c ''_READ'') (role_includes r)))"

lemma entries_ok_system: "list_all entry_ok ROLES_system"
  by code_simp

lemma entries_ok_storage: "list_all entry_ok ROLES_storage"
  by code_simp

lemma readonly_admin_fresh: "''READONLY_ADMIN'' \<notin> fst ` set ROLES_literal"
  by code_simp

text \<open>The keys of the literal are distinct: their hashes are.\<close>

definition name_hash :: "string \<Rightarrow> int" where
  "name_hash s = foldl (\<lambda>h c. (h * 2 + of_char c) mod 10007) 0 s"

lemma name_hashes_distinct: "distinct (map name_hash (dict_keys ROLES_literal))"
  by code_simp

lemma ROLES_eq:
  "ROLES = ROLES_literal @
     [(''READONLY_ADMIN'', Role_assignable False (filter (\<lambda>r. py_endswith r ''_READ'') (dict_keys ROLES_literal)))]"
  by (simp add: ROLES_def update_fresh readonly_admin_fresh)

lemma dict_wf_ROLES: "dict_wf ROLES"
proof -
  have "dict_wf ROLES_literal"
    using name_hashes_distinct unfolding dict_wf_def dict_keys_def by (metis distinct_map)
  then show ?thesis by (simp add: ROLES_def py_dict.wf_put)
qed

lemma read_role_level:
  assumes "py_endswith c ''_READ''"
  shows "role_level c < 4"
proof -
  have "list_all (\<lambda>(n, l). py_endswith n ''_READ'' \<longrightarrow> l < 4) role_level_exceptions"
    by code_simp
  with assms show ?thesis
    by (auto simp: role_level_def list_all_iff split: option.split dest: map_of_SomeD)
qed

lemma read_roles_plain:
  assumes "py_endswith c ''_READ''"
  shows "c \<notin> set self_including" and "c \<noteq> ''FULL_ADMIN''"
  using assms by (auto simp: self_including_def py_endswith_def)

lemma readonly_admin_level: "role_level ''READONLY_ADMIN'' = 4"
  by code_simp

lemma entry_ok_ROLES:
  assumes "(n, r) \<in> set ROLES"
  shows "entry_ok (n, r)"
proof -
  have "\<forall>e\<in>set ROLES_literal. entry_ok e"
    using entries_ok_system entries_ok_storage by (auto simp: ROLES_literal_def list_all_iff)
  moreover have "entry_ok (''READONLY_ADMIN'',
      Role_assignable False (filter (\<lambda>r. py_endswith r ''_READ'') (dict_keys ROLES_literal)))"
    by (auto simp: entry_ok_def list_all_iff readonly_admin_level read_role_level
        dest: read_roles_plain)
  ultimately show ?thesis using assms by (auto simp: ROLES_eq)
qed

lemma ROLES_full_admin: "(n, r) \<in> set ROLES \<Longrightarrow> role_full_admin r \<longleftrightarrow> n = ''FULL_ADMIN''"
  using entry_ok_ROLES [of n r] by (simp add: entry_ok_def)

lemma ROLES_includes_ranked:
  assumes "(n, r) \<in> set ROLES" "n \<notin> set self_including" "c \<in> set (role_includes r)"
  shows "role_level c < role_level n" and "c \<notin> set self_including" and "c \<noteq> ''FULL_ADMIN''"
  using entry_ok_ROLES [OF assms(1)] assms(2,3) by (simp_all add: entry_ok_def list_all_iff)

lemma ROLES_read_includes:
  assumes "(n, r) \<in> set ROLES" "py_endswith n ''_READ''" "c \<in> set (role_includes r)"
  shows "py_endswith c ''_READ''"
  using entry_ok_ROLES [OF assms(1)] assms(2,3) by (simp add: entry_ok_def list_all_iff)

lemma map_of_ROLES_readonly:
  "map_of ROLES ''READONLY_ADMIN'' =
     Some (Role_assignable False (filter (\<lambda>r. py_endswith r ''_READ'') (dict_keys ROLES_literal)))"
  by (simp add: ROLES_def py_dict.get_put)

lemma role_level_bound: "role_level r \<le> 7"
proof -
  have "list_all (\<lambda>(n, l). l \<le> 7) role_level_exceptions" by code_simp
  then show ?thesis
    by (auto simp: role_level_def list_all_iff split: option.split dest!: map_of_SomeD)
qed

lemma map_of_ROLES_self_including:
  assumes "n \<in> set self_including"
  shows "map_of ROLES n = Some (Role [n])"
proof -
  have "list_all (\<lambda>n. (n, Role [n]) \<in> set ROLES_system \<or> (n, Role [n]) \<in> set ROLES_storage) self_including"
    by code_simp
  with assms have "(n, Role [n]) \<in> set ROLES" by (auto simp: ROLES_eq ROLES_literal_def list_all_iff)
  with dict_wf_ROLES show ?thesis by (simp add: dict_wf_def)
qed

end
