(* ===== verification/Roles.thy ===== *)
theory Roles
  imports Role_Table
begin

text \<open>
  Role-based access control, \<^verbatim>\<open>middlewared/role.py\<close>: the
  \<open>ResourceManager\<close> that records which roles grant a method or an event, and the
  \<open>RoleManager\<close> that expands a role into the roles it includes and into an allow list.

  A raised \<open>ValueError\<close>, \<open>KeyError\<close> or \<open>RecursionError\<close> is a value of
  \<open>role_error\<close>. Operations that mutate a manager return the new manager next to the
  error, because the code can raise after it has changed the manager.
\<close>

unbundle bit_operations_syntax

section \<open>Resource managers\<close>

text \<open>An allow list entry: the dictionary with the keys \<open>method\<close> and \<open>resource\<close>.\<close>

type_synonym allow_item = "string \<times> string"

record resource_manager =
  rm_title :: string
  rm_method :: string
  rm_roles :: role_table
  rm_resources :: "(string, string list) py_dict"
  rm_allowlists :: "string \<Rightarrow> allow_item list"

datatype role_error =
    AlreadyRegistered string string
  | NotRegistered string string
  | InvalidRole string
  | ResourceDenied string string
  | RoleKeyError string
  | RoleRecursionError

definition new_resource_manager :: "string \<Rightarrow> string \<Rightarrow> role_table \<Rightarrow> resource_manager" where
  "new_resource_manager title meth roles =
     \<lparr>rm_title = title, rm_method = meth, rm_roles = roles, rm_resources = [],
      rm_allowlists = (\<lambda>_. [])\<rparr>"

definition read_blacklisted :: "string \<Rightarrow> bool" where
  "read_blacklisted resource \<longleftrightarrow> list_ex (py_endswith resource) READ_RESOURCE_BLACKLIST"

text \<open>The first loop of \<open>add_roles_to_resource\<close>: every role is checked before any is added.\<close>

fun check_roles :: "role_table \<Rightarrow> string \<Rightarrow> string list \<Rightarrow> role_error option" where
  "check_roles tbl resource [] = None"
| "check_roles tbl resource (r # rs) =
     (if map_of tbl r = None then Some (InvalidRole r)
      else if py_endswith r ''_READ'' \<and> read_blacklisted resource then Some (ResourceDenied resource r)
      else check_roles tbl resource rs)"

text \<open>Its last loop: one allow list entry per role.\<close>

fun grant_roles :: "allow_item \<Rightarrow> string list \<Rightarrow> (string \<Rightarrow> allow_item list) \<Rightarrow> (string \<Rightarrow> allow_item list)" where
  "grant_roles item [] al = al"
| "grant_roles item (r # rs) al = grant_roles item rs (al(r := al r @ [item]))"

definition add_roles_to_resource ::
  "resource_manager \<Rightarrow> string \<Rightarrow> string list \<Rightarrow> role_error option \<times> resource_manager" where
  "add_roles_to_resource rm resource roles =
     (case map_of (rm_resources rm) resource of
        None \<Rightarrow> (Some (NotRegistered (rm_title rm) resource), rm)
      | Some old \<Rightarrow>
          (case check_roles (rm_roles rm) resource roles of
             Some e \<Rightarrow> (Some e, rm)
           | None \<Rightarrow>
               (None, rm\<lparr>rm_resources := AList.update resource (old @ roles) (rm_resources rm),
                         rm_allowlists := grant_roles (rm_method rm, resource) roles (rm_allowlists rm)\<rparr>)))"

definition register_resource ::
  "resource_manager \<Rightarrow> string \<Rightarrow> string list \<Rightarrow> bool \<Rightarrow> role_error option \<times> resource_manager" where
  "register_resource rm resource roles exist_ok =
     (if map_of (rm_resources rm) resource \<noteq> None
      then if \<not> exist_ok then (Some (AlreadyRegistered (rm_title rm) resource), rm)
           else add_roles_to_resource rm resource roles
      else add_roles_to_resource
             (rm\<lparr>rm_resources := AList.update resource [] (rm_resources rm)\<rparr>) resource roles)"

definition atomic_roles_for_resource :: "resource_manager \<Rightarrow> string \<Rightarrow> string set" where
  "atomic_roles_for_resource rm resource =
     (case map_of (rm_resources rm) resource of None \<Rightarrow> {} | Some rs \<Rightarrow> set rs)"

text \<open>The loops of \<open>roles_for_resource\<close>, innermost first; the state is \<open>(roles, changed)\<close>.\<close>

fun scan_includes :: "string \<Rightarrow> string list \<Rightarrow> string set \<times> bool \<Rightarrow> string set \<times> bool" where
  "scan_includes name [] st = st"
| "scan_includes name (child # cs) (roles, changed) =
     (if child \<in> roles then scan_includes name cs (insert name roles, True)
      else scan_includes name cs (roles, changed))"

fun closure_pass :: "role_table \<Rightarrow> string set \<times> bool \<Rightarrow> string set \<times> bool" where
  "closure_pass [] st = st"
| "closure_pass ((name, r) # tbl) (roles, changed) =
     (if name \<notin> roles then closure_pass tbl (scan_includes name (role_includes r) (roles, changed))
      else closure_pass tbl (roles, changed))"

lemma scan_includes_eq:
  "name \<notin> roles \<Longrightarrow> scan_includes name cs (roles, changed) =
     (if set cs \<inter> roles = {} then (roles, changed) else (insert name roles, True))"
proof (induction cs arbitrary: changed)
  case (Cons c cs)
  have *: "scan_includes name cs (insert name roles, True) = (insert name roles, True)" for cs
    by (induction cs) (auto simp: insert_absorb)
  show ?case using Cons * by auto
qed simp

lemma closure_pass_Cons:
  "closure_pass ((name, r) # tbl) (roles, changed) =
     (if name \<notin> roles \<and> set (role_includes r) \<inter> roles \<noteq> {}
      then closure_pass tbl (insert name roles, True) else closure_pass tbl (roles, changed))"
  by (simp add: scan_includes_eq)

lemma closure_pass_grows:
  "closure_pass tbl (roles, changed) = (roles', changed') \<Longrightarrow>
     roles \<subseteq> roles' \<and> roles' \<subseteq> roles \<union> fst ` set tbl \<and> (changed \<longrightarrow> changed') \<and>
     (changed' \<longrightarrow> changed \<or> roles \<subset> roles') \<and> (\<not> changed' \<longrightarrow> roles' = roles)"
proof (induction tbl arbitrary: roles changed)
  case (Cons p tbl)
  obtain name r where p: "p = (name, r)" by (cases p)
  show ?case
  proof (cases "name \<notin> roles \<and> set (role_includes r) \<inter> roles \<noteq> {}")
    case True
    then have "closure_pass tbl (insert name roles, True) = (roles', changed')"
      using Cons.prems p by (simp add: scan_includes_eq)
    from Cons.IH [OF this] True p show ?thesis by auto
  next
    case False
    then have "closure_pass tbl (roles, changed) = (roles', changed')"
      using Cons.prems p by (simp only: closure_pass_Cons if_False)
    from Cons.IH [OF this] p show ?thesis by auto
  qed
qed simp

text \<open>
  The outer \<open>while changed\<close> loop. It stops because a pass that changes anything adds a role
  name of the table.
\<close>

function close_roles :: "role_table \<Rightarrow> string set \<Rightarrow> string set" where
  "close_roles tbl roles =
     (case closure_pass tbl (roles, False) of
        (roles', changed) \<Rightarrow> if changed then close_roles tbl roles' else roles')"
  by pat_completeness auto
termination
proof (relation "measure (\<lambda>(tbl, roles). card (fst ` set tbl - roles))", goal_cases)
  case (2 tbl roles roles' changed)
  then have "closure_pass tbl (roles, False) = (roles', True)" by simp
  from closure_pass_grows [OF this]
  have "fst ` set tbl - roles' \<subset> fst ` set tbl - roles" by auto
  then show ?case by (simp add: psubset_card_mono)
qed simp

declare close_roles.simps [simp del]

definition roles_for_resource :: "resource_manager \<Rightarrow> string \<Rightarrow> string list" where
  "roles_for_resource rm resource =
     sorted_list_of_set (close_roles (rm_roles rm) (atomic_roles_for_resource rm resource))"

section \<open>The role manager\<close>

record role_manager =
  mgr_roles :: role_table
  mgr_methods :: resource_manager
  mgr_events :: resource_manager

definition new_role_manager :: "role_table \<Rightarrow> role_manager" where
  "new_role_manager roles =
     \<lparr>mgr_roles = roles, mgr_methods = new_resource_manager ''Method'' ''CALL'' roles,
      mgr_events = new_resource_manager ''Event'' ''SUBSCRIBE'' roles\<rparr>"

definition register_method ::
  "role_manager \<Rightarrow> string \<Rightarrow> string list \<Rightarrow> bool \<Rightarrow> role_error option \<times> role_manager" where
  "register_method m name roles exist_ok =
     (let (e, rm) = register_resource (mgr_methods m) name roles exist_ok in (e, m\<lparr>mgr_methods := rm\<rparr>))"

definition add_roles_to_method ::
  "role_manager \<Rightarrow> string \<Rightarrow> string list \<Rightarrow> role_error option \<times> role_manager" where
  "add_roles_to_method m name roles =
     (let (e, rm) = add_roles_to_resource (mgr_methods m) name roles in (e, m\<lparr>mgr_methods := rm\<rparr>))"

definition register_event ::
  "role_manager \<Rightarrow> string \<Rightarrow> string list \<Rightarrow> bool \<Rightarrow> role_error option \<times> role_manager" where
  "register_event m name roles exist_ok =
     (let (e, rm) = register_resource (mgr_events m) name roles exist_ok in (e, m\<lparr>mgr_events := rm\<rparr>))"

definition role_stig_check :: "role_table \<Rightarrow> string \<Rightarrow> stig \<Rightarrow> role_error + bool" where
  "role_stig_check tbl name enabled_stig =
     (if enabled_stig = 0 then Inr True
      else (case map_of tbl name of
              None \<Rightarrow> Inl (RoleKeyError name)
            | Some r \<Rightarrow> (case role_stig r of
                           None \<Rightarrow> Inr False
                         | Some s \<Rightarrow> Inr (s AND enabled_stig \<noteq> 0))))"

text \<open>The comprehension over all roles in the branch for a full administrator.\<close>

fun stig_allowed_names :: "role_table \<Rightarrow> stig \<Rightarrow> string list \<Rightarrow> role_error + string set" where
  "stig_allowed_names tbl st [] = Inr {}"
| "stig_allowed_names tbl st (n # ns) =
     (case role_stig_check tbl n st of
        Inl e \<Rightarrow> Inl e
      | Inr ok \<Rightarrow> (case stig_allowed_names tbl st ns of
                      Inl e \<Rightarrow> Inl e
                    | Inr S \<Rightarrow> Inr (if ok then insert n S else S)))"

text \<open>
  The comprehension over the included roles: the STIG check of a role, then its expansion
  \<open>expand\<close> when the check passed. The first exception is the result.
\<close>

fun expand_includes ::
  "(string \<Rightarrow> role_error + bool) \<Rightarrow> (string \<Rightarrow> role_error + string set) \<Rightarrow> string list \<Rightarrow> role_error + string set" where
  "expand_includes chk expand [] = Inr {}"
| "expand_includes chk expand (n # ns) =
     (case chk n of
        Inl e \<Rightarrow> Inl e
      | Inr False \<Rightarrow> expand_includes chk expand ns
      | Inr True \<Rightarrow>
          (case expand n of
             Inl e \<Rightarrow> Inl e
           | Inr S \<Rightarrow> (case expand_includes chk expand ns of
                          Inl e \<Rightarrow> Inl e
                        | Inr T \<Rightarrow> Inr (S \<union> T))))"

text \<open>
  \<open>roles_for_role\<close> calls itself once per level of inclusion. Its first argument is the
  number of frames left before Python's recursion limit; at 0 it raises \<open>RecursionError\<close>.
\<close>

fun roles_for_role :: "nat \<Rightarrow> role_table \<Rightarrow> string \<Rightarrow> stig \<Rightarrow> role_error + string set" where
  "roles_for_role 0 tbl role st = Inl RoleRecursionError"
| "roles_for_role (Suc depth) tbl role st =
     (case map_of tbl role of
        None \<Rightarrow> Inr {}
      | Some r \<Rightarrow>
          if role_full_admin r then stig_allowed_names tbl st (dict_keys tbl)
          else (case expand_includes (\<lambda>n. role_stig_check tbl n st)
                       (\<lambda>n. roles_for_role depth tbl n st) (role_includes r) of
                  Inl e \<Rightarrow> Inl e
                | Inr S \<Rightarrow> Inr (insert role S)))"

abbreviation ALLOW_LIST_FULL_ADMIN :: allow_item where
  "ALLOW_LIST_FULL_ADMIN \<equiv> (''*'', ''*'')"

text \<open>
  The allow lists of all roles of the expansion, joined. The code iterates over a Python
  \<open>set\<close>, whose order is not specified; the model takes the sorted order.
\<close>

definition joined_allowlists :: "role_manager \<Rightarrow> string set \<Rightarrow> allow_item list" where
  "joined_allowlists m roles =
     concat (map (\<lambda>r. rm_allowlists (mgr_methods m) r @ rm_allowlists (mgr_events m) r)
       (sorted_list_of_set roles))"

definition allowlist_for_role :: "nat \<Rightarrow> role_manager \<Rightarrow> string \<Rightarrow> stig \<Rightarrow> role_error + allow_item list" where
  "allowlist_for_role depth m role st =
     (if (\<exists>r. map_of (mgr_roles m) role = Some r \<and> role_full_admin r) \<and> st = 0
      then Inr [ALLOW_LIST_FULL_ADMIN]
      else map_sum id (joined_allowlists m) (roles_for_role depth (mgr_roles m) role st))"

definition roles_for_method :: "role_manager \<Rightarrow> string \<Rightarrow> string list" where
  "roles_for_method m = roles_for_resource (mgr_methods m)"

definition atomic_roles_for_method :: "role_manager \<Rightarrow> string \<Rightarrow> string set" where
  "atomic_roles_for_method m = atomic_roles_for_resource (mgr_methods m)"

definition roles_for_event :: "role_manager \<Rightarrow> string \<Rightarrow> string list" where
  "roles_for_event m = roles_for_resource (mgr_events m)"

definition atomic_roles_for_event :: "role_manager \<Rightarrow> string \<Rightarrow> string set" where
  "atomic_roles_for_event m = atomic_roles_for_resource (mgr_events m)"


section \<open>Inclusion closure of a resource\<close>

text \<open>\<open>(r, c)\<close> when the role \<open>r\<close> lists the role \<open>c\<close> in its \<open>includes\<close>.\<close>

definition includes_rel :: "role_table \<Rightarrow> (string \<times> string) set" where
  "includes_rel tbl = {(n, c). \<exists>r. (n, r) \<in> set tbl \<and> c \<in> set (role_includes r)}"

text \<open>The roles from which some role of \<open>A\<close> is reached by inclusion.\<close>

definition granting_roles :: "role_table \<Rightarrow> string set \<Rightarrow> string set" where
  "granting_roles tbl A = {r. \<exists>a\<in>A. (r, a) \<in> (includes_rel tbl)\<^sup>*}"

lemma closure_pass_sound:
  "closure_pass tbl (roles, changed) = (roles', changed') \<Longrightarrow> set tbl \<subseteq> set full \<Longrightarrow>
     roles' \<subseteq> granting_roles full roles"
proof (induction tbl arbitrary: roles changed)
  case (Cons p tbl)
  obtain name r where p: "p = (name, r)" by (cases p)
  show ?case
  proof (cases "name \<notin> roles \<and> set (role_includes r) \<inter> roles \<noteq> {}")
    case True
    then obtain c where "c \<in> set (role_includes r)" "c \<in> roles" by blast
    then have "(name, c) \<in> includes_rel full"
      using Cons.prems(2) p by (auto simp: includes_rel_def)
    with \<open>c \<in> roles\<close> have "name \<in> granting_roles full roles"
      by (auto simp: granting_roles_def)
    then have "granting_roles full (insert name roles) \<subseteq> granting_roles full roles"
      unfolding granting_roles_def by (auto intro: rtrancl_trans)
    moreover have "roles' \<subseteq> granting_roles full (insert name roles)"
      using Cons True p by (auto simp: scan_includes_eq)
    ultimately show ?thesis by blast
  next
    case False
    then have "closure_pass tbl (roles, changed) = (roles', changed')"
      using Cons.prems p by (simp only: closure_pass_Cons if_False)
    with Cons show ?thesis by simp
  qed
qed (auto simp: granting_roles_def)

lemma closure_pass_stable:
  "closure_pass tbl (roles, False) = (roles, False) \<Longrightarrow> (n, r) \<in> set tbl \<Longrightarrow>
     set (role_includes r) \<inter> roles \<noteq> {} \<Longrightarrow> n \<in> roles"
proof (induction tbl)
  case (Cons p tbl)
  obtain name r' where p: "p = (name, r')" by (cases p)
  show ?case
  proof (cases "name \<notin> roles \<and> set (role_includes r') \<inter> roles \<noteq> {}")
    case True
    then have "closure_pass tbl (insert name roles, True) = (roles, False)"
      using Cons.prems(1) p by (simp add: scan_includes_eq)
    from closure_pass_grows [OF this] show ?thesis by simp
  next
    case False
    then have "closure_pass tbl (roles, False) = (roles, False)"
      using Cons.prems(1) p by (simp only: closure_pass_Cons if_False)
    with Cons False p show ?thesis by auto
  qed
qed simp

lemma close_roles_stable: "closure_pass tbl (close_roles tbl roles, False) = (close_roles tbl roles, False)"
proof (induction tbl roles rule: close_roles.induct)
  case (1 tbl roles)
  obtain roles' changed where p: "closure_pass tbl (roles, False) = (roles', changed)" by force
  show ?case
  proof (cases changed)
    case True
    with "1" p show ?thesis by (simp add: close_roles.simps [of tbl roles])
  next
    case False
    with p closure_pass_grows [OF p] show ?thesis by (simp add: close_roles.simps [of tbl roles])
  qed
qed

lemma close_roles_bounds: "roles \<subseteq> close_roles tbl roles \<and> close_roles tbl roles \<subseteq> granting_roles tbl roles"
proof (induction tbl roles rule: close_roles.induct)
  case (1 tbl roles)
  obtain roles' changed where p: "closure_pass tbl (roles, False) = (roles', changed)" by force
  have sub: "roles \<subseteq> roles'" "roles' \<subseteq> granting_roles tbl roles"
    using closure_pass_grows [OF p] closure_pass_sound [OF p] by auto
  then have "granting_roles tbl roles' \<subseteq> granting_roles tbl roles"
    unfolding granting_roles_def by (blast intro: rtrancl_trans)
  moreover have "changed \<Longrightarrow> roles' \<subseteq> close_roles tbl roles' \<and> close_roles tbl roles' \<subseteq> granting_roles tbl roles'"
    using "1" p by simp
  ultimately show ?case using p sub by (cases changed) (simp_all add: close_roles.simps [of tbl roles], blast)
qed

lemma close_roles_eq: "close_roles tbl roles = granting_roles tbl roles"
proof
  show "granting_roles tbl roles \<subseteq> close_roles tbl roles"
  proof
    fix r assume "r \<in> granting_roles tbl roles"
    then obtain a where a: "a \<in> roles" "(r, a) \<in> (includes_rel tbl)\<^sup>*"
      by (auto simp: granting_roles_def)
    from a(2) show "r \<in> close_roles tbl roles"
    proof (induction rule: converse_rtrancl_induct)
      case base
      with a(1) close_roles_bounds [of roles tbl] show ?case by blast
    next
      case (step r c)
      then show ?case
        using closure_pass_stable [OF close_roles_stable] by (fastforce simp: includes_rel_def)
    qed
  qed
qed (use close_roles_bounds in blast)

lemma finite_granting_roles:
  assumes "finite A"
  shows "finite (granting_roles tbl A)"
proof (rule finite_subset)
  show "granting_roles tbl A \<subseteq> A \<union> fst ` set tbl"
  proof
    fix r assume "r \<in> granting_roles tbl A"
    then obtain a where "a \<in> A" "(r, a) \<in> (includes_rel tbl)\<^sup>*" by (auto simp: granting_roles_def)
    then have "r = a \<or> (\<exists>c. (r, c) \<in> includes_rel tbl)" by (meson converse_rtranclE)
    with \<open>a \<in> A\<close> show "r \<in> A \<union> fst ` set tbl" by (force simp: includes_rel_def)
  qed
qed (simp add: assms)

lemma finite_atomic_roles [simp]: "finite (atomic_roles_for_resource rm resource)"
  by (simp add: atomic_roles_for_resource_def split: option.split)

lemma set_roles_for_resource:
  "set (roles_for_resource rm resource) =
     granting_roles (rm_roles rm) (atomic_roles_for_resource rm resource)"
  by (simp add: roles_for_resource_def close_roles_eq finite_granting_roles)

section \<open>Expansion of a role\<close>

text \<open>
  The inclusions \<open>roles_for_role\<close> follows: from a role of the table that is not a full
  administrator to an included role that passes the STIG check.
\<close>

definition stig_edges :: "role_table \<Rightarrow> stig \<Rightarrow> (string \<times> string) set" where
  "stig_edges tbl st =
     {(r, c). \<exists>ro. map_of tbl r = Some ro \<and> \<not> role_full_admin ro \<and>
        c \<in> set (role_includes ro) \<and> role_stig_check tbl c st = Inr True}"

definition stig_allowed :: "role_table \<Rightarrow> stig \<Rightarrow> string set" where
  "stig_allowed tbl st = {n. n \<in> fst ` set tbl \<and> role_stig_check tbl n st = Inr True}"

text \<open>What one role of the table contributes: itself, or every allowed role for a full administrator.\<close>

definition contributes :: "role_table \<Rightarrow> stig \<Rightarrow> string \<Rightarrow> string set" where
  "contributes tbl st r =
     (case map_of tbl r of
        None \<Rightarrow> {}
      | Some ro \<Rightarrow> if role_full_admin ro then stig_allowed tbl st else {r})"

definition role_expansion :: "role_table \<Rightarrow> stig \<Rightarrow> string \<Rightarrow> string set" where
  "role_expansion tbl st role = (\<Union>r\<in>{r. (role, r) \<in> (stig_edges tbl st)\<^sup>*}. contributes tbl st r)"

lemma stig_allowed_names_sound:
  "stig_allowed_names tbl st ns = Inr S \<Longrightarrow> S = {n \<in> set ns. role_stig_check tbl n st = Inr True}"
  by (induction ns arbitrary: S) (auto split: sum.splits if_splits)

lemma stig_allowed_names_total:
  "(\<And>n. n \<in> set ns \<Longrightarrow> n \<in> fst ` set tbl) \<Longrightarrow> \<exists>S. stig_allowed_names tbl st ns = Inr S"
proof (induction ns)
  case (Cons n ns)
  have "map_of tbl n \<noteq> None" using Cons.prems [of n] by (simp add: map_of_eq_None_iff)
  then obtain b where "role_stig_check tbl n st = Inr b"
    by (cases "role_stig_check tbl n st") (auto simp: role_stig_check_def split: if_splits option.splits)
  with Cons show ?case by auto
qed simp

lemma expand_includes_sound:
  "expand_includes chk f ns = Inr S \<Longrightarrow>
     S = (\<Union>n\<in>{n \<in> set ns. chk n = Inr True}. case f n of Inl e \<Rightarrow> {} | Inr T \<Rightarrow> T) \<and>
     (\<forall>n\<in>set ns. chk n = Inr True \<longrightarrow> (\<exists>T. f n = Inr T))"
proof (induction ns arbitrary: S)
  case (Cons n ns)
  show ?case
  proof (cases "chk n")
    case (Inr b)
    show ?thesis
    proof (cases b)
      case True
      with Cons.prems Inr obtain T U where "f n = Inr T" "expand_includes chk f ns = Inr U" "S = T \<union> U"
        by (auto split: sum.splits)
      with Cons.IH [of U] True Inr show ?thesis by auto
    next
      case False
      with Cons Inr show ?thesis by auto
    qed
  qed (use Cons.prems in simp)
qed simp

lemma expand_includes_error:
  "expand_includes chk f ns = Inl e \<Longrightarrow>
     \<exists>n\<in>set ns. chk n = Inl e \<or> chk n = Inr True \<and> f n = Inl e"
  by (induction ns) (auto split: sum.splits bool.splits)

lemma stig_expansion_step:
  assumes "map_of tbl role = Some ro" "\<not> role_full_admin ro"
  shows "role_expansion tbl st role =
    insert role (\<Union>n\<in>{n \<in> set (role_includes ro). role_stig_check tbl n st = Inr True}. role_expansion tbl st n)"
proof -
  have "{r. (role, r) \<in> (stig_edges tbl st)\<^sup>*} =
    insert role (\<Union>n\<in>{n \<in> set (role_includes ro). role_stig_check tbl n st = Inr True}.
      {r. (n, r) \<in> (stig_edges tbl st)\<^sup>*})"
    using assms
    by (auto simp: stig_edges_def elim: converse_rtranclE intro: converse_rtrancl_into_rtrancl)
  then show ?thesis
    using assms by (simp add: role_expansion_def contributes_def)
qed

lemma no_edges_expansion:
  assumes "\<And>ro. map_of tbl role = Some ro \<Longrightarrow> role_full_admin ro"
  shows "role_expansion tbl st role = contributes tbl st role"
proof -
  have "{r. (role, r) \<in> (stig_edges tbl st)\<^sup>*} = {role}"
    using assms by (auto simp: stig_edges_def elim: converse_rtranclE)
  then show ?thesis by (simp add: role_expansion_def)
qed

lemma roles_for_role_sound:
  "roles_for_role depth tbl role st = Inr S \<Longrightarrow> S = role_expansion tbl st role"
proof (induction depth arbitrary: role S)
  case (Suc depth)
  show ?case
  proof (cases "map_of tbl role")
    case None
    then have "role_expansion tbl st role = {}" using no_edges_expansion [of tbl role st] by (simp add: contributes_def)
    with Suc.prems None show ?thesis by simp
  next
    case (Some ro)
    show ?thesis
    proof (cases "role_full_admin ro")
      case True
      with Some have "role_expansion tbl st role = stig_allowed tbl st"
        using no_edges_expansion [of tbl role st] by (simp add: contributes_def)
      moreover have "S = stig_allowed tbl st"
        using Suc.prems Some True stig_allowed_names_sound [of tbl st "dict_keys tbl" S]
        by (auto simp: stig_allowed_def dict_keys_def)
      ultimately show ?thesis by simp
    next
      case False
      let ?chk = "\<lambda>n. role_stig_check tbl n st" and ?f = "\<lambda>n. roles_for_role depth tbl n st"
      from Suc.prems Some False obtain T where T: "expand_includes ?chk ?f (role_includes ro) = Inr T"
        and S: "S = insert role T" by (auto split: sum.splits)
      have "T = (\<Union>n\<in>{n \<in> set (role_includes ro). ?chk n = Inr True}. role_expansion tbl st n)"
        using expand_includes_sound [OF T] Suc.IH by (auto; fastforce)
      with S Some False show ?thesis by (simp add: stig_expansion_step)
    qed
  qed
qed simp

text \<open>
  A ranking of the inclusions bounds the recursion: enough frames are left when there are more
  of them than the rank of the role. Without a ranking (a role that includes itself) the code
  does not return.
\<close>

definition ranked :: "role_table \<Rightarrow> stig \<Rightarrow> (string \<Rightarrow> nat) \<Rightarrow> bool" where
  "ranked tbl st rk \<longleftrightarrow> (\<forall>(r, c)\<in>stig_edges tbl st. rk c < rk r)"

lemma roles_for_role_no_recursion_error:
  assumes "\<And>r c. (role, r) \<in> (stig_edges tbl st)\<^sup>* \<Longrightarrow> (r, c) \<in> stig_edges tbl st \<Longrightarrow> rk c < rk r"
    and "rk role < depth"
  shows "roles_for_role depth tbl role st \<noteq> Inl RoleRecursionError"
  using assms
proof (induction depth arbitrary: role)
  case (Suc depth)
  have chk: "role_stig_check tbl n st \<noteq> Inl RoleRecursionError" for n
    by (simp add: role_stig_check_def split: option.split)
  have adm: "stig_allowed_names tbl st ns \<noteq> Inl RoleRecursionError" for ns
    by (induction ns) (auto simp: chk split: sum.split)
  have inc: False if "map_of tbl role = Some ro" "\<not> role_full_admin ro"
      "expand_includes (\<lambda>n. role_stig_check tbl n st) (\<lambda>n. roles_for_role depth tbl n st) (role_includes ro)
        = Inl RoleRecursionError" for ro
  proof -
    from expand_includes_error [OF that(3)] obtain n where n: "n \<in> set (role_includes ro)"
      "role_stig_check tbl n st = Inr True" "roles_for_role depth tbl n st = Inl RoleRecursionError"
      by (auto simp: chk)
    then have e: "(role, n) \<in> stig_edges tbl st" using that by (auto simp: stig_edges_def)
    then have "rk n < depth" using Suc.prems(1) [of role n] Suc.prems(2) by auto
    moreover have "rk c < rk r" if "(n, r) \<in> (stig_edges tbl st)\<^sup>*" "(r, c) \<in> stig_edges tbl st" for r c
      using Suc.prems(1) [of r c] e that by (meson converse_rtrancl_into_rtrancl)
    ultimately show False using Suc.IH [of n] n(3) by blast
  qed
  show ?case
  proof (cases "map_of tbl role")
    case (Some ro)
    with adm inc [of ro] show ?thesis by (auto split: sum.splits)
  qed simp
qed simp

lemma role_stig_check_none [simp]: "role_stig_check tbl n 0 = Inr True"
  by (simp add: role_stig_check_def)

lemma roles_for_role_error_none:
  "roles_for_role depth tbl role 0 = Inl e \<Longrightarrow> e = RoleRecursionError"
proof (induction depth arbitrary: role)
  case (Suc depth)
  have adm: "\<exists>S. stig_allowed_names tbl 0 ns = Inr S" for ns
    by (induction ns) auto
  show ?case
  proof (cases "map_of tbl role")
    case (Some ro)
    with Suc.prems adm [of "dict_keys tbl"]
    have "expand_includes (\<lambda>n. role_stig_check tbl n 0) (\<lambda>n. roles_for_role depth tbl n 0) (role_includes ro) = Inl e"
      by (auto split: if_splits sum.splits)
    from expand_includes_error [OF this] Suc.IH show ?thesis by auto
  qed (use Suc.prems in simp)
qed simp

section \<open>What registration keeps\<close>

text \<open>
  The well-formedness of a resource manager: every granted role is in the table, a role whose
  name ends in \<open>_READ\<close> is granted no creating, updating or deleting resource, and the
  allow lists are exactly the grants, read the other way round.
\<close>

definition rm_ok :: "resource_manager \<Rightarrow> bool" where
  "rm_ok rm \<longleftrightarrow>
     dict_wf (rm_resources rm) \<and>
     (\<forall>resource rs r. map_of (rm_resources rm) resource = Some rs \<longrightarrow> r \<in> set rs \<longrightarrow>
        map_of (rm_roles rm) r \<noteq> None \<and> \<not> (py_endswith r ''_READ'' \<and> read_blacklisted resource)) \<and>
     (\<forall>r item. item \<in> set (rm_allowlists rm r) \<longleftrightarrow>
        (\<exists>resource. item = (rm_method rm, resource) \<and> r \<in> atomic_roles_for_resource rm resource))"

lemma check_roles_None:
  "check_roles tbl resource roles = None \<longleftrightarrow>
     (\<forall>r\<in>set roles. map_of tbl r \<noteq> None \<and> \<not> (py_endswith r ''_READ'' \<and> read_blacklisted resource))"
  by (induction roles) auto

lemma set_grant_roles:
  "set (grant_roles item roles al r) = set (al r) \<union> (if r \<in> set roles then {item} else {})"
  by (induction roles arbitrary: al) auto

lemma new_resource_manager_ok: "rm_ok (new_resource_manager title meth roles)"
  by (simp add: rm_ok_def new_resource_manager_def atomic_roles_for_resource_def dict_wf_def)

lemma atomic_roles_update:
  "atomic_roles_for_resource (rm\<lparr>rm_resources := AList.update k v (rm_resources rm), rm_allowlists := al\<rparr>) resource =
     (if resource = k then set v else atomic_roles_for_resource rm resource)"
  by (simp add: atomic_roles_for_resource_def py_dict.get_put)

lemma add_roles_ok:
  assumes "rm_ok rm"
  shows "rm_ok (snd (add_roles_to_resource rm resource roles))"
proof (cases "map_of (rm_resources rm) resource")
  case None
  with assms show ?thesis by (simp add: add_roles_to_resource_def)
next
  case (Some old)
  show ?thesis
  proof (cases "check_roles (rm_roles rm) resource roles")
    case None
    have at: "atomic_roles_for_resource rm resource = set old"
      using Some by (simp add: atomic_roles_for_resource_def)
    from assms have w: "dict_wf (rm_resources rm)"
      and g: "\<And>resource rs r. map_of (rm_resources rm) resource = Some rs \<Longrightarrow> r \<in> set rs \<Longrightarrow>
        map_of (rm_roles rm) r \<noteq> None \<and> \<not> (py_endswith r ''_READ'' \<and> read_blacklisted resource)"
      and a: "\<And>r item. item \<in> set (rm_allowlists rm r) \<longleftrightarrow>
        (\<exists>resource. item = (rm_method rm, resource) \<and> r \<in> atomic_roles_for_resource rm resource)"
      by (auto simp: rm_ok_def)
    let ?rm = "rm\<lparr>rm_resources := AList.update resource (old @ roles) (rm_resources rm),
      rm_allowlists := grant_roles (rm_method rm, resource) roles (rm_allowlists rm)\<rparr>"
    have "rm_ok ?rm"
      unfolding rm_ok_def atomic_roles_update
    proof (intro conjI allI impI)
      show "dict_wf (rm_resources ?rm)" using w by (simp add: py_dict.wf_put)
      fix r item
      show "item \<in> set (rm_allowlists ?rm r) \<longleftrightarrow>
        (\<exists>res. item = (rm_method ?rm, res) \<and>
           r \<in> (if res = resource then set (old @ roles) else atomic_roles_for_resource rm res))"
        using at by (auto simp: set_grant_roles a split: if_splits)
    qed (use g Some None in \<open>auto simp: py_dict.get_put check_roles_None split: if_splits\<close>)
    with Some None show ?thesis by (simp add: add_roles_to_resource_def)
  qed (use assms Some in \<open>simp add: add_roles_to_resource_def\<close>)
qed

lemma register_resource_ok:
  assumes "rm_ok rm"
  shows "rm_ok (snd (register_resource rm resource roles exist_ok))"
proof (cases "map_of (rm_resources rm) resource")
  case None
  let ?rm = "rm\<lparr>rm_resources := AList.update resource [] (rm_resources rm)\<rparr>"
  have "atomic_roles_for_resource ?rm = atomic_roles_for_resource rm"
    using None by (auto simp: atomic_roles_for_resource_def py_dict.get_put fun_eq_iff)
  with assms None have "rm_ok ?rm"
    by (auto simp: rm_ok_def py_dict.get_put py_dict.wf_put split: if_splits)
  with None show ?thesis by (simp add: register_resource_def add_roles_ok)
next
  case (Some rs)
  with assms show ?thesis by (simp add: register_resource_def add_roles_ok)
qed

text \<open>Registration changes neither the role table nor the kind of the manager.\<close>

lemma add_roles_frame [simp]:
  "rm_roles (snd (add_roles_to_resource rm resource roles)) = rm_roles rm"
  "rm_method (snd (add_roles_to_resource rm resource roles)) = rm_method rm"
  by (simp_all add: add_roles_to_resource_def split: option.split)

lemma register_resource_frame [simp]:
  "rm_roles (snd (register_resource rm resource roles exist_ok)) = rm_roles rm"
  "rm_method (snd (register_resource rm resource roles exist_ok)) = rm_method rm"
  by (simp_all add: register_resource_def)

text \<open>The calls by which the middleware fills a role manager, successful or not.\<close>

inductive manager_step :: "role_manager \<Rightarrow> role_manager \<Rightarrow> bool" where
  step_register_method: "manager_step m (snd (register_method m name roles exist_ok))"
| step_add_roles: "manager_step m (snd (add_roles_to_method m name roles))"
| step_register_event: "manager_step m (snd (register_event m name roles exist_ok))"

definition manager_ok :: "role_table \<Rightarrow> role_manager \<Rightarrow> bool" where
  "manager_ok tbl m \<longleftrightarrow>
     mgr_roles m = tbl \<and>
     rm_ok (mgr_methods m) \<and> rm_roles (mgr_methods m) = tbl \<and> rm_method (mgr_methods m) = ''CALL'' \<and>
     rm_ok (mgr_events m) \<and> rm_roles (mgr_events m) = tbl \<and> rm_method (mgr_events m) = ''SUBSCRIBE''"

interpretation manager: invariant_system "\<lambda>m. m = new_role_manager tbl" manager_step "manager_ok tbl" for tbl
proof
  fix m m'
  show "m = new_role_manager tbl \<Longrightarrow> manager_ok tbl m"
    by (simp add: manager_ok_def new_role_manager_def new_resource_manager_ok)
       (simp add: new_resource_manager_def)
  show "manager_ok tbl m \<Longrightarrow> manager_step m m' \<Longrightarrow> manager_ok tbl m'"
    by (auto simp: manager_ok_def register_method_def add_roles_to_method_def register_event_def
        split_beta register_resource_ok add_roles_ok elim!: manager_step.cases)
qed

text \<open>The managers the middleware can have over the role table \<open>tbl\<close>.\<close>

abbreviation reachable_manager :: "role_table \<Rightarrow> role_manager \<Rightarrow> bool" where
  "reachable_manager tbl \<equiv> reach (\<lambda>m. m = new_role_manager tbl) manager_step"

lemma reachable_one_method:
  "reachable_manager tbl (snd (register_method (new_role_manager tbl) name roles exist_ok))"
  by (rule reach_step [where s = "new_role_manager tbl"]) (auto intro: reach_init step_register_method)

section \<open>Allow lists and grants\<close>

lemma finite_role_expansion: "finite (role_expansion tbl st role)"
proof (rule finite_subset)
  show "role_expansion tbl st role \<subseteq> fst ` set tbl"
    by (auto simp: role_expansion_def contributes_def stig_allowed_def
        split: option.splits if_splits dest!: map_of_SomeD) force
qed simp

lemma set_joined_allowlists:
  "finite S \<Longrightarrow> set (joined_allowlists m S) =
     (\<Union>r\<in>S. set (rm_allowlists (mgr_methods m) r) \<union> set (rm_allowlists (mgr_events m) r))"
  by (simp add: joined_allowlists_def)

lemma allowlist_call:
  assumes "manager_ok tbl m" and "roles_for_role depth tbl role st = Inr S"
  shows "(''CALL'', x) \<in> set (joined_allowlists m S) \<longleftrightarrow>
    (\<exists>r\<in>role_expansion tbl st role. r \<in> atomic_roles_for_method m x)"
proof -
  have S: "S = role_expansion tbl st role" using roles_for_role_sound [OF assms(2)] .
  then have "finite S" by (simp add: finite_role_expansion)
  with S assms(1) show ?thesis
    by (auto simp: set_joined_allowlists manager_ok_def rm_ok_def atomic_roles_for_method_def)
qed





section \<open>Properties\<close>

text \<open>
  C13: the roles reported for a method are exactly those from which a role registered for the
  method is reached by inclusion, in sorted order and without repetition, for every table and
  every manager, cyclic inclusions included.
\<close>

theorem roles_for_method_closure:
  "set (roles_for_method m name) =
     {r. \<exists>a. a \<in> atomic_roles_for_method m name \<and> (r, a) \<in> (includes_rel (rm_roles (mgr_methods m)))\<^sup>*} \<and>
   sorted (roles_for_method m name) \<and> distinct (roles_for_method m name)"
  by (auto simp: roles_for_method_def set_roles_for_resource granting_roles_def
      atomic_roles_for_method_def) (simp_all add: roles_for_resource_def)


lemmas registration_defs = register_method_def register_event_def add_roles_to_method_def
  register_resource_def add_roles_to_resource_def new_role_manager_def new_resource_manager_def
  read_blacklisted_def READ_RESOURCE_BLACKLIST_def py_endswith_def


lemma ROLES_rank:
  assumes "(role, r) \<in> (stig_edges ROLES st)\<^sup>*" "role \<notin> set self_including"
  shows "r \<notin> set self_including \<and> ((r, c) \<in> stig_edges ROLES st \<longrightarrow> role_level c < role_level r)"
proof -
  from assms have "r \<notin> set self_including"
    by (induction rule: rtrancl_induct)
       (auto simp: stig_edges_def dest!: map_of_SomeD dest: ROLES_includes_ranked)
  then show ?thesis
    by (auto simp: stig_edges_def dest!: map_of_SomeD dest: ROLES_includes_ranked)
qed

lemma roles_for_role_ROLES_depth:
  assumes "role \<notin> set self_including" "8 \<le> depth"
  shows "roles_for_role depth ROLES role st \<noteq> Inl RoleRecursionError"
  by (rule roles_for_role_no_recursion_error [where rk = role_level])
     (use ROLES_rank assms role_level_bound [of role] in auto)

lemma roles_for_role_ROLES:
  assumes "role \<notin> set self_including" "8 \<le> depth"
  shows "roles_for_role depth ROLES role 0 = Inr (role_expansion ROLES 0 role)"
proof (cases "roles_for_role depth ROLES role 0")
  case (Inl e)
  with roles_for_role_error_none [OF Inl] roles_for_role_ROLES_depth [OF assms, of 0]
  show ?thesis by simp
qed (simp add: roles_for_role_sound)



text \<open>
  C15: the expansion of \<open>PRIVILEGE_WRITE\<close> and of \<open>SYSTEM_PRODUCT_WRITE\<close>, which
  include themselves, never returns: at every recursion limit it raises
  \<open>RecursionError\<close>.
\<close>

theorem self_including_roles_diverge:
  assumes "role \<in> set self_including"
  shows "roles_for_role depth ROLES role 0 = Inl RoleRecursionError"
  by (induction depth) (simp_all add: map_of_ROLES_self_including [OF assms] role_stig_check_def)

theorem self_including_roles_diverge_witness:
  "roles_for_role 1000 ROLES ''PRIVILEGE_WRITE'' 0 = Inl RoleRecursionError"
  by (rule self_including_roles_diverge) (simp add: self_including_def)

lemma readonly_admin_expansion:
  assumes "r \<in> role_expansion ROLES st ''READONLY_ADMIN''"
  shows "r = ''READONLY_ADMIN'' \<or> py_endswith r ''_READ''"
proof -
  have ro: "n = ''READONLY_ADMIN'' \<or> py_endswith n ''_READ''"
    if "(''READONLY_ADMIN'', n) \<in> (stig_edges ROLES st)\<^sup>*" for n
    using that
  proof (induction rule: rtrancl_induct)
    case (step n c)
    then show ?case
      by (auto simp: stig_edges_def map_of_ROLES_readonly dest: map_of_SomeD ROLES_read_includes)
  qed simp
  have "\<not> role_full_admin x" if "(''READONLY_ADMIN'', n) \<in> (stig_edges ROLES st)\<^sup>*"
    "map_of ROLES n = Some x" for n x
    using ro [OF that(1)] ROLES_full_admin [OF map_of_SomeD [OF that(2)]] read_roles_plain(2) [of n]
    by auto
  with assms ro show ?thesis
    by (auto simp: role_expansion_def contributes_def split: option.splits if_splits)
qed

text \<open>A manager with one method, granted to \<open>READONLY_ADMIN\<close> by name.\<close>

abbreviation readonly_manager :: role_manager where
  "readonly_manager \<equiv> snd (register_method (new_role_manager ROLES) ''x.update'' [''READONLY_ADMIN''] False)"

lemma readonly_manager_allowlist:
  "\<exists>al. allowlist_for_role 8 readonly_manager ''READONLY_ADMIN'' 0 = Inr al \<and> (''CALL'', ''x.update'') \<in> set al"
proof -
  have ok: "manager_ok ROLES readonly_manager" using reachable_one_method by (rule manager.reach_inv)
  have e: "roles_for_role 8 ROLES ''READONLY_ADMIN'' 0 = Inr (role_expansion ROLES 0 ''READONLY_ADMIN'')"
    by (rule roles_for_role_ROLES) (simp_all add: self_including_def)
  have "''READONLY_ADMIN'' \<in> role_expansion ROLES 0 ''READONLY_ADMIN''"
    unfolding role_expansion_def
    by (rule UN_I [of "''READONLY_ADMIN''"]) (simp_all add: contributes_def map_of_ROLES_readonly)
  moreover have "''READONLY_ADMIN'' \<in> atomic_roles_for_method readonly_manager ''x.update''"
    by (simp add: registration_defs map_of_ROLES_readonly atomic_roles_for_method_def
        atomic_roles_for_resource_def)
  ultimately have "(''CALL'', ''x.update'') \<in>
      set (joined_allowlists readonly_manager (role_expansion ROLES 0 ''READONLY_ADMIN''))"
    using allowlist_call [OF ok e] by blast
  moreover have "allowlist_for_role 8 readonly_manager ''READONLY_ADMIN'' 0 =
      Inr (joined_allowlists readonly_manager (role_expansion ROLES 0 ''READONLY_ADMIN''))"
    using ok e by (simp add: allowlist_for_role_def map_of_ROLES_readonly manager_ok_def)
  ultimately show ?thesis by blast
qed

lemma readonly_admin_calls:
  assumes "reachable_manager ROLES m" and "allowlist_for_role depth m ''READONLY_ADMIN'' st = Inr al"
    and "(''CALL'', x) \<in> set al" and "read_blacklisted x"
  shows "''READONLY_ADMIN'' \<in> atomic_roles_for_method m x"
proof -
  have ok: "manager_ok ROLES m" using assms(1) by (rule manager.reach_inv)
  then have m: "mgr_roles m = ROLES" "rm_roles (mgr_methods m) = ROLES" "rm_ok (mgr_methods m)"
    by (auto simp: manager_ok_def)
  with assms(2) obtain S where S: "roles_for_role depth ROLES ''READONLY_ADMIN'' st = Inr S"
      "al = joined_allowlists m S"
    by (auto simp: allowlist_for_role_def map_of_ROLES_readonly map_sum_def split: sum.splits)
  with assms(3) allowlist_call [OF ok S(1), of x]
  obtain r where r: "r \<in> role_expansion ROLES st ''READONLY_ADMIN''" "r \<in> atomic_roles_for_method m x"
    by auto
  from r(2) m assms(4) have "\<not> py_endswith r ''_READ''"
    by (auto simp: rm_ok_def atomic_roles_for_method_def atomic_roles_for_resource_def split: option.splits)
  with r readonly_admin_expansion [OF r(1)] show ?thesis by auto
qed

text \<open>
  C11: whatever methods and events are registered, \<open>READONLY_ADMIN\<close> may call a method whose
  name ends in one of the blacklisted suffixes (create, update, delete) only when the method
  was granted to \<open>READONLY_ADMIN\<close> by name, under every STIG setting.
\<close>

theorem readonly_admin_calls_no_writer:
  assumes "reachable_manager ROLES m" and "allowlist_for_role depth m ''READONLY_ADMIN'' st = Inr al"
    and "(''CALL'', x) \<in> set al" and "read_blacklisted x"
  shows "''READONLY_ADMIN'' \<in> atomic_roles_for_method m x"
  using assms by (rule readonly_admin_calls)

theorem readonly_admin_calls_no_writer_witness:
  "\<exists>al. allowlist_for_role 8 readonly_manager ''READONLY_ADMIN'' 0 = Inr al \<and>
     (''CALL'', ''x.update'') \<in> set al \<and> read_blacklisted ''x.update'' \<and>
     ''READONLY_ADMIN'' \<in> atomic_roles_for_method readonly_manager ''x.update''"
proof -
  obtain al where al: "allowlist_for_role 8 readonly_manager ''READONLY_ADMIN'' 0 = Inr al"
      "(''CALL'', ''x.update'') \<in> set al"
    using readonly_manager_allowlist by blast
  have b: "read_blacklisted ''x.update''"
    by (simp add: read_blacklisted_def READ_RESOURCE_BLACKLIST_def py_endswith_def)
  from readonly_admin_calls_no_writer [OF reachable_one_method al b] al b show ?thesis by blast
qed

end
