(* ===== verification/Allowlist.thy ===== *)
theory Allowlist
  imports Roles
begin

text \<open>
  Allow lists, \<^verbatim>\<open>middlewared/utils/allowlist.py\<close>: the index an allow list is compiled
  into (\<open>Allowlist.__init__\<close>) and the authorization decision on it
  (\<open>Allowlist.authorize\<close>), with the shell patterns of Python's \<open>fnmatch\<close>
  that resources with an asterisk are compiled to.

  What is shown: the decision on the index is the decision on the list of entries it was
  built from.
\<close>

section \<open>Shell patterns\<close>

text \<open>
  The tokens \<open>fnmatch.translate\<close> reads: \<open>*\<close>, \<open>?\<close>, a bracket
  expression with its items (negated or not) and a literal character. An opening bracket
  that is never closed is a literal.
\<close>

datatype set_item = SetChar char | SetRange char char

datatype pat_token = Star | AnyChar | CharSet bool "set_item list" | Literal char

text \<open>
  The text between the brackets: \<open>]\<close> is an ordinary character in the first place.
  The result is the text and the rest of the pattern after the closing bracket.
\<close>

fun find_close :: "string \<Rightarrow> (string \<times> string) option" where
  "find_close [] = None"
| "find_close (c # cs) =
     (if c = CHR '']'' then Some ([], cs)
      else map_option (\<lambda>(stuff, rest). (c # stuff, rest)) (find_close cs))"

definition read_set :: "string \<Rightarrow> (bool \<times> string \<times> string) option" where
  "read_set cs =
     (let (neg, ds) = (case cs of c # ds \<Rightarrow> if c = CHR ''!'' then (True, ds) else (False, cs) | [] \<Rightarrow> (False, []))
      in case ds of
           [] \<Rightarrow> None
         | d # es \<Rightarrow>
             (if d = CHR '']'' then map_option (\<lambda>(stuff, rest). (neg, d # stuff, rest)) (find_close es)
              else map_option (\<lambda>(stuff, rest). (neg, stuff, rest)) (find_close ds)))"

fun set_items :: "string \<Rightarrow> set_item list" where
  "set_items [] = []"
| "set_items (a # b # c # cs) =
     (if b = CHR ''-'' then SetRange a c # set_items cs else SetChar a # set_items (b # c # cs))"
| "set_items (a # cs) = SetChar a # set_items cs"

fun item_matches :: "char \<Rightarrow> set_item \<Rightarrow> bool" where
  "item_matches x (SetChar c) \<longleftrightarrow> x = c"
| "item_matches x (SetRange a b) \<longleftrightarrow> a \<le> x \<and> x \<le> b"

lemma find_close_length: "find_close cs = Some (stuff, rest) \<Longrightarrow> length rest < length cs"
  by (induction cs arbitrary: stuff rest) (auto split: if_splits intro: less_SucI)

lemma read_set_length: "read_set cs = Some (neg, stuff, rest) \<Longrightarrow> length rest < length cs"
  by (auto simp: read_set_def split: list.splits if_splits prod.splits dest!: find_close_length)

function pat_tokens :: "string \<Rightarrow> pat_token list" where
  "pat_tokens [] = []"
| "pat_tokens (c # cs) =
     (if c = CHR ''*'' then Star # pat_tokens cs
      else if c = CHR ''?'' then AnyChar # pat_tokens cs
      else if c = CHR ''['' then
        (case read_set cs of
           None \<Rightarrow> Literal c # pat_tokens cs
         | Some (neg, stuff, rest) \<Rightarrow> CharSet neg (set_items stuff) # pat_tokens rest)
      else Literal c # pat_tokens cs)"
  by pat_completeness auto
termination
  by (relation "measure length") (auto dest: read_set_length less_SucI)

fun token_matches :: "pat_token \<Rightarrow> char \<Rightarrow> bool" where
  "token_matches Star x \<longleftrightarrow> False"
| "token_matches AnyChar x \<longleftrightarrow> True"
| "token_matches (CharSet neg items) x \<longleftrightarrow> list_ex (item_matches x) items \<noteq> neg"
| "token_matches (Literal c) x \<longleftrightarrow> x = c"

text \<open>The whole string matches: the translation ends with the end-of-string anchor.\<close>

fun tokens_match :: "pat_token list \<Rightarrow> string \<Rightarrow> bool" where
  "tokens_match [] [] \<longleftrightarrow> True"
| "tokens_match [] (x # xs) \<longleftrightarrow> False"
| "tokens_match (Star # ts) [] \<longleftrightarrow> tokens_match ts []"
| "tokens_match (Star # ts) (x # xs) \<longleftrightarrow> tokens_match ts (x # xs) \<or> tokens_match (Star # ts) xs"
| "tokens_match (t # ts) [] \<longleftrightarrow> False"
| "tokens_match (t # ts) (x # xs) \<longleftrightarrow> token_matches t x \<and> tokens_match ts xs"

definition fnmatch :: "string \<Rightarrow> string \<Rightarrow> bool" where
  "fnmatch pat s \<longleftrightarrow> tokens_match (pat_tokens pat) s"

section \<open>The allow list index\<close>

record allowlist =
  al_exact :: "(string, string set) py_dict"
  al_full_admin :: bool
  al_patterns :: "(string, pat_token list list) py_dict"

definition is_pattern :: "string \<Rightarrow> bool" where
  "is_pattern resource \<longleftrightarrow> CHR ''*'' \<in> set resource"

text \<open>\<open>d.setdefault(k, v)\<close> followed by a change of \<open>d[k]\<close>.\<close>

definition dict_modify :: "'k \<Rightarrow> 'v \<Rightarrow> ('v \<Rightarrow> 'v) \<Rightarrow> ('k, 'v) py_dict \<Rightarrow> ('k, 'v) py_dict" where
  "dict_modify k dflt f d =
     AList.update k (f (case map_of d k of None \<Rightarrow> dflt | Some v \<Rightarrow> v)) d"

fun add_entries :: "allow_item list \<Rightarrow> allowlist \<Rightarrow> allowlist" where
  "add_entries [] al = al"
| "add_entries ((meth, resource) # es) al =
     (if is_pattern resource
      then add_entries es (al\<lparr>al_patterns := dict_modify meth [] (\<lambda>ps. ps @ [pat_tokens resource]) (al_patterns al)\<rparr>)
      else add_entries es (al\<lparr>al_exact := dict_modify meth {} (insert resource) (al_exact al)\<rparr>))"

definition Allowlist :: "allow_item list \<Rightarrow> allowlist" where
  "Allowlist entries =
     add_entries entries \<lparr>al_exact = [], al_full_admin = ALLOW_LIST_FULL_ADMIN \<in> set entries, al_patterns = []\<rparr>"

definition authorize_internal :: "allowlist \<Rightarrow> string \<Rightarrow> string \<Rightarrow> bool" where
  "authorize_internal al meth resource \<longleftrightarrow>
     (case map_of (al_exact al) meth of None \<Rightarrow> False | Some exact \<Rightarrow> resource \<in> exact) \<or>
     (case map_of (al_patterns al) meth of
        None \<Rightarrow> False
      | Some patterns \<Rightarrow> list_ex (\<lambda>p. tokens_match p resource) patterns)"

definition authorize :: "allowlist \<Rightarrow> string \<Rightarrow> string \<Rightarrow> bool" where
  "authorize al meth resource \<longleftrightarrow> authorize_internal al ''*'' resource \<or> authorize_internal al meth resource"

section \<open>The decision on the list of entries\<close>

text \<open>One entry permits a request: the method or the wildcard, and the resource or its pattern.\<close>

definition entry_permits :: "allow_item \<Rightarrow> string \<Rightarrow> string \<Rightarrow> bool" where
  "entry_permits e meth resource \<longleftrightarrow>
     (fst e = ''*'' \<or> fst e = meth) \<and>
     (if is_pattern (snd e) then fnmatch (snd e) resource else snd e = resource)"

lemma map_of_dict_modify [dict_simps]:
  "map_of (dict_modify k dflt f d) k' =
     (if k' = k then Some (f (case map_of d k of None \<Rightarrow> dflt | Some v \<Rightarrow> v)) else map_of d k')"
  by (simp add: dict_modify_def py_dict.get_put)

lemma authorize_internal_add:
  "authorize_internal (add_entries es al) meth resource \<longleftrightarrow>
     authorize_internal al meth resource \<or>
     (\<exists>e\<in>set es. fst e = meth \<and> (if is_pattern (snd e) then fnmatch (snd e) resource else snd e = resource))"
proof (induction es arbitrary: al)
  case (Cons e es)
  obtain m r where e: "e = (m, r)" by (cases e)
  show ?case
  proof (cases "is_pattern r")
    case True
    let ?al = "al\<lparr>al_patterns := dict_modify m [] (\<lambda>ps. ps @ [pat_tokens r]) (al_patterns al)\<rparr>"
    have "authorize_internal ?al meth resource \<longleftrightarrow>
        authorize_internal al meth resource \<or> m = meth \<and> fnmatch r resource"
      by (auto simp: authorize_internal_def map_of_dict_modify fnmatch_def split: option.split)
    with Cons.IH [of ?al] True e show ?thesis by auto
  next
    case False
    let ?al = "al\<lparr>al_exact := dict_modify m {} (insert r) (al_exact al)\<rparr>"
    have "authorize_internal ?al meth resource \<longleftrightarrow>
        authorize_internal al meth resource \<or> m = meth \<and> r = resource"
      by (auto simp: authorize_internal_def map_of_dict_modify split: option.split)
    with Cons.IH [of ?al] False e show ?thesis by auto
  qed
qed simp

lemma full_admin_add [simp]: "al_full_admin (add_entries es al) = al_full_admin al"
  by (induction es al rule: add_entries.induct) auto

lemma Allowlist_full_admin: "al_full_admin (Allowlist entries) \<longleftrightarrow> (''*'', ''*'') \<in> set entries"
  by (simp add: Allowlist_def)

lemma authorize_iff_entry:
  "authorize (Allowlist entries) meth resource \<longleftrightarrow> (\<exists>e\<in>set entries. entry_permits e meth resource)"
proof -
  have "authorize_internal \<lparr>al_exact = [], al_full_admin = a, al_patterns = []\<rparr> m resource \<longleftrightarrow> False" for a m
    by (simp add: authorize_internal_def)
  then show ?thesis
    by (auto simp: authorize_def Allowlist_def authorize_internal_add entry_permits_def)
qed

lemma tokens_match_star: "tokens_match (Star # ts) s \<longleftrightarrow> (\<exists>u v. s = u @ v \<and> tokens_match ts v)"
proof (induction s)
  case (Cons x s)
  show ?case
  proof
    assume "tokens_match (Star # ts) (x # s)"
    then consider "tokens_match ts (x # s)" | "tokens_match (Star # ts) s" by auto
    then show "\<exists>u v. x # s = u @ v \<and> tokens_match ts v"
    proof cases
      case 1 then show ?thesis by (metis append_Nil)
    next
      case 2 with Cons.IH show ?thesis by (metis append_Cons)
    qed
  next
    assume "\<exists>u v. x # s = u @ v \<and> tokens_match ts v"
    then show "tokens_match (Star # ts) (x # s)"
      using Cons.IH by (auto simp: Cons_eq_append_conv)
  qed
qed auto

lemma fnmatch_star: "fnmatch ''*'' s"
proof -
  have "tokens_match [Star] s" by (induction s) auto
  then show ?thesis by (simp add: fnmatch_def)
qed

section \<open>Properties\<close>

text \<open>
  C16: the authorization decision on the compiled allow list is the decision on its entries: a
  request is permitted exactly when some entry has the wildcard or the same method, and the
  same resource, or a pattern that matches it.
\<close>

theorem authorize_equals_entries:
  "authorize (Allowlist entries) meth resource \<longleftrightarrow>
     (\<exists>m r. (m, r) \<in> set entries \<and> (m = ''*'' \<or> m = meth) \<and>
        (if CHR ''*'' \<in> set r then fnmatch r resource else r = resource))"
  by (force simp: authorize_iff_entry entry_permits_def is_pattern_def)

text \<open>
  An allow list that counts as a full administrator permits every request.
\<close>

theorem full_admin_authorizes_all:
  assumes "al_full_admin (Allowlist entries)"
  shows "authorize (Allowlist entries) meth resource"
  using assms unfolding authorize_iff_entry
  by (intro bexI [of _ "(''*'', ''*'')"])
     (auto simp: entry_permits_def is_pattern_def fnmatch_star Allowlist_full_admin)

theorem full_admin_authorizes_all_witness:
  "authorize (Allowlist [(''CALL'', ''a.b''), (''*'', ''*'')]) ''CALL'' ''pool.create''"
  by (rule full_admin_authorizes_all) (simp add: Allowlist_full_admin)

end
