(* ===== verification/Origin.thy ===== *)
theory Origin
  imports Prelude
begin

text \<open>
  Connection origins, \<^verbatim>\<open>middlewared/utils/origin.py\<close>: where an API connection comes
  from, how the origin of a TCP connection is recovered from the headers of the reverse proxy
  and the socket table of the kernel, and the predicates the middleware decides trust with.

  The socket table (\<open>truenas_pynetif\<close>), the login uid of a process and the address of
  the peer are arguments.
\<close>

section \<open>Internet addresses\<close>

text \<open>The part of Python's \<open>ipaddress\<close> that \<open>secure_transport\<close> uses.\<close>

definition parse_octet :: "string \<Rightarrow> nat option" where
  "parse_octet s =
     (if py_isdigit s \<and> length s \<le> 3 \<and> (hd s = CHR ''0'' \<longrightarrow> length s = 1) \<and> py_int s \<le> 255
      then Some (py_int s) else None)"

fun option_list :: "'a option list \<Rightarrow> 'a list option" where
  "option_list [] = Some []"
| "option_list (None # xs) = None"
| "option_list (Some x # xs) = map_option ((#) x) (option_list xs)"

definition parse_ipv4 :: "string \<Rightarrow> nat list option" where
  "parse_ipv4 s =
     (let parts = py_split CHR ''.'' s
      in if length parts = 4 then option_list (map parse_octet parts) else None)"

definition hex_val :: "char \<Rightarrow> nat option" where
  "hex_val c = (let n = (of_char c :: nat) in
     if 48 \<le> n \<and> n \<le> 57 then Some (n - 48)
     else if 97 \<le> n \<and> n \<le> 102 then Some (n - 87)
     else if 65 \<le> n \<and> n \<le> 70 then Some (n - 55) else None)"

definition parse_hextet :: "string \<Rightarrow> nat option" where
  "parse_hextet s =
     (if s = [] \<or> 4 < length s then None
      else map_option (foldl (\<lambda>n d. 16 * n + d) 0) (option_list (map hex_val s)))"

text \<open>
  The parts of an IPv6 address: text between colons, or a number that came from a dotted last
  part. \<open>parse_ipv6\<close> yields the eight groups.
\<close>

definition ipv6_parts :: "string \<Rightarrow> (string + nat) list option" where
  "ipv6_parts addr =
     (let parts = py_split CHR '':'' addr
      in if length parts < 3 then None
         else if CHR ''.'' \<in> set (last parts) then
           (case parse_ipv4 (last parts) of
              Some [a, b, c, d] \<Rightarrow> Some (map Inl (butlast parts) @ [Inr (256 * a + b), Inr (256 * c + d)])
            | _ \<Rightarrow> None)
         else Some (map Inl parts))"

fun part_value :: "string + nat \<Rightarrow> nat option" where
  "part_value (Inl s) = parse_hextet s"
| "part_value (Inr n) = Some n"

definition parse_ipv6_parts :: "(string + nat) list \<Rightarrow> nat list option" where
  "parse_ipv6_parts ps =
     (let n = length ps; skips = filter (\<lambda>i. ps ! i = Inl []) [1..<n - 1]
      in if 9 < n then None
         else (case skips of
            [] \<Rightarrow> if n = 8 then option_list (map part_value ps) else None
          | [k] \<Rightarrow>
              (let hi = (if hd ps = Inl [] then k - 1 else k);
                   lo = (if last ps = Inl [] then n - k - 2 else n - k - 1)
               in if (hd ps = Inl [] \<and> hi \<noteq> 0) \<or> (last ps = Inl [] \<and> lo \<noteq> 0) \<or> 8 \<le> hi + lo then None
                  else option_list (map part_value (take hi ps) @ replicate (8 - (hi + lo)) (Some 0) @
                         map part_value (drop (n - lo) ps)))
          | _ \<Rightarrow> None))"

definition parse_ipv6 :: "string \<Rightarrow> nat list option" where
  "parse_ipv6 s =
     (case py_split CHR ''%'' s of
        [addr] \<Rightarrow> Option.bind (ipv6_parts addr) parse_ipv6_parts
      | [addr, scope] \<Rightarrow> if scope = [] then None else Option.bind (ipv6_parts addr) parse_ipv6_parts
      | _ \<Rightarrow> None)"

text \<open>\<open>ip_address(s).is_loopback\<close>, or \<open>None\<close> for a \<open>ValueError\<close>.\<close>

definition ip_is_loopback :: "string \<Rightarrow> bool option" where
  "ip_is_loopback s =
     (case parse_ipv4 s of
        Some octets \<Rightarrow> Some (hd octets = 127)
      | None \<Rightarrow>
          (case parse_ipv6 s of
             None \<Rightarrow> None
           | Some g \<Rightarrow>
               if take 6 g = [0, 0, 0, 0, 0, 65535] then Some (g ! 6 div 256 = 127)
               else Some (g = [0, 0, 0, 0, 0, 0, 0, 1])))"

section \<open>The origin of a connection\<close>

datatype address_family = AF_INET | AF_INET6 | AF_UNIX | AF_OTHER int

record origin =
  family :: address_family
  loc_addr :: "string option"
  loc_port :: "int option"
  rem_addr :: "string option"
  rem_port :: "int option"
  pid :: "int option"
  uid :: "int option"
  gid :: "int option"
  loginuid :: "int option"
  ssl :: bool

abbreviation AUID_UNSET :: int where "AUID_UNSET \<equiv> 2 ^ 32 - 1"

definition HA_HEARTBEAT_IPS :: "string list" where
  "HA_HEARTBEAT_IPS = [''169.254.10.1'', ''169.254.10.2'']"

definition UIDS_TO_CHECK :: "int list" where
  "UIDS_TO_CHECK = [33, 0]"

definition is_tcp_ip_family :: "origin \<Rightarrow> bool" where
  "is_tcp_ip_family o1 \<longleftrightarrow> family o1 = AF_INET \<or> family o1 = AF_INET6"

definition is_unix_family :: "origin \<Rightarrow> bool" where
  "is_unix_family o1 \<longleftrightarrow> family o1 = AF_UNIX"

definition origin_match :: "origin \<Rightarrow> origin \<Rightarrow> bool" where
  "origin_match o1 o2 \<longleftrightarrow>
     (if is_unix_family o1 then uid o1 = uid o2 \<and> gid o1 = gid o2 else rem_addr o1 = rem_addr o2)"

definition session_is_interactive :: "origin \<Rightarrow> bool" where
  "session_is_interactive o1 \<longleftrightarrow>
     (case loginuid o1 of None \<Rightarrow> True | Some l \<Rightarrow> l \<noteq> AUID_UNSET)"

definition is_ha_connection :: "origin \<Rightarrow> bool" where
  "is_ha_connection o1 \<longleftrightarrow>
     is_tcp_ip_family o1 \<and>
     (case rem_port o1 of None \<Rightarrow> False | Some p \<Rightarrow> p \<le> 1024) \<and>
     (case rem_addr o1 of None \<Rightarrow> False | Some a \<Rightarrow> a \<in> set HA_HEARTBEAT_IPS)"

definition secure_transport :: "origin \<Rightarrow> bool" where
  "secure_transport o1 \<longleftrightarrow>
     (if ssl o1 \<or> is_unix_family o1 \<or> is_ha_connection o1 then True
      else if is_tcp_ip_family o1 then
        (case rem_addr o1 of None \<Rightarrow> False | Some a \<Rightarrow> ip_is_loopback a = Some True)
      else False)"

definition is_external_call :: "origin option option \<Rightarrow> bool" where
  "is_external_call app =
     (case app of
        None \<Rightarrow> False
      | Some None \<Rightarrow> False
      | Some (Some o1) \<Rightarrow> if is_ha_connection o1 then False else session_is_interactive o1)"

section \<open>Recovering the origin\<close>

text \<open>
  An entry of the socket table the kernel reports for one address family, and the name
  of the peer: a pair for IPv4, four fields for IPv6.
\<close>

record diag_info =
  src :: string
  sport :: int
  dst :: string
  dport :: int
  di_uid :: int

datatype peername = Peer4 string int | Peer6 string int int int

datatype origin_error = PeernameValueError

fun find_diag :: "bool \<Rightarrow> string \<Rightarrow> int \<Rightarrow> diag_info list \<Rightarrow> diag_info option" where
  "find_diag check_uids ra rp [] = None"
| "find_diag check_uids ra rp (info # infos) =
     (if dst info = ra \<and> dport info = rp then
        if check_uids \<and> di_uid info \<notin> set UIDS_TO_CHECK then find_diag check_uids ra rp infos
        else Some info
      else find_diag check_uids ra rp infos)"

definition origin_of_diag :: "address_family \<Rightarrow> bool \<Rightarrow> diag_info \<Rightarrow> origin" where
  "origin_of_diag fam https info =
     \<lparr>family = fam, loc_addr = Some (src info), loc_port = Some (sport info),
      rem_addr = Some (dst info), rem_port = Some (dport info),
      pid = None, uid = None, gid = None, loginuid = None, ssl = https\<rparr>"

text \<open>
  \<open>get_tcp_ip_info\<close>. The headers come from the client or from the proxy; when they are
  there and the port is a number, the socket must belong to one of \<open>UIDS_TO_CHECK\<close>.
  Otherwise the peer's name is unpacked into two variables, which raises \<open>ValueError\<close>
  for the four fields of an IPv6 peer.
\<close>

definition get_tcp_ip_info ::
  "(string, string) py_dict \<Rightarrow> address_family \<Rightarrow> peername \<Rightarrow> (address_family \<Rightarrow> diag_info list) \<Rightarrow>
     origin_error + origin option" where
  "get_tcp_ip_info headers sock_family peer get_inet_diag =
     (let from_headers =
        (case (map_of headers ''X-Real-Remote-Addr'', map_of headers ''X-Real-Remote-Port'') of
           (Some ra, Some rps) \<Rightarrow> map_option (\<lambda>rp. (ra, rp)) (py_parse_int rps)
         | _ \<Rightarrow> None)
      in case from_headers of
           Some (ra, rp) \<Rightarrow>
             (let fam = (if CHR '':'' \<in> set ra then AF_INET6 else AF_INET);
                  https = (map_of headers ''X-Https'' = Some ''on'')
              in Inr (map_option (origin_of_diag fam https) (find_diag True ra rp (get_inet_diag fam))))
         | None \<Rightarrow>
             (case peer of
                Peer6 _ _ _ _ \<Rightarrow> Inl PeernameValueError
              | Peer4 ra rp \<Rightarrow>
                  Inr (map_option (origin_of_diag sock_family False)
                         (find_diag False ra rp (get_inet_diag sock_family)))))"

text \<open>The socket of a request, as \<open>ConnectionOrigin.create\<close> reads it; \<open>None\<close> for no transport.\<close>

record sock =
  sk_family :: address_family
  sk_peercred :: "int \<times> int \<times> int"
  sk_peername :: peername

definition create ::
  "sock option \<Rightarrow> (string, string) py_dict \<Rightarrow> (int \<Rightarrow> int) \<Rightarrow> (address_family \<Rightarrow> diag_info list) \<Rightarrow>
     origin_error + origin option" where
  "create transport headers get_login_uid get_inet_diag =
     (case transport of
        None \<Rightarrow> Inr None
      | Some sk \<Rightarrow>
          if sk_family sk = AF_UNIX then
            (case sk_peercred sk of (p, u, g) \<Rightarrow>
               Inr (Some \<lparr>family = AF_UNIX, loc_addr = None, loc_port = None, rem_addr = None,
                 rem_port = None, pid = Some p, uid = Some u, gid = Some g,
                 loginuid = Some (get_login_uid p), ssl = False\<rparr>))
          else if sk_family sk = AF_INET \<or> sk_family sk = AF_INET6 then
            get_tcp_ip_info headers (sk_family sk) (sk_peername sk) get_inet_diag
          else Inr None)"

section \<open>Facts\<close>

lemma find_diag_Some:
  "find_diag check_uids ra rp infos = Some info \<Longrightarrow>
     info \<in> set infos \<and> dst info = ra \<and> dport info = rp \<and>
     (check_uids \<longrightarrow> di_uid info \<in> set UIDS_TO_CHECK)"
  by (induction infos) (auto split: if_splits)

text \<open>
  C21: an origin never carries a remote address that a client made up: every TCP origin is that
  of a socket of the kernel's table, and when address and port were taken from the proxy
  headers the socket belongs to root or to the proxy's user; https is believed only then.
\<close>

theorem origin_not_spoofed:
  assumes "get_tcp_ip_info headers fam peer diag = Inr (Some o1)"
  shows "\<exists>info\<in>set (diag (family o1)).
    rem_addr o1 = Some (dst info) \<and> rem_port o1 = Some (dport info) \<and>
    (di_uid info \<in> {0, 33} \<or> peer = Peer4 (dst info) (dport info) \<and> \<not> ssl o1)"
  using assms
  by (fastforce simp: get_tcp_ip_info_def Let_def origin_of_diag_def UIDS_TO_CHECK_def
      split: option.splits peername.splits dest: find_diag_Some)

theorem origin_not_spoofed_witness:
  "let info = \<lparr>src = ''127.0.0.1'', sport = 6000, dst = ''10.0.0.7'', dport = 4711, di_uid = 33\<rparr>;
       diag = (\<lambda>f. if f = AF_INET then [info] else []);
       headers = [(''X-Real-Remote-Addr'', ''10.0.0.7''), (''X-Real-Remote-Port'', ''4711''), (''X-Https'', ''on'')]
   in get_tcp_ip_info headers AF_INET (Peer4 ''127.0.0.1'' 50000) diag =
        Inr (Some (origin_of_diag AF_INET True info)) \<and>
      (\<exists>i\<in>set (diag AF_INET). rem_addr (origin_of_diag AF_INET True info) = Some (dst i) \<and> di_uid i = 33)"
proof -
  define info where
    "info = \<lparr>src = ''127.0.0.1'', sport = 6000, dst = ''10.0.0.7'', dport = 4711, di_uid = 33\<rparr>"
  define diag where "diag = (\<lambda>f. if f = AF_INET then [info] else [])"
  define headers where
    "headers = [(''X-Real-Remote-Addr'', ''10.0.0.7''), (''X-Real-Remote-Port'', ''4711''), (''X-Https'', ''on'')]"
  have port: "py_parse_int ''4711'' = Some 4711" by code_simp
  have e: "get_tcp_ip_info headers AF_INET (Peer4 ''127.0.0.1'' 50000) diag =
      Inr (Some (origin_of_diag AF_INET True info))"
    by (simp add: get_tcp_ip_info_def headers_def diag_def info_def port UIDS_TO_CHECK_def)
  have "\<exists>i\<in>set (diag AF_INET). rem_addr (origin_of_diag AF_INET True info) = Some (dst i) \<and> di_uid i = 33"
    using origin_not_spoofed [OF e] by (simp add: diag_def info_def origin_of_diag_def)
  with e show ?thesis unfolding headers_def diag_def info_def Let_def by blast
qed

end
