(* ===== verification/Credentials.thy ===== *)
theory Credentials
  imports Allowlist Origin
begin

text \<open>
  Session credentials, \<^verbatim>\<open>middlewared/auth.py\<close>, the authenticator assurance levels
  of \<^verbatim>\<open>middlewared/utils/auth.py\<close>, the authentication tokens of
  \<^verbatim>\<open>middlewared/plugins/auth.py\<close> and the privilege predicates of
  \<^verbatim>\<open>middlewared/utils/privilege.py\<close>.

  A credential is a value of \<open>cred\<close>: its class and what never changes of it. What the
  code assigns to later (the allow list, the time of last use, the login id) is in a store
  under the credential's object id; so are the user dictionaries, which a token's credentials
  share with the credentials the token was made from, and the state of the tokens.
\<close>

section \<open>Authenticator assurance levels\<close>

datatype AuthMech = API_KEY_PLAIN | PASSWORD_PLAIN | TOKEN_PLAIN | OTP_TOKEN | SCRAM

record aal =
  max_session_age :: int
  max_inactivity :: "int option"
  mechanisms :: "AuthMech list"
  otp_mandatory :: bool
  min_fail_delay :: int

definition AA_LEVEL1 :: aal where
  "AA_LEVEL1 = \<lparr>max_session_age = 86400 * 30, max_inactivity = None,
     mechanisms = [API_KEY_PLAIN, TOKEN_PLAIN, PASSWORD_PLAIN, SCRAM], otp_mandatory = False, min_fail_delay = 1\<rparr>"

definition AA_LEVEL2 :: aal where
  "AA_LEVEL2 = \<lparr>max_session_age = 12 * 60 * 60, max_inactivity = Some (30 * 60),
     mechanisms = [PASSWORD_PLAIN, SCRAM], otp_mandatory = True, min_fail_delay = 4\<rparr>"

definition AA_LEVEL3 :: aal where
  "AA_LEVEL3 = \<lparr>max_session_age = 13 * 60, max_inactivity = Some (15 * 60),
     mechanisms = [], otp_mandatory = True, min_fail_delay = 4\<rparr>"

definition mech_of_name :: "string \<Rightarrow> AuthMech option" where
  "mech_of_name s =
     map_of [(''API_KEY_PLAIN'', API_KEY_PLAIN), (''PASSWORD_PLAIN'', PASSWORD_PLAIN),
       (''TOKEN_PLAIN'', TOKEN_PLAIN), (''OTP_TOKEN'', OTP_TOKEN), (''SCRAM'', SCRAM)] s"

text \<open>\<open>None\<close> is the \<open>KeyError\<close> of an unknown mechanism name.\<close>

definition aal_auth_mechanism_check :: "string \<Rightarrow> aal \<Rightarrow> bool option" where
  "aal_auth_mechanism_check mechanism_str level =
     map_option (\<lambda>m. if m = OTP_TOKEN then True else m \<in> set (mechanisms level)) (mech_of_name mechanism_str)"

section \<open>Credentials\<close>

type_synonym oid = nat

datatype user_kind =
    PlainUser
  | ApiKey int string
  | UnixSocket
  | LoginPassword
  | LoginTwofactor
  | LoginOnetimePassword

text \<open>
  \<open>UserCred\<close>: its object id, its class, its assurance level and the object id of its
  user dictionary. \<open>TokenCred\<close>: its object id and its token. A \<open>Token\<close> has
  its object id, the token string, its time to live, attributes, the origin it is bound to, the
  credentials it was created with and whether it is for one use.
\<close>

datatype cred =
    BaseCred
  | TruenasNodeCred
  | UserCred oid user_kind "aal option" oid
  | TokenCred oid token
and token = Token oid string int pyval "origin option" cred bool

record privilege =
  pv_roles :: "string set"
  pv_allowlist :: "allow_item list"
  pv_web_shell :: bool
  pv_webui_access :: bool

record user_info =
  u_username :: string
  u_account_attributes :: "string list"
  u_privilege :: privilege

record cred_state =
  cr_allowlist :: "allowlist option"
  cr_expiry :: "seconds option"
  cr_inactivity_timeout :: "int option"
  cr_login_at :: seconds
  cr_last_used_at :: seconds
  cr_login_id :: "string option"
  cr_pam_authenticated :: bool
  cr_authenticator :: bool

record token_state =
  tk_last_used_at :: seconds
  tk_session_ids :: "string set"

record store =
  st_creds :: "oid \<Rightarrow> cred_state"
  st_users :: "oid \<Rightarrow> user_info"
  st_tokens :: "oid \<Rightarrow> token_state"

definition set_cred :: "oid \<Rightarrow> (cred_state \<Rightarrow> cred_state) \<Rightarrow> store \<Rightarrow> store" where
  "set_cred c f st = st\<lparr>st_creds := (st_creds st)(c := f (st_creds st c))\<rparr>"

definition set_token :: "oid \<Rightarrow> (token_state \<Rightarrow> token_state) \<Rightarrow> store \<Rightarrow> store" where
  "set_token t f st = st\<lparr>st_tokens := (st_tokens st)(t := f (st_tokens st t))\<rparr>"

definition set_user :: "oid \<Rightarrow> (user_info \<Rightarrow> user_info) \<Rightarrow> store \<Rightarrow> store" where
  "set_user u f st = st\<lparr>st_users := (st_users st)(u := f (st_users st u))\<rparr>"

subsection \<open>Tokens\<close>

fun token_oid :: "token \<Rightarrow> oid" where "token_oid (Token t _ _ _ _ _ _) = t"
fun token_string :: "token \<Rightarrow> string" where "token_string (Token _ s _ _ _ _ _) = s"
fun token_ttl :: "token \<Rightarrow> int" where "token_ttl (Token _ _ ttl _ _ _ _) = ttl"
fun token_attributes :: "token \<Rightarrow> pyval" where "token_attributes (Token _ _ _ a _ _ _) = a"
fun token_match_origin :: "token \<Rightarrow> origin option" where "token_match_origin (Token _ _ _ _ m _ _) = m"
fun token_parent :: "token \<Rightarrow> cred" where "token_parent (Token _ _ _ _ _ p _) = p"
fun token_single_use :: "token \<Rightarrow> bool" where "token_single_use (Token _ _ _ _ _ _ s) = s"

text \<open>\<open>Token.root_credentials\<close>: follow the parents of token credentials.\<close>

fun root_of_cred :: "cred \<Rightarrow> cred" where
  "root_of_cred (TokenCred _ (Token _ _ _ _ _ p _)) = root_of_cred p"
| "root_of_cred c = c"

definition root_credentials :: "token \<Rightarrow> cred" where
  "root_credentials t = root_of_cred (token_parent t)"

definition token_is_valid :: "store \<Rightarrow> seconds \<Rightarrow> token \<Rightarrow> bool" where
  "token_is_valid st now t \<longleftrightarrow> now < tk_last_used_at (st_tokens st (token_oid t)) + of_int (token_ttl t)"

definition token_notify_used :: "seconds \<Rightarrow> token \<Rightarrow> store \<Rightarrow> store" where
  "token_notify_used now t = set_token (token_oid t) (\<lambda>ts. ts\<lparr>tk_last_used_at := now\<rparr>)"

subsection \<open>Operations of the credential classes\<close>

text \<open>The object of the user dictionary, for the classes that have one.\<close>

fun cred_user :: "cred \<Rightarrow> oid option" where
  "cred_user BaseCred = None"
| "cred_user TruenasNodeCred = None"
| "cred_user (UserCred _ _ _ u) = Some u"
| "cred_user (TokenCred _ t) = (case root_credentials t of UserCred _ _ _ u \<Rightarrow> Some u | _ \<Rightarrow> None)"

definition is_user_session :: "cred \<Rightarrow> bool" where
  "is_user_session c \<longleftrightarrow> cred_user c \<noteq> None"

fun may_create_auth_token :: "cred \<Rightarrow> bool" where
  "may_create_auth_token (UserCred _ LoginOnetimePassword _ _) = False"
| "may_create_auth_token _ = True"

fun cred_oid :: "cred \<Rightarrow> oid option" where
  "cred_oid (UserCred c _ _ _) = Some c"
| "cred_oid (TokenCred c _) = Some c"
| "cred_oid _ = None"

definition cred_allowlist :: "store \<Rightarrow> cred \<Rightarrow> allowlist option" where
  "cred_allowlist st c = (case cred_oid c of None \<Rightarrow> None | Some i \<Rightarrow> cr_allowlist (st_creds st i))"

text \<open>The constructors: what they write to the store for a new object.\<close>

definition init_user_cred ::
  "oid \<Rightarrow> user_kind \<Rightarrow> aal option \<Rightarrow> oid \<Rightarrow> seconds \<Rightarrow> seconds \<Rightarrow> store \<Rightarrow> cred \<times> store" where
  "init_user_cred c kind assurance u now today st =
     (UserCred c kind assurance u,
      set_cred c (\<lambda>_.
        \<lparr>cr_allowlist = Some (Allowlist (pv_allowlist (u_privilege (st_users st u)))),
         cr_expiry = map_option (\<lambda>a. now + of_int (max_session_age a)) assurance,
         cr_inactivity_timeout = (case assurance of None \<Rightarrow> None | Some a \<Rightarrow> max_inactivity a),
         cr_login_at = today, cr_last_used_at = now, cr_login_id = None,
         cr_pam_authenticated = False, cr_authenticator = True\<rparr>) st)"

definition init_token_cred :: "oid \<Rightarrow> token \<Rightarrow> seconds \<Rightarrow> store \<Rightarrow> cred \<times> store" where
  "init_token_cred c t today st =
     (TokenCred c t,
      set_cred c (\<lambda>_.
        \<lparr>cr_allowlist = cred_allowlist st (root_credentials t), cr_expiry = None,
         cr_inactivity_timeout = None, cr_login_at = today, cr_last_used_at = 0, cr_login_id = None,
         cr_pam_authenticated = False, cr_authenticator = True\<rparr>) st)"

text \<open>An inactivity timeout that is \<open>None\<close> or 0 is not checked.\<close>

definition timeout_of :: "cred_state \<Rightarrow> int option" where
  "timeout_of s = (case cr_inactivity_timeout s of None \<Rightarrow> None | Some i \<Rightarrow> if i = 0 then None else Some i)"

definition user_cred_is_valid :: "cred_state \<Rightarrow> aal option \<Rightarrow> seconds \<Rightarrow> bool" where
  "user_cred_is_valid s assurance now =
     (if assurance \<noteq> None \<and> (case cr_expiry s of None \<Rightarrow> False | Some e \<Rightarrow> now > e) then False
      else (case timeout_of s of
              None \<Rightarrow> True
            | Some i \<Rightarrow> \<not> now > cr_last_used_at s + of_int i))"

definition user_cred_notify_used :: "seconds \<Rightarrow> cred_state \<Rightarrow> cred_state" where
  "user_cred_notify_used now s =
     (case timeout_of s of
        None \<Rightarrow> s
      | Some i \<Rightarrow> if now < cr_last_used_at s + of_int i then s\<lparr>cr_last_used_at := now\<rparr> else s)"

fun is_valid :: "store \<Rightarrow> seconds \<Rightarrow> cred \<Rightarrow> bool" where
  "is_valid st now BaseCred = True"
| "is_valid st now TruenasNodeCred = True"
| "is_valid st now (UserCred c _ assurance _) = user_cred_is_valid (st_creds st c) assurance now"
| "is_valid st now (TokenCred c t) =
     (case root_credentials t of
        UserCred r _ assurance _ \<Rightarrow>
          user_cred_is_valid (st_creds st r) assurance now \<and>
          cr_pam_authenticated (st_creds st c) \<and> token_is_valid st now t
      | _ \<Rightarrow> cr_pam_authenticated (st_creds st c) \<and> token_is_valid st now t)"

fun notify_used :: "seconds \<Rightarrow> cred \<Rightarrow> store \<Rightarrow> store" where
  "notify_used now BaseCred st = st"
| "notify_used now TruenasNodeCred st = st"
| "notify_used now (UserCred c _ _ _) st = set_cred c (user_cred_notify_used now) st"
| "notify_used now (TokenCred c t) st =
     token_notify_used now t
       (case root_credentials t of
          UserCred r _ _ _ \<Rightarrow> set_cred r (user_cred_notify_used now) st
        | _ \<Rightarrow> st)"

text \<open>
  \<open>authorize\<close>: a user session checks its own validity and its allow list, a token
  session asks the credentials its token was created with, the other node may do everything.
  A missing allow list would be an \<open>AttributeError\<close>; a user session always has one.
\<close>

fun cred_authorize :: "store \<Rightarrow> seconds \<Rightarrow> cred \<Rightarrow> string \<Rightarrow> string \<Rightarrow> bool" where
  "cred_authorize st now BaseCred meth resource = False"
| "cred_authorize st now TruenasNodeCred meth resource = True"
| "cred_authorize st now (UserCred c k assurance u) meth resource =
     (if \<not> is_valid st now (UserCred c k assurance u) then False
      else (case cr_allowlist (st_creds st c) of
              None \<Rightarrow> False
            | Some al \<Rightarrow> authorize al meth resource))"
| "cred_authorize st now (TokenCred _ (Token _ _ _ _ _ p _)) meth resource = cred_authorize st now p meth resource"

fun has_role :: "store \<Rightarrow> cred \<Rightarrow> string \<Rightarrow> bool" where
  "has_role st BaseCred role = False"
| "has_role st TruenasNodeCred role = False"
| "has_role st (UserCred _ _ _ u) role = (role \<in> pv_roles (u_privilege (st_users st u)))"
| "has_role st (TokenCred _ (Token _ _ _ _ _ p _)) role = has_role st p role"

subsection \<open>Logging in and out\<close>

text \<open>
  The PAM stack behind an authenticator is not part of the middleware: its answer is an
  argument. \<open>auth_answer\<close> is what \<open>authenticator.login()\<close> returns together with
  the attributes that are read after it.
\<close>

datatype pam_code =
    PAM_SUCCESS
  | PAM_SYSTEM_ERR
  | PAM_AUTH_ERR
  | PAM_CONV_AGAIN
  | PAM_PERM_DENIED
  | PAM_ABORT
  | PAM_USER_UNKNOWN
  | PAM_AUTHINFO_UNAVAIL
  | PAM_ACCT_EXPIRED
  | PAM_NEW_AUTHTOK_REQD
  | PAM_CRED_EXPIRED
  | PAM_OTHER int

datatype auth_stage = LOGIN_stage | LOGOUT_stage | AUTH_stage

record auth_resp =
  resp_stage :: auth_stage
  resp_code :: pam_code
  resp_reason :: "string option"

record auth_answer =
  ans_resp :: auth_resp
  ans_login_at :: seconds
  ans_session_uuid :: "string option"

definition DEFAULT_LOGIN_SUCCESS :: auth_resp where
  "DEFAULT_LOGIN_SUCCESS = \<lparr>resp_stage = LOGIN_stage, resp_code = PAM_SUCCESS, resp_reason = None\<rparr>"

definition DEFAULT_LOGIN_FAIL :: auth_resp where
  "DEFAULT_LOGIN_FAIL =
     \<lparr>resp_stage = LOGIN_stage, resp_code = PAM_SYSTEM_ERR, resp_reason = Some ''Unexpected Session Manager''\<rparr>"

definition DEFAULT_LOGOUT_SUCCESS :: auth_resp where
  "DEFAULT_LOGOUT_SUCCESS = \<lparr>resp_stage = LOGOUT_stage, resp_code = PAM_SUCCESS, resp_reason = None\<rparr>"

definition DEFAULT_LOGOUT_FAIL :: auth_resp where
  "DEFAULT_LOGOUT_FAIL =
     \<lparr>resp_stage = LOGOUT_stage, resp_code = PAM_SYSTEM_ERR, resp_reason = Some ''Unexpected Session Manager''\<rparr>"

definition record_login :: "auth_answer \<Rightarrow> cred_state \<Rightarrow> cred_state" where
  "record_login ans s = s\<lparr>cr_login_at := ans_login_at ans,
     cr_login_id := Some (case ans_session_uuid ans of
        Some uuid \<Rightarrow> uuid
      | None \<Rightarrow> ''<ERROR: see /var/log/middlewared.log>'')\<rparr>"

fun cred_login :: "auth_answer \<Rightarrow> cred \<Rightarrow> store \<Rightarrow> auth_resp \<times> store" where
  "cred_login ans BaseCred st = (DEFAULT_LOGIN_FAIL, st)"
| "cred_login ans TruenasNodeCred st = (DEFAULT_LOGIN_SUCCESS, st)"
| "cred_login ans (UserCred c _ _ _) st = (ans_resp ans, set_cred c (record_login ans) st)"
| "cred_login ans (TokenCred c _) st = (ans_resp ans, set_cred c (record_login ans) st)"

text \<open>
  Logging out a user session drops its authenticator (a second call finds \<open>None\<close>, an
  \<open>AttributeError\<close>); logging out a token session destroys its token first.
\<close>

type_synonym token_dict = "(string, token) py_dict"

definition destroy :: "token \<Rightarrow> token_dict \<Rightarrow> token_dict" where
  "destroy t tokens = AList.delete (token_string t) tokens"

fun cred_logout :: "auth_resp \<Rightarrow> cred \<Rightarrow> store \<times> token_dict \<Rightarrow> auth_resp option \<times> store \<times> token_dict" where
  "cred_logout ans BaseCred (st, tokens) = (Some DEFAULT_LOGOUT_FAIL, st, tokens)"
| "cred_logout ans TruenasNodeCred (st, tokens) = (Some DEFAULT_LOGOUT_SUCCESS, st, tokens)"
| "cred_logout ans (UserCred c _ _ _) (st, tokens) =
     (if cr_authenticator (st_creds st c)
      then (Some ans, set_cred c (\<lambda>s. s\<lparr>cr_authenticator := False\<rparr>) st, tokens)
      else (None, st, tokens))"
| "cred_logout ans (TokenCred _ t) (st, tokens) = (Some ans, st, destroy t tokens)"

text \<open>\<open>TokenSessionManagerCredentials.pam_authenticate\<close>; \<open>None\<close> is its assertion.\<close>

definition pam_authenticate :: "auth_resp \<Rightarrow> oid \<Rightarrow> store \<Rightarrow> auth_resp option \<times> store" where
  "pam_authenticate ans c st =
     (if cr_pam_authenticated (st_creds st c) then (None, st)
      else (Some ans, set_cred c (\<lambda>s. s\<lparr>cr_pam_authenticated := (resp_code ans = PAM_SUCCESS)\<rparr>) st))"

subsection \<open>Names and dumps\<close>

text \<open>The Python class of a credential, and \<open>class_name()\<close>, which is computed from it.\<close>

fun python_class :: "cred \<Rightarrow> string" where
  "python_class BaseCred = ''SessionManagerCredentials''"
| "python_class TruenasNodeCred = ''TruenasNodeSessionManagerCredentials''"
| "python_class (UserCred _ PlainUser _ _) = ''UserSessionManagerCredentials''"
| "python_class (UserCred _ (ApiKey _ _) _ _) = ''ApiKeySessionManagerCredentials''"
| "python_class (UserCred _ UnixSocket _ _) = ''UnixSocketSessionManagerCredentials''"
| "python_class (UserCred _ LoginPassword _ _) = ''LoginPasswordSessionManagerCredentials''"
| "python_class (UserCred _ LoginTwofactor _ _) = ''LoginTwofactorSessionManagerCredentials''"
| "python_class (UserCred _ LoginOnetimePassword _ _) = ''LoginOnetimePasswordSessionManagerCredentials''"
| "python_class (TokenCred _ _) = ''TokenSessionManagerCredentials''"

definition is_upper :: "char \<Rightarrow> bool" where
  "is_upper c \<longleftrightarrow> 65 \<le> (of_char c :: nat) \<and> (of_char c :: nat) \<le> 90"

definition to_upper :: "char \<Rightarrow> char" where
  "to_upper c = (if 97 \<le> (of_char c :: nat) \<and> (of_char c :: nat) \<le> 122 then char_of ((of_char c :: nat) - 32) else c)"

text \<open>\<open>s.replace(sub, "")\<close> for a non-empty \<open>sub\<close>.\<close>

function remove_sub :: "string \<Rightarrow> string \<Rightarrow> string" where
  "remove_sub sub [] = []"
| "remove_sub sub (c # cs) =
     (if sub \<noteq> [] \<and> take (length sub) (c # cs) = sub
      then remove_sub sub (drop (length sub) (c # cs)) else c # remove_sub sub cs)"
  by pat_completeness auto
termination
  by (relation "measure (\<lambda>(sub, s). length s)") (auto simp: Suc_diff_Suc)

definition class_name :: "cred \<Rightarrow> string" where
  "class_name c =
     map to_upper (dropWhile (\<lambda>x. x = CHR ''_'')
       (concat (map (\<lambda>x. if is_upper x then [CHR ''_'', x] else [x])
         (remove_sub ''SessionManagerCredentials'' (python_class c)))))"

definition opt_str :: "string option \<Rightarrow> pyval" where
  "opt_str s = (case s of None \<Rightarrow> PNone | Some x \<Rightarrow> PStr x)"

definition user_dump :: "store \<Rightarrow> oid \<Rightarrow> oid \<Rightarrow> (string \<times> pyval) list" where
  "user_dump st c u =
     [(''username'', PStr (u_username (st_users st u))),
      (''login_id'', opt_str (cr_login_id (st_creds st c))),
      (''login_at'', PFloat (cr_login_at (st_creds st c)))]"

fun cred_dump :: "store \<Rightarrow> cred \<Rightarrow> (string \<times> pyval) list" where
  "cred_dump st BaseCred = []"
| "cred_dump st TruenasNodeCred = []"
| "cred_dump st (UserCred c (ApiKey kid name) _ u) =
     user_dump st c u @ [(''api_key'', PDict [(''id'', PInt kid), (''name'', PStr name)])]"
| "cred_dump st (UserCred c _ _ u) = user_dump st c u"
| "cred_dump st (TokenCred c (Token t s ttl a m p su)) =
     [(''parent'', PDict [(''credentials'', PStr (class_name p)), (''credentials_data'', PDict (cred_dump st p))]),
      (''login_id'', opt_str (cr_login_id (st_creds st c))),
      (''username'', (case cred_user (TokenCred c (Token t s ttl a m p su)) of
                        None \<Rightarrow> PNone
                      | Some u \<Rightarrow> PStr (u_username (st_users st u))))]"

definition dump_credentials :: "store \<Rightarrow> cred \<Rightarrow> pyval" where
  "dump_credentials st c =
     PDict [(''credentials'', PStr (class_name c)), (''credentials_data'', PDict (cred_dump st c))]"

section \<open>Facts\<close>

lemma root_of_cred_not_token [simp]: "root_of_cred c \<noteq> TokenCred i t"
  by (induction c rule: root_of_cred.induct) auto

lemma root_of_cred_idem [simp]: "root_of_cred (root_of_cred c) = root_of_cred c"
  by (induction c rule: root_of_cred.induct) auto

lemma set_cred_simps [simp]:
  "st_creds (set_cred c f st) i = (if i = c then f (st_creds st c) else st_creds st i)"
  "st_users (set_cred c f st) = st_users st"
  "st_tokens (set_cred c f st) = st_tokens st"
  by (auto simp: set_cred_def)

lemma set_token_simps [simp]:
  "st_tokens (set_token t f st) i = (if i = t then f (st_tokens st t) else st_tokens st i)"
  "st_users (set_token t f st) = st_users st"
  "st_creds (set_token t f st) = st_creds st"
  by (auto simp: set_token_def)

lemma set_user_simps [simp]:
  "st_users (set_user u f st) i = (if i = u then f (st_users st u) else st_users st i)"
  "st_creds (set_user u f st) = st_creds st"
  "st_tokens (set_user u f st) = st_tokens st"
  by (auto simp: set_user_def)

text \<open>A token session is authorized as the root of its token is.\<close>

lemma cred_authorize_root: "cred_authorize st now c meth resource = cred_authorize st now (root_of_cred c) meth resource"
  by (induction c rule: root_of_cred.induct) auto

lemma has_role_root: "has_role st c role = has_role st (root_of_cred c) role"
  by (induction c rule: root_of_cred.induct) auto

text \<open>
  The use of a session at a list of times: \<open>notify_used\<close> at each of them. A user session
  that was not valid at some time stays invalid whatever happens later.
\<close>

lemma user_invalid_persists:
  assumes "\<not> user_cred_is_valid s assurance t" and "t \<le> now"
  shows "\<not> user_cred_is_valid (user_cred_notify_used now s) assurance now"
  using assms
  by (auto simp: user_cred_is_valid_def user_cred_notify_used_def timeout_of_def
      split: if_splits option.splits)

lemma user_invalid_later:
  assumes "\<not> user_cred_is_valid s assurance t" and "t \<le> t'"
  shows "\<not> user_cred_is_valid s assurance t'"
  using assms
  by (auto simp: user_cred_is_valid_def split: if_splits option.splits)

lemma user_invalid_forever:
  assumes "\<not> user_cred_is_valid s assurance t" and "sorted (t # uses @ [t'])"
  shows "\<not> user_cred_is_valid (fold user_cred_notify_used uses s) assurance t'"
  using assms
proof (induction uses arbitrary: s t)
  case (Cons u us)
  then have "\<not> user_cred_is_valid (user_cred_notify_used u s) assurance u"
    by (intro user_invalid_persists [of s assurance t]) auto
  from Cons.IH [OF this] Cons.prems show ?case by simp
qed (auto dest: user_invalid_later)

lemma fold_notify_user:
  "st_creds (fold (\<lambda>n. notify_used n (UserCred c k a u)) uses st) c =
     fold user_cred_notify_used uses (st_creds st c)"
  by (induction uses arbitrary: st) auto

lemma fold_notify_expiry [simp]:
  "cr_expiry (fold user_cred_notify_used uses s) = cr_expiry s"
  by (induction uses arbitrary: s) (auto simp: user_cred_notify_used_def split: option.split)

section \<open>Properties\<close>

text \<open>
  C17: a user session that was invalid at some time (expired or inactive for too long) is never
  valid or authorized for anything afterwards, however often it is used.
\<close>

theorem expired_session_stays_expired:
  assumes "\<not> is_valid st t (UserCred c k a u)" and "sorted (t # uses @ [t'])"
  shows "\<not> is_valid (fold (\<lambda>n. notify_used n (UserCred c k a u)) uses st) t' (UserCred c k a u) \<and>
    \<not> cred_authorize (fold (\<lambda>n. notify_used n (UserCred c k a u)) uses st) t' (UserCred c k a u) meth resource"
  using user_invalid_forever [of "st_creds st c" a t uses t'] assms by (simp add: fold_notify_user)

abbreviation example_store :: store where
  "example_store \<equiv>
     \<lparr>st_creds = (\<lambda>_. \<lparr>cr_allowlist = None, cr_expiry = None, cr_inactivity_timeout = None, cr_login_at = 0,
        cr_last_used_at = 0, cr_login_id = None, cr_pam_authenticated = False, cr_authenticator = False\<rparr>),
      st_users = (\<lambda>_. \<lparr>u_username = ''root'', u_account_attributes = [],
        u_privilege = \<lparr>pv_roles = {''FULL_ADMIN''}, pv_allowlist = [(''*'', ''*'')], pv_web_shell = True,
          pv_webui_access = True\<rparr>\<rparr>),
      st_tokens = (\<lambda>_. \<lparr>tk_last_used_at = 0, tk_session_ids = {}\<rparr>)\<rparr>"

theorem expired_session_stays_expired_witness:
  "let (cr, st) = init_user_cred 1 LoginTwofactor (Some AA_LEVEL2) 1 0 0 example_store
   in is_valid st 1800 cr \<and> \<not> is_valid st 1801 cr \<and>
      \<not> is_valid (fold (\<lambda>n. notify_used n cr) [1802, 1803] st) 1804 cr"
proof -
  obtain cr st where i: "init_user_cred 1 LoginTwofactor (Some AA_LEVEL2) 1 0 0 example_store = (cr, st)"
    by (cases "init_user_cred 1 LoginTwofactor (Some AA_LEVEL2) 1 0 0 example_store") auto
  then have cr: "cr = UserCred 1 LoginTwofactor (Some AA_LEVEL2) 1"
    by (simp add: init_user_cred_def)
  have v: "is_valid st 1800 cr" "\<not> is_valid st 1801 cr"
    using i by (auto simp: init_user_cred_def user_cred_is_valid_def timeout_of_def AA_LEVEL2_def)
  then have "\<not> is_valid (fold (\<lambda>n. notify_used n cr) [1802, 1803] st) 1804 cr"
    using expired_session_stays_expired [of st 1801 1 LoginTwofactor "Some AA_LEVEL2" 1 "[1802, 1803]" 1804]
    unfolding cr by simp
  with v show ?thesis unfolding i Let_def prod.case by blast
qed

text \<open>
  C12: a session opened at a given time under an assurance level is not valid once the maximum
  session age of the level has passed since then, whatever the use of the session.
\<close>

theorem session_age_bounded:
  assumes "init_user_cred c k (Some a) u start today st0 = (cr, st)"
    and "is_valid (fold (\<lambda>n. notify_used n cr) uses st) now cr"
  shows "now \<le> start + of_int (max_session_age a)"
proof -
  have cr: "cr = UserCred c k (Some a) u" "cr_expiry (st_creds st c) = Some (start + of_int (max_session_age a))"
    using assms(1) by (auto simp: init_user_cred_def)
  then show ?thesis
    using assms(2) by (auto simp: fold_notify_user user_cred_is_valid_def split: if_splits)
qed

theorem session_age_bounded_witness:
  "is_valid (fold (\<lambda>n. notify_used n (UserCred 1 LoginPassword (Some AA_LEVEL1) 1)) [10]
      (snd (init_user_cred 1 LoginPassword (Some AA_LEVEL1) 1 0 0 example_store)))
      20 (UserCred 1 LoginPassword (Some AA_LEVEL1) 1) \<and>
   (20::real) \<le> 0 + of_int (max_session_age AA_LEVEL1)"
proof -
  have i: "init_user_cred 1 LoginPassword (Some AA_LEVEL1) 1 0 0 example_store =
      (UserCred 1 LoginPassword (Some AA_LEVEL1) 1,
       snd (init_user_cred 1 LoginPassword (Some AA_LEVEL1) 1 0 0 example_store))"
    by (simp add: init_user_cred_def)
  have v: "is_valid (fold (\<lambda>n. notify_used n (UserCred 1 LoginPassword (Some AA_LEVEL1) 1)) [10]
      (snd (init_user_cred 1 LoginPassword (Some AA_LEVEL1) 1 0 0 example_store)))
      20 (UserCred 1 LoginPassword (Some AA_LEVEL1) 1)"
    by (simp add: init_user_cred_def user_cred_is_valid_def user_cred_notify_used_def timeout_of_def AA_LEVEL1_def)
  from session_age_bounded [OF i v] v show ?thesis by blast
qed

end
