(* ===== verification/Privileges.thy ===== *)
theory Privileges
  imports Credentials
begin

text \<open>
  Privileges: the predicates of \<^verbatim>\<open>middlewared/utils/privilege.py\<close>, the part of
  \<^verbatim>\<open>plugins/account_/privilege.py\<close> that composes the privilege of a user from the
  privileges of the user's groups, and \<open>authenticate_user\<close> of
  \<^verbatim>\<open>plugins/auth_/authenticate.py\<close>.

  The rows of the privilege table, the answer of the user database and the answer of the
  directory service (unix ids to security identifiers) are arguments.
\<close>

section \<open>Predicates on credentials\<close>

text \<open>\<open>any(ROLES[role].builtin is False for role in roles)\<close>.\<close>

fun privilege_has_webui_access :: "string list \<Rightarrow> role_error + bool" where
  "privilege_has_webui_access [] = Inr False"
| "privilege_has_webui_access (r # rs) =
     (case map_of ROLES r of
        None \<Rightarrow> Inl (RoleKeyError r)
      | Some ro \<Rightarrow> if \<not> role_builtin ro then Inr True else privilege_has_webui_access rs)"

definition user_roles :: "store \<Rightarrow> cred \<Rightarrow> string set" where
  "user_roles st c = (case cred_user c of None \<Rightarrow> {} | Some u \<Rightarrow> pv_roles (u_privilege (st_users st u)))"

definition credential_has_full_admin :: "store \<Rightarrow> cred \<Rightarrow> bool" where
  "credential_has_full_admin st c \<longleftrightarrow>
     (if is_user_session c \<and> ''FULL_ADMIN'' \<in> user_roles st c then True
      else if c = TruenasNodeCred then True
      else (case cred_allowlist st c of None \<Rightarrow> False | Some al \<Rightarrow> al_full_admin al))"

definition cred_username :: "store \<Rightarrow> cred \<Rightarrow> string option" where
  "cred_username st c = map_option (\<lambda>u. u_username (st_users st u)) (cred_user c)"

text \<open>\<open>None\<close>: the credentials have no \<open>user\<close> attribute, an \<open>AttributeError\<close>.\<close>

definition credential_full_admin_or_user :: "store \<Rightarrow> cred option \<Rightarrow> string \<Rightarrow> bool option" where
  "credential_full_admin_or_user st credential username =
     (case credential of
        None \<Rightarrow> Some False
      | Some c \<Rightarrow>
          if credential_has_full_admin st c then Some True
          else map_option (\<lambda>n. n = username) (cred_username st c))"

text \<open>The outer option: no application, a call from within the middleware.\<close>

definition app_credential_full_admin_or_user :: "store \<Rightarrow> cred option option \<Rightarrow> string \<Rightarrow> bool option" where
  "app_credential_full_admin_or_user st app username =
     (case app of None \<Rightarrow> Some True | Some c \<Rightarrow> credential_full_admin_or_user st c username)"

definition credential_is_limited_to_own_jobs :: "store \<Rightarrow> cred option \<Rightarrow> bool" where
  "credential_is_limited_to_own_jobs st credential =
     (case credential of
        None \<Rightarrow> False
      | Some c \<Rightarrow> if \<not> is_user_session c then False else \<not> credential_has_full_admin st c)"

definition credential_is_root_or_equivalent :: "store \<Rightarrow> cred option \<Rightarrow> bool" where
  "credential_is_root_or_equivalent st credential =
     (case credential of
        None \<Rightarrow> False
      | Some c \<Rightarrow> (case cred_user c of
                     None \<Rightarrow> False
                   | Some u \<Rightarrow> ''SYS_ADMIN'' \<in> set (u_account_attributes (st_users st u))))"

section \<open>Privileges of groups\<close>

text \<open>A group is named by its numeric id or, for directory services, by its security identifier.\<close>

datatype group_ref = Gid int | Sid string

record privilege_entry =
  pe_name :: string
  pe_builtin_name :: "string option"
  pe_local_groups :: "group_ref list"
  pe_ds_groups :: "group_ref list"
  pe_roles :: "string list"
  pe_web_shell :: bool

datatype groups_key = LocalGroups | DsGroups

definition entry_groups :: "groups_key \<Rightarrow> privilege_entry \<Rightarrow> group_ref list" where
  "entry_groups key p = (case key of LocalGroups \<Rightarrow> pe_local_groups p | DsGroups \<Rightarrow> pe_ds_groups p)"

fun privileges_group_mapping ::
  "privilege_entry list \<Rightarrow> group_ref set \<Rightarrow> groups_key \<Rightarrow> string set \<times> privilege_entry list" where
  "privileges_group_mapping [] group_ids key = ({}, [])"
| "privileges_group_mapping (p # ps) group_ids key =
     (let (roles, out) = privileges_group_mapping ps group_ids key
      in if set (entry_groups key p) \<inter> group_ids \<noteq> {} then (set (pe_roles p) \<union> roles, p # out) else (roles, out))"

text \<open>
  \<open>convert_unixids\<close>: the security identifiers of the groups, \<open>None\<close> when the
  directory service fails.
\<close>

definition privileges_for_groups ::
  "(int list \<Rightarrow> string list option) \<Rightarrow> privilege_entry list \<Rightarrow> groups_key \<Rightarrow> int list \<Rightarrow> privilege_entry list" where
  "privileges_for_groups convert_unixids rows key group_ids =
     (let gids = Gid ` set group_ids;
          ids = (case key of
                   LocalGroups \<Rightarrow> gids
                 | DsGroups \<Rightarrow> (case convert_unixids group_ids of
                                 None \<Rightarrow> gids
                               | Some sids \<Rightarrow> gids \<union> Sid ` set sids))
      in snd (privileges_group_mapping rows ids key))"

section \<open>Composing a privilege\<close>

fun compose_roles ::
  "nat \<Rightarrow> role_manager \<Rightarrow> stig \<Rightarrow> string list \<Rightarrow> privilege \<Rightarrow> role_error + privilege" where
  "compose_roles depth m st [] pv = Inr pv"
| "compose_roles depth m st (r # rs) pv =
     (case roles_for_role depth (mgr_roles m) r st of
        Inl e \<Rightarrow> Inl e
      | Inr S \<Rightarrow> (case allowlist_for_role depth m r st of
                     Inl e \<Rightarrow> Inl e
                   | Inr al \<Rightarrow>
                       compose_roles depth m st rs
                         (pv\<lparr>pv_roles := pv_roles pv \<union> S, pv_allowlist := pv_allowlist pv @ al\<rparr>)))"

fun compose_entries ::
  "nat \<Rightarrow> role_manager \<Rightarrow> stig \<Rightarrow> privilege_entry list \<Rightarrow> privilege \<Rightarrow> role_error + privilege" where
  "compose_entries depth m st [] pv = Inr pv"
| "compose_entries depth m st (p # ps) pv =
     (case compose_roles depth m st (pe_roles p) pv of
        Inl e \<Rightarrow> Inl e
      | Inr pv1 \<Rightarrow>
          (case privilege_has_webui_access (pe_roles p) of
             Inl e \<Rightarrow> Inl e
           | Inr w \<Rightarrow>
               compose_entries depth m st ps
                 (pv1\<lparr>pv_web_shell := pv_web_shell pv1 \<or> pe_web_shell p,
                      pv_webui_access := pv_webui_access pv1 \<or> w\<rparr>)))"

definition system_security_config_to_stig_type :: "bool \<Rightarrow> stig" where
  "system_security_config_to_stig_type enable_gpos_stig = (if enable_gpos_stig then GPOS else 0)"

definition compose_privilege ::
  "nat \<Rightarrow> role_manager \<Rightarrow> bool \<Rightarrow> privilege_entry list \<Rightarrow> role_error + privilege" where
  "compose_privilege depth m enable_gpos_stig privileges =
     (let st = system_security_config_to_stig_type enable_gpos_stig
      in map_sum id (\<lambda>pv. if st \<noteq> 0 then pv\<lparr>pv_web_shell := False\<rparr> else pv)
           (compose_entries depth m st privileges
             \<lparr>pv_roles = {}, pv_allowlist = [], pv_web_shell = False, pv_webui_access = False\<rparr>))"

definition full_privilege :: privilege where
  "full_privilege =
     \<lparr>pv_roles = {''FULL_ADMIN''}, pv_allowlist = [ALLOW_LIST_FULL_ADMIN], pv_web_shell = True,
      pv_webui_access = True\<rparr>"

section \<open>Authenticated users\<close>

record passwd_entry =
  pw_name :: string
  pw_uid :: int
  pw_local :: bool
  pw_source :: string
  pw_grouplist :: "int list"
  pw_account_attributes :: "string list"

record db_user =
  du_uid :: int
  du_local :: bool

text \<open>
  \<open>authenticate_user\<close>: \<open>None\<close> when the account is unknown to the configuration,
  differs from it or has no privilege. The first argument is the answer of
  \<open>user.query\<close>.
\<close>

definition authenticate_user ::
  "(string \<Rightarrow> db_user option) \<Rightarrow> (int list \<Rightarrow> string list option) \<Rightarrow> privilege_entry list \<Rightarrow>
     nat \<Rightarrow> role_manager \<Rightarrow> bool \<Rightarrow> passwd_entry \<Rightarrow> role_error + user_info option" where
  "authenticate_user user_query convert_unixids rows depth m enable_gpos_stig user =
     (case user_query (pw_name user) of
        None \<Rightarrow> Inr None
      | Some info \<Rightarrow>
          if du_uid info \<noteq> pw_uid user then Inr None
          else if pw_local user \<noteq> du_local info then Inr None
          else
            (let key = (if pw_local user then LocalGroups else DsGroups);
                 privileges = privileges_for_groups convert_unixids rows key (remdups (pw_grouplist user))
             in if privileges = [] then Inr None
                else map_sum id
                  (\<lambda>pv. Some \<lparr>u_username = pw_name user, u_account_attributes = pw_account_attributes user,
                              u_privilege = pv\<rparr>)
                  (compose_privilege depth m enable_gpos_stig privileges)))"

definition authenticate_root :: user_info where
  "authenticate_root =
     \<lparr>u_username = ''root'', u_account_attributes = [''LOCAL'', ''SYS_ADMIN''], u_privilege = full_privilege\<rparr>"

section \<open>Giving up privileges\<close>

datatype privilege_error =
    UnexpectedCredentialType
  | PrivilegeNotFound
  | ComposeFailed role_error

text \<open>
  \<open>become_readonly\<close>: the allow list of the session's credentials and the privilege of its
  user dictionary are replaced.
\<close>

definition become_readonly ::
  "nat \<Rightarrow> role_manager \<Rightarrow> bool \<Rightarrow> privilege_entry list \<Rightarrow> cred \<Rightarrow> store \<Rightarrow> privilege_error + store" where
  "become_readonly depth m enable_gpos_stig rows c st =
     (case (cred_user c, cred_oid c) of
        (Some u, Some i) \<Rightarrow>
          (case filter (\<lambda>p. pe_builtin_name p = Some ''READONLY_ADMINISTRATOR'') rows of
             [] \<Rightarrow> Inl PrivilegeNotFound
           | ro_admin # _ \<Rightarrow>
               (case compose_privilege depth m enable_gpos_stig [ro_admin] of
                  Inl e \<Rightarrow> Inl (ComposeFailed e)
                | Inr pv \<Rightarrow>
                    Inr (set_user u (\<lambda>x. x\<lparr>u_privilege := pv\<rparr>)
                      (set_cred i (\<lambda>s. s\<lparr>cr_allowlist := Some (Allowlist (pv_allowlist pv))\<rparr>) st))))
      | _ \<Rightarrow> Inl UnexpectedCredentialType)"

section \<open>Facts\<close>

lemma limited_is_user_session:
  "credential_is_limited_to_own_jobs st credential \<Longrightarrow> \<exists>c. credential = Some c \<and> is_user_session c"
  by (auto simp: credential_is_limited_to_own_jobs_def split: option.splits if_splits)

lemma compose_roles_sound:
  "compose_roles depth m st rs pv = Inr pv' \<Longrightarrow>
     pv_roles pv' = pv_roles pv \<union> (\<Union>r\<in>set rs. role_expansion (mgr_roles m) st r) \<and>
     (\<forall>item. item \<in> set (pv_allowlist pv') \<longleftrightarrow> item \<in> set (pv_allowlist pv) \<or>
        (\<exists>r\<in>set rs. \<exists>al. allowlist_for_role depth m r st = Inr al \<and> item \<in> set al)) \<and>
     pv_web_shell pv' = pv_web_shell pv \<and> pv_webui_access pv' = pv_webui_access pv"
proof (induction rs arbitrary: pv)
  case (Cons r rs)
  from Cons.prems obtain S al where S: "roles_for_role depth (mgr_roles m) r st = Inr S"
    and al: "allowlist_for_role depth m r st = Inr al"
    and rest: "compose_roles depth m st rs
      (pv\<lparr>pv_roles := pv_roles pv \<union> S, pv_allowlist := pv_allowlist pv @ al\<rparr>) = Inr pv'"
    by (auto split: sum.splits)
  have "S = role_expansion (mgr_roles m) st r" using roles_for_role_sound [OF S] .
  with Cons.IH [OF rest] al show ?case by auto
qed simp

lemma compose_entries_sound:
  "compose_entries depth m st ps pv = Inr pv' \<Longrightarrow>
     pv_roles pv' = pv_roles pv \<union> (\<Union>p\<in>set ps. \<Union>r\<in>set (pe_roles p). role_expansion (mgr_roles m) st r) \<and>
     (\<forall>item. item \<in> set (pv_allowlist pv') \<longleftrightarrow> item \<in> set (pv_allowlist pv) \<or>
        (\<exists>p\<in>set ps. \<exists>r\<in>set (pe_roles p). \<exists>al. allowlist_for_role depth m r st = Inr al \<and> item \<in> set al)) \<and>
     pv_web_shell pv' = (pv_web_shell pv \<or> (\<exists>p\<in>set ps. pe_web_shell p))"
proof (induction ps arbitrary: pv)
  case (Cons p ps)
  from Cons.prems obtain pv1 w where r: "compose_roles depth m st (pe_roles p) pv = Inr pv1"
    and rest: "compose_entries depth m st ps
      (pv1\<lparr>pv_web_shell := pv_web_shell pv1 \<or> pe_web_shell p, pv_webui_access := pv_webui_access pv1 \<or> w\<rparr>) = Inr pv'"
    by (auto split: sum.splits)
  from compose_roles_sound [OF r] Cons.IH [OF rest] show ?case by (simp add: Un_assoc)
qed simp

lemma compose_privilege_Inr:
  assumes "compose_privilege depth m stig ps = Inr pv"
  obtains pv0 where "compose_entries depth m (system_security_config_to_stig_type stig) ps
      \<lparr>pv_roles = {}, pv_allowlist = [], pv_web_shell = False, pv_webui_access = False\<rparr> = Inr pv0"
    and "pv = (if stig then pv0\<lparr>pv_web_shell := False\<rparr> else pv0)"
  using assms
  by (auto simp: compose_privilege_def Let_def system_security_config_to_stig_type_def map_sum_def
      split: sum.splits if_splits)

lemma compose_privilege_sound:
  assumes "compose_privilege depth m stig ps = Inr pv"
  shows "pv_roles pv =
      (\<Union>p\<in>set ps. \<Union>r\<in>set (pe_roles p). role_expansion (mgr_roles m) (system_security_config_to_stig_type stig) r)"
    and "item \<in> set (pv_allowlist pv) \<longleftrightarrow> (\<exists>p\<in>set ps. \<exists>r\<in>set (pe_roles p). \<exists>al.
      allowlist_for_role depth m r (system_security_config_to_stig_type stig) = Inr al \<and> item \<in> set al)"
    and "pv_web_shell pv \<longleftrightarrow> \<not> stig \<and> (\<exists>p\<in>set ps. pe_web_shell p)"
proof -
  from assms obtain pv0 where e: "compose_entries depth m (system_security_config_to_stig_type stig) ps
      \<lparr>pv_roles = {}, pv_allowlist = [], pv_web_shell = False, pv_webui_access = False\<rparr> = Inr pv0"
    and pv: "pv = (if stig then pv0\<lparr>pv_web_shell := False\<rparr> else pv0)"
    by (rule compose_privilege_Inr)
  note s = compose_entries_sound [OF e]
  show "pv_roles pv =
      (\<Union>p\<in>set ps. \<Union>r\<in>set (pe_roles p). role_expansion (mgr_roles m) (system_security_config_to_stig_type stig) r)"
    using s pv by simp
  show "item \<in> set (pv_allowlist pv) \<longleftrightarrow> (\<exists>p\<in>set ps. \<exists>r\<in>set (pe_roles p). \<exists>al.
      allowlist_for_role depth m r (system_security_config_to_stig_type stig) = Inr al \<and> item \<in> set al)"
    using s [THEN conjunct2, THEN conjunct1, rule_format, of item] pv by simp
  show "pv_web_shell pv \<longleftrightarrow> \<not> stig \<and> (\<exists>p\<in>set ps. pe_web_shell p)"
    using s pv by simp
qed



section \<open>Properties\<close>

text \<open>
  C18: the composed privilege of a list of privileges has exactly the roles their roles expand
  to and exactly the allow list entries of these roles; the web shell needs a privilege that
  grants it and is off under a STIG.
\<close>

theorem compose_privilege_is_union:
  assumes "compose_privilege depth m stig ps = Inr pv"
  shows "pv_roles pv =
      (\<Union>p\<in>set ps. \<Union>r\<in>set (pe_roles p). role_expansion (mgr_roles m) (system_security_config_to_stig_type stig) r) \<and>
    set (pv_allowlist pv) = {item. \<exists>p\<in>set ps. \<exists>r\<in>set (pe_roles p). \<exists>al.
      allowlist_for_role depth m r (system_security_config_to_stig_type stig) = Inr al \<and> item \<in> set al} \<and>
    (pv_web_shell pv \<longleftrightarrow> \<not> stig \<and> (\<exists>p\<in>set ps. pe_web_shell p))"
  by (intro conjI compose_privilege_sound(1,3) [OF assms] set_eqI)
     (simp only: mem_Collect_eq compose_privilege_sound(2) [OF assms])

abbreviation readonly_entry :: privilege_entry where
  "readonly_entry \<equiv>
     \<lparr>pe_name = ''Read-Only Administrator'', pe_builtin_name = Some ''READONLY_ADMINISTRATOR'',
      pe_local_groups = [Gid 951], pe_ds_groups = [], pe_roles = [''READONLY_ADMIN''], pe_web_shell = False\<rparr>"

lemma compose_readonly:
  assumes "manager_ok ROLES m"
  shows "\<exists>pv. compose_privilege 8 m False [readonly_entry] = Inr pv"
proof -
  have e: "roles_for_role 8 ROLES ''READONLY_ADMIN'' 0 = Inr (role_expansion ROLES 0 ''READONLY_ADMIN'')"
    by (rule roles_for_role_ROLES) (simp_all add: self_including_def)
  have "mgr_roles m = ROLES" using assms by (simp add: manager_ok_def)
  with e show ?thesis
    by (simp add: compose_privilege_def system_security_config_to_stig_type_def allowlist_for_role_def
        map_of_ROLES_readonly map_sum_def)
qed

theorem compose_privilege_is_union_witness:
  "\<exists>pv. compose_privilege 8 (new_role_manager ROLES) False [readonly_entry] = Inr pv \<and>
     pv_roles pv = role_expansion ROLES 0 ''READONLY_ADMIN'' \<and> \<not> pv_web_shell pv"
proof -
  have "manager_ok ROLES (new_role_manager ROLES)" by (rule manager.inv_init) simp
  from compose_readonly [OF this] obtain pv
    where pv: "compose_privilege 8 (new_role_manager ROLES) False [readonly_entry] = Inr pv" by auto
  with compose_privilege_is_union [OF pv] show ?thesis
    by (auto simp: system_security_config_to_stig_type_def new_role_manager_def)
qed


lemma become_readonly_readonly_entry:
  assumes "compose_privilege depth m stig [readonly_entry] = Inr pv" "cred_user c = Some u" "cred_oid c = Some i"
  shows "become_readonly depth m stig [readonly_entry] c st =
    Inr (set_user u (\<lambda>x. x\<lparr>u_privilege := pv\<rparr>)
      (set_cred i (\<lambda>s. s\<lparr>cr_allowlist := Some (Allowlist (pv_allowlist pv))\<rparr>) st))"
  using assms by (simp add: become_readonly_def)


text \<open>
  C20: \<open>become_readonly\<close> does not restrict a token session: it replaces the allow list of
  the session's own credentials, while a token session is authorized by the credentials its
  token was created with, so every authorization decision stays as it was.
\<close>

theorem become_readonly_keeps_token_session:
  assumes "become_readonly depth m stig rows (TokenCred i t) st = Inr st'"
    and "cred_oid (root_credentials t) \<noteq> Some i"
  shows "cred_authorize st' now (TokenCred i t) meth resource = cred_authorize st now (TokenCred i t) meth resource"
proof -
  obtain o1 s1 ttl att mo p su where t: "t = Token o1 s1 ttl att mo p su" by (cases t)
  from assms(1) obtain u pv where st': "st' = set_user u (\<lambda>x. x\<lparr>u_privilege := pv\<rparr>)
      (set_cred i (\<lambda>s. s\<lparr>cr_allowlist := Some (Allowlist (pv_allowlist pv))\<rparr>) st)"
    by (auto simp: become_readonly_def split: option.splits sum.splits list.splits)
  have "cred_authorize st' now (root_of_cred p) meth resource = cred_authorize st now (root_of_cred p) meth resource"
    using assms(2) st' by (cases "root_of_cred p") (auto simp: root_credentials_def t)
  then show ?thesis
    by (simp add: t cred_authorize_root [of _ _ p])
qed

theorem become_readonly_keeps_token_session_witness:
  "let t = Token 1 ''abc'' 600 (PDict []) None (UserCred 1 LoginPassword None 1) False;
       st = snd (init_user_cred 1 LoginPassword None 1 0 0 example_store)
   in \<exists>st'. become_readonly 8 (new_role_manager ROLES) False [readonly_entry] (TokenCred 2 t) st = Inr st' \<and>
        cred_authorize st' 0 (TokenCred 2 t) ''CALL'' ''pool.create''"
proof -
  let ?t = "Token 1 ''abc'' 600 (PDict []) None (UserCred 1 LoginPassword None 1) False"
  let ?st = "snd (init_user_cred 1 LoginPassword None 1 0 0 example_store)"
  have "manager_ok ROLES (new_role_manager ROLES)" by (rule manager.inv_init) simp
  from compose_readonly [OF this] obtain pv
    where "compose_privilege 8 (new_role_manager ROLES) False [readonly_entry] = Inr pv" by blast
  then obtain st' where st': "become_readonly 8 (new_role_manager ROLES) False [readonly_entry] (TokenCred 2 ?t) ?st = Inr st'"
    by (auto simp: become_readonly_readonly_entry root_credentials_def)
  have "cred_authorize ?st 0 (TokenCred 2 ?t) ''CALL'' ''pool.create''"
    by (auto simp: init_user_cred_def user_cred_is_valid_def timeout_of_def authorize_iff_entry
        entry_permits_def is_pattern_def fnmatch_star)
  then have "cred_authorize st' 0 (TokenCred 2 ?t) ''CALL'' ''pool.create''"
    using become_readonly_keeps_token_session [OF st'] by (simp add: root_credentials_def)
  with st' show ?thesis unfolding Let_def by blast
qed

end
