(* ===== verification/Service_Exception.thy ===== *)
theory Service_Exception
  imports Prelude
begin

text \<open>
  The exceptions of the service layer, \<^verbatim>\<open>middlewared/service_exception.py\<close>:
  \<open>CallError\<close>, \<open>ValidationError\<close>, the collection \<open>ValidationErrors\<close> and
  \<open>adapt_exception\<close>. The name of an error number comes from the platform and from the
  API client package; it is the argument \<open>errname\<close>.
\<close>

section \<open>Validation errors\<close>

record validation_error =
  ve_attribute :: "string option"
  ve_errmsg :: string
  ve_errno :: int

type_synonym validation_errors = "validation_error list"

abbreviation EINVAL :: int where "EINVAL \<equiv> 22"
abbreviation ENOENT :: int where "ENOENT \<equiv> 2"
abbreviation EFAULT :: int where "EFAULT \<equiv> 14"
abbreviation EBUSY :: int where "EBUSY \<equiv> 16"
abbreviation EPERM :: int where "EPERM \<equiv> 1"
abbreviation EACCES :: int where "EACCES \<equiv> 13"
abbreviation EOPNOTSUPP :: int where "EOPNOTSUPP \<equiv> 95"

definition verrors_add :: "string \<Rightarrow> string \<Rightarrow> int \<Rightarrow> validation_errors \<Rightarrow> validation_errors" where
  "verrors_add attribute errmsg errno es =
     es @ [\<lparr>ve_attribute = Some attribute, ve_errmsg = errmsg, ve_errno = errno\<rparr>]"

definition add_validation_error :: "validation_error \<Rightarrow> validation_errors \<Rightarrow> validation_errors" where
  "add_validation_error e es = es @ [e]"

text \<open>\<open>f"{attribute}"\<close> of an optional attribute.\<close>

definition str_attribute :: "string option \<Rightarrow> string" where
  "str_attribute a = (case a of None \<Rightarrow> ''None'' | Some s \<Rightarrow> s)"

fun add_child :: "string \<Rightarrow> validation_errors \<Rightarrow> validation_errors \<Rightarrow> validation_errors" where
  "add_child attribute [] es = es"
| "add_child attribute (e # child) es =
     add_child attribute child
       (verrors_add (attribute @ ''.'' @ str_attribute (ve_attribute e)) (ve_errmsg e) (ve_errno e) es)"

fun verrors_extend :: "validation_errors \<Rightarrow> validation_errors \<Rightarrow> validation_errors" where
  "verrors_extend [] es = es"
| "verrors_extend (e # others) es =
     verrors_extend others (es @ [\<lparr>ve_attribute = ve_attribute e, ve_errmsg = ve_errmsg e, ve_errno = ve_errno e\<rparr>])"

text \<open>\<open>check()\<close> raises the collection itself unless it is empty.\<close>

definition verrors_check :: "validation_errors \<Rightarrow> validation_errors + unit" where
  "verrors_check es = (if es \<noteq> [] then Inl es else Inr ())"

definition verrors_iter :: "validation_errors \<Rightarrow> (string option \<times> string \<times> int) list" where
  "verrors_iter es = map (\<lambda>e. (ve_attribute e, ve_errmsg e, ve_errno e)) es"

definition verrors_contains :: "string option \<Rightarrow> validation_errors \<Rightarrow> bool" where
  "verrors_contains item es \<longleftrightarrow> item \<in> set (map ve_attribute es)"

definition verror_str :: "(int \<Rightarrow> string) \<Rightarrow> validation_error \<Rightarrow> string" where
  "verror_str errname e =
     ''['' @ errname (ve_errno e) @ ''] '' @ str_attribute (ve_attribute e) @ '': '' @ ve_errmsg e"

fun verrors_str :: "(int \<Rightarrow> string) \<Rightarrow> validation_errors \<Rightarrow> string" where
  "verrors_str errname [] = ''''"
| "verrors_str errname (e # es) = verror_str errname e @ [char_of (10::nat)] @ verrors_str errname es"

section \<open>Exceptions\<close>

text \<open>
  The exceptions a job method can end with. \<open>OtherError\<close> has the name of the Python
  class and its message.
\<close>

datatype command = CmdString string | CmdList "string list"

datatype exc =
    CallError string int pyval
  | ValidationErrorExc validation_error
  | ValidationErrorsExc validation_errors
  | CalledProcessError command int string string
  | JobCancelledException
  | CancelledError
  | OtherError string string

text \<open>\<open>shlex.quote\<close> and \<open>join_commandline\<close>.\<close>

definition shell_safe :: "char \<Rightarrow> bool" where
  "shell_safe c \<longleftrightarrow> (let n = (of_char c :: nat) in
     48 \<le> n \<and> n \<le> 57 \<or> 65 \<le> n \<and> n \<le> 90 \<or> 97 \<le> n \<and> n \<le> 122 \<or> c \<in> set ''_@%+=:,./-'')"

definition shell_quote :: "string \<Rightarrow> string" where
  "shell_quote s =
     (let q = [char_of (39::nat)] in
      if s = [] then q @ q
      else if list_all shell_safe s then s
      else q @ concat (map (\<lambda>c. if [c] = q then q @ [char_of (34::nat)] @ q @ [char_of (34::nat)] @ q else [c]) s) @ q)"

definition join_commandline :: "string list \<Rightarrow> string" where
  "join_commandline args = py_join '' '' (map shell_quote args)"

definition adapt_exception :: "exc \<Rightarrow> exc option" where
  "adapt_exception e =
     (case e of
        CalledProcessError cmd code out err \<Rightarrow>
          (let c = (case cmd of CmdString s \<Rightarrow> s | CmdList args \<Rightarrow> join_commandline args)
           in Some (CallError
                (''Command '' @ c @ '' failed (code '' @ (if code < 0 then ''-'' else '''') @ py_str (nat \<bar>code\<bar>) @ ''):'' @
                 [char_of (10::nat)] @ py_rstrip (out @ err)) EFAULT PNone))
      | _ \<Rightarrow> None)"

text \<open>
  \<open>str(e)\<close>, as a finished job records it. A \<open>CalledProcessError\<close> has been adapted
  before that and is given no text.
\<close>

definition exc_str :: "(int \<Rightarrow> string) \<Rightarrow> exc \<Rightarrow> string" where
  "exc_str errname e =
     (case e of
        CallError msg errno extra \<Rightarrow> ''['' @ errname errno @ ''] '' @ msg
      | ValidationErrorExc v \<Rightarrow> verror_str errname v
      | ValidationErrorsExc vs \<Rightarrow> verrors_str errname vs
      | CalledProcessError cmd code out err \<Rightarrow> ''''
      | JobCancelledException \<Rightarrow> ''''
      | CancelledError \<Rightarrow> ''''
      | OtherError cls msg \<Rightarrow> msg)"

section \<open>Facts\<close>

lemma verrors_extend_append: "verrors_extend others es = es @ others"
  by (induction others arbitrary: es) auto

lemma add_child_append:
  "add_child attribute child es = es @
     map (\<lambda>e. \<lparr>ve_attribute = Some (attribute @ ''.'' @ str_attribute (ve_attribute e)),
               ve_errmsg = ve_errmsg e, ve_errno = ve_errno e\<rparr>) child"
  by (induction child arbitrary: es) (auto simp: verrors_add_def)

text \<open>
  Adding the errors of a child keeps all errors there were, in order, and reports every
  error of the child, in order, under the prefixed attribute with its message and number;
  the check then raises exactly when either collection had an error.
\<close>

theorem add_child_reports_all:
  "verrors_iter (add_child attribute child es) =
     verrors_iter es @ map (\<lambda>(a, msg, n). (Some (attribute @ ''.'' @ str_attribute a), msg, n)) (verrors_iter child) \<and>
   (verrors_check (add_child attribute child es) = Inr () \<longleftrightarrow> es = [] \<and> child = [])"
  by (simp add: add_child_append verrors_iter_def verrors_check_def o_def)

lemma adapt_exception_CallError:
  "adapt_exception e = Some e' \<Longrightarrow> \<exists>msg. e' = CallError msg EFAULT PNone"
  by (auto simp: adapt_exception_def Let_def split: exc.splits)

end
