(* ===== verification/Jobs.thy ===== *)
theory Jobs
  imports Privileges Service_Exception
begin

text \<open>
  The job machinery, \<^verbatim>\<open>middlewared/job.py\<close>: jobs, the locks they share, the queue
  with its scheduler and the deque that numbers and keeps them.

  Jobs and locks are Python objects that several structures refer to; they live in two stores
  and are named by references. The code runs on one event loop, so what happens between two
  \<open>await\<close>s is one step. Where a job's task stands in \<open>Job.run\<close> is its
  \<open>phase\<close>. The outcome of a job's method, of opening its log file and of reading it
  back are arguments of the steps.
\<close>

section \<open>Jobs\<close>

datatype State = WAITING | RUNNING | SUCCESS | FAILED | ABORTED

datatype JobAccess = READ | ABORT

definition terminal :: "State \<Rightarrow> bool" where
  "terminal s \<longleftrightarrow> s = SUCCESS \<or> s = FAILED \<or> s = ABORTED"

type_synonym jref = nat
type_synonym lref = nat
type_synonym app_id = string

text \<open>
  The \<open>lock\<close> option of \<open>@job\<close>: absent, a name, or a function of the arguments;
  the function may return \<open>None\<close> or raise.
\<close>

datatype lock_result = LockRaises | LockIs "string option"

datatype lock_option = NoLock | LockName string | LockFn "pyval list \<Rightarrow> lock_result"

record job_options =
  opt_lock :: lock_option
  opt_lock_queue_size :: "nat option"
  opt_transient :: bool
  opt_abortable :: bool
  opt_logs :: bool
  opt_check_pipes :: bool
  opt_pipes :: "string list"
  opt_read_roles :: "string list"
  opt_description :: "(pyval list \<Rightarrow> string option) option"

record progress =
  pg_percent :: int
  pg_description :: string
  pg_extra :: pyval

record job =
  jb_method_name :: string
  jb_coroutine :: bool
  jb_args :: "pyval list"
  jb_options :: job_options
  jb_open_pipes :: "string list"
  jb_app :: "app_id option"
  jb_message_ids :: "string list"
  jb_silent :: bool
  jb_id :: "nat option"
  jb_lock :: "lref option"
  jb_result :: pyval
  jb_error :: "string option"
  jb_exception :: "string option"
  jb_exc_info :: "exc option"
  jb_aborted :: bool
  jb_aborted_event :: bool
  jb_state :: State
  jb_description :: "string option"
  jb_progress :: progress
  jb_time_started :: seconds
  jb_time_finished :: "seconds option"
  jb_future :: bool
  jb_wrapped :: "jref list"
  jb_finished :: bool
  jb_logs_path :: "string option"
  jb_logs_fd :: bool
  jb_logs_excerpt :: "string option"
  jb_on_finish_cb_called :: bool

record shared_lock =
  lk_name :: string
  lk_jobs :: "jref set"
  lk_locked :: bool

text \<open>
  The phases of a job's task. \<open>Fresh\<close>: no task yet (the job is new, queued, was rejected
  or received from the other node). \<open>Dispatched\<close>: taken from the queue. \<open>Logging\<close>:
  its log file is being opened. \<open>Body\<close>: its method runs. \<open>Closing\<close>: in the
  \<open>finally\<close> block, before the lock is released. \<open>Released\<close>: after it.
  \<open>Done\<close>: the task has returned. \<open>Crashed\<close>: the task ended with the exception of
  opening the log file, which is raised outside the \<open>try\<close>.
\<close>

datatype phase = Fresh | Dispatched | Logging | Body | Closing | Released | Done | Crashed

datatype job_event = JobEvent string "nat option" State

record jobs_queue =
  q_jobs :: "jref \<Rightarrow> job"
  q_locks :: "lref \<Rightarrow> shared_lock"
  q_next_job :: nat
  q_next_lock :: nat
  q_count :: nat
  q_maxlen :: nat
  q_dict :: "(nat, jref) py_dict"
  q_queue :: "jref list"
  q_queue_event :: bool
  q_job_locks :: "(string, lref) py_dict"
  q_events :: "job_event list"
  q_phase :: "jref \<Rightarrow> phase"

datatype job_error =
    JobCallError string int
  | PipeNotOpen string
  | MethodMissing string
  | LockKeyError string
  | LockNotHeld string
  | InstanceNotFound string
  | StateAssertion
  | NotDispatched

definition upd_job :: "jref \<Rightarrow> (job \<Rightarrow> job) \<Rightarrow> jobs_queue \<Rightarrow> jobs_queue" where
  "upd_job j f q = q\<lparr>q_jobs := (q_jobs q)(j := f (q_jobs q j))\<rparr>"

definition upd_lock :: "lref \<Rightarrow> (shared_lock \<Rightarrow> shared_lock) \<Rightarrow> jobs_queue \<Rightarrow> jobs_queue" where
  "upd_lock l f q = q\<lparr>q_locks := (q_locks q)(l := f (q_locks q l))\<rparr>"

definition set_phase :: "jref \<Rightarrow> phase \<Rightarrow> jobs_queue \<Rightarrow> jobs_queue" where
  "set_phase j p q = q\<lparr>q_phase := (q_phase q)(j := p)\<rparr>"

definition send_job_event :: "string \<Rightarrow> jref \<Rightarrow> jobs_queue \<Rightarrow> jobs_queue" where
  "send_job_event event_type j q =
     (if opt_transient (jb_options (q_jobs q j)) then q
      else q\<lparr>q_events := q_events q @ [JobEvent event_type (jb_id (q_jobs q j)) (jb_state (q_jobs q j))]\<rparr>)"

text \<open>\<open>Job.__init__\<close>: a new object, or the \<open>ValueError\<close> of a pipe that is not open.\<close>

definition new_job_record ::
  "seconds \<Rightarrow> string \<Rightarrow> bool \<Rightarrow> pyval list \<Rightarrow> job_options \<Rightarrow> string list \<Rightarrow> bool \<Rightarrow> app_id option \<Rightarrow> string option \<Rightarrow> job" where
  "new_job_record now method_name coroutine args options open_pipes silent app message_id =
     \<lparr>jb_method_name = method_name, jb_coroutine = coroutine, jb_args = args, jb_options = options,
      jb_open_pipes = open_pipes, jb_app = app,
      jb_message_ids = (case message_id of None \<Rightarrow> [] | Some m \<Rightarrow> if m = [] then [] else [m]),
      jb_silent = silent, jb_id = None, jb_lock = None, jb_result = PNone, jb_error = None,
      jb_exception = None, jb_exc_info = None, jb_aborted = False, jb_aborted_event = False, jb_state = WAITING,
      jb_description = (case opt_description options of None \<Rightarrow> None | Some f \<Rightarrow> f args),
      jb_progress = \<lparr>pg_percent = 0, pg_description = [], pg_extra = PNone\<rparr>,
      jb_time_started = now, jb_time_finished = None, jb_future = False, jb_wrapped = [], jb_finished = False,
      jb_logs_path = None, jb_logs_fd = False, jb_logs_excerpt = None, jb_on_finish_cb_called = False\<rparr>"

definition new_job ::
  "seconds \<Rightarrow> string \<Rightarrow> bool \<Rightarrow> pyval list \<Rightarrow> job_options \<Rightarrow> string list \<Rightarrow> bool \<Rightarrow> app_id option \<Rightarrow> string option \<Rightarrow>
     jobs_queue \<Rightarrow> (job_error + jref) \<times> jobs_queue" where
  "new_job now method_name coroutine args options open_pipes silent app message_id q =
     (case (if opt_check_pipes options then filter (\<lambda>p. p \<notin> set open_pipes) (opt_pipes options) else []) of
        p # _ \<Rightarrow> (Inl (PipeNotOpen p), q)
      | [] \<Rightarrow>
          (Inr (q_next_job q),
           q\<lparr>q_jobs := (q_jobs q)(q_next_job q :=
                new_job_record now method_name coroutine args options open_pipes silent app message_id),
             q_next_job := Suc (q_next_job q)\<rparr>))"

definition get_lock_name :: "job \<Rightarrow> job_error + string option" where
  "get_lock_name jb =
     (case opt_lock (jb_options jb) of
        NoLock \<Rightarrow> Inr None
      | LockName n \<Rightarrow> Inr (Some n)
      | LockFn f \<Rightarrow>
          (case f (jb_args jb) of
             LockRaises \<Rightarrow> Inl (JobCallError
               ''Error handling job lock. This is most likely caused by invalid call arguments.'' EINVAL)
           | LockIs n \<Rightarrow> Inr n))"

text \<open>\<open>Job.set_state\<close>; \<open>None\<close> is one of its assertions.\<close>

definition set_state :: "seconds \<Rightarrow> State \<Rightarrow> job \<Rightarrow> job option" where
  "set_state now s jb =
     (if jb_state jb = WAITING \<and> (s = WAITING \<or> s = SUCCESS) then None
      else if jb_state jb = RUNNING \<and> (s = WAITING \<or> s = RUNNING) then None
      else if terminal (jb_state jb) then None
      else Some (jb\<lparr>jb_state := s,
             jb_time_finished := (if terminal s then Some now else jb_time_finished jb)\<rparr>))"

section \<open>Access to jobs\<close>

text \<open>
  The applications' credentials, as they are when the question is asked: \<open>apps a\<close> is
  \<open>None\<close> after the session of \<open>a\<close> has logged out.
\<close>

definition job_credentials :: "(app_id \<Rightarrow> cred option) \<Rightarrow> job \<Rightarrow> cred option" where
  "job_credentials apps jb = (case jb_app jb of None \<Rightarrow> None | Some a \<Rightarrow> apps a)"

text \<open>The credential is an option because \<open>core.job_wait\<close> passes that of an internal job.\<close>

definition credential_access_error ::
  "store \<Rightarrow> (app_id \<Rightarrow> cred option) \<Rightarrow> job \<Rightarrow> cred option \<Rightarrow> JobAccess option \<Rightarrow> string option" where
  "credential_access_error st apps jb credential access =
     (if \<not> credential_is_limited_to_own_jobs st credential then None
      else (case credential of
         None \<Rightarrow> None
       | Some c \<Rightarrow>
           if access = Some READ \<and> is_user_session c \<and> list_ex (has_role st c) (opt_read_roles (jb_options jb)) then None
           else if \<not> is_user_session c \<or> credential_has_full_admin st c then None
           else (case job_credentials apps jb of
              None \<Rightarrow> Some ''Only users with full administrative privileges can access internally ran jobs''
            | Some own \<Rightarrow>
                if \<not> is_user_session own then
                  Some ''Only users with full administrative privileges can access internally ran jobs''
                else if cred_username st own = cred_username st c then None
                else Some ''Job is not owned by current session'')))"

definition credential_can_access ::
  "store \<Rightarrow> (app_id \<Rightarrow> cred option) \<Rightarrow> job \<Rightarrow> cred option \<Rightarrow> JobAccess option \<Rightarrow> bool" where
  "credential_can_access st apps jb credential access \<longleftrightarrow>
     credential_access_error st apps jb credential access = None"

definition should_send_job_event :: "store \<Rightarrow> (app_id \<Rightarrow> cred option) \<Rightarrow> job \<Rightarrow> cred option \<Rightarrow> bool" where
  "should_send_job_event st apps jb authenticated_credentials =
     (case authenticated_credentials of
        Some c \<Rightarrow> credential_can_access st apps jb (Some c) (Some READ)
      | None \<Rightarrow> False)"

definition for_credential ::
  "store \<Rightarrow> (app_id \<Rightarrow> cred option) \<Rightarrow> cred option \<Rightarrow> JobAccess \<Rightarrow> jobs_queue \<Rightarrow> (nat, jref) py_dict" where
  "for_credential st apps credential access q =
     (if \<not> credential_is_limited_to_own_jobs st credential then q_dict q
      else filter (\<lambda>(jid, j). credential_can_access st apps (q_jobs q j) credential (Some access)) (q_dict q))"

section \<open>The deque\<close>

definition deque_remove :: "nat \<Rightarrow> jobs_queue \<Rightarrow> jobs_queue" where
  "deque_remove job_id q = q\<lparr>q_dict := AList.delete job_id (q_dict q)\<rparr>"

text \<open>The first finished job, in insertion order.\<close>

fun first_finished :: "(jref \<Rightarrow> job) \<Rightarrow> (nat, jref) py_dict \<Rightarrow> nat option" where
  "first_finished jobs [] = None"
| "first_finished jobs ((i, j) # d) =
     (if terminal (jb_state (jobs j)) then Some i else first_finished jobs d)"

definition deque_add :: "jref \<Rightarrow> jobs_queue \<Rightarrow> jobs_queue" where
  "deque_add j q =
     (let i = Suc (q_count q);
          q1 = upd_job j (\<lambda>jb. jb\<lparr>jb_id := Some i\<rparr>) (q\<lparr>q_count := i\<rparr>);
          q2 = (if length (q_dict q1) > q_maxlen q1 then
                  (case first_finished (q_jobs q1) (q_dict q1) of
                     Some old \<Rightarrow> deque_remove old q1
                   | None \<Rightarrow> q1)
                else q1)
      in q2\<lparr>q_dict := AList.update i j (q_dict q2)\<rparr>)"

text \<open>
  \<open>JobsDeque.receive\<close> and \<open>Job.receive\<close>: a job of the other node, in whatever
  state it is there. \<open>services\<close> looks up the method it names: whether it is a coroutine,
  and its job options. The id is taken first, so a job that cannot be built uses one up; no
  task is created for it.
\<close>

record job_dict =
  jd_method :: string
  jd_arguments :: "pyval list"
  jd_description :: "string option"
  jd_logs_excerpt :: "string option"
  jd_progress :: progress
  jd_result :: pyval
  jd_error :: "string option"
  jd_exception :: "string option"
  jd_state :: State
  jd_time_started :: seconds
  jd_time_finished :: "seconds option"

definition logs_path :: "job \<Rightarrow> string" where
  "logs_path jb = ''/var/log/jobs/'' @ (case jb_id jb of None \<Rightarrow> ''None'' | Some i \<Rightarrow> py_str i) @ ''.log''"

definition receive_fields :: "job_dict \<Rightarrow> bool \<Rightarrow> nat \<Rightarrow> job \<Rightarrow> job" where
  "receive_fields d logs i jb =
     (let jb1 = jb\<lparr>jb_id := Some i, jb_description := jd_description d\<rparr>
      in jb1\<lparr>jb_logs_path := (if logs then Some (logs_path jb1) else jb_logs_path jb1),
             jb_logs_excerpt := jd_logs_excerpt d, jb_progress := jd_progress d, jb_result := jd_result d,
             jb_error := jd_error d, jb_exception := jd_exception d, jb_state := jd_state d,
             jb_time_started := jd_time_started d, jb_time_finished := jd_time_finished d\<rparr>)"

definition deque_receive ::
  "seconds \<Rightarrow> (string \<Rightarrow> (bool \<times> job_options) option) \<Rightarrow> job_dict \<Rightarrow> bool \<Rightarrow> jobs_queue \<Rightarrow> (job_error + jref) \<times> jobs_queue" where
  "deque_receive now services d logs q =
     (let i = Suc (q_count q); q0 = q\<lparr>q_count := i\<rparr>
      in case services (jd_method d) of
           None \<Rightarrow> (Inl (MethodMissing (jd_method d)), q0)
         | Some (coroutine, options) \<Rightarrow>
             (case new_job now (jd_method d) coroutine (jd_arguments d) options [] False None None q0 of
                (Inl e, q1) \<Rightarrow> (Inl e, q1)
              | (Inr j, q1) \<Rightarrow>
                  (let q2 = upd_job j (receive_fields d logs i) q1
                   in (Inr j, q2\<lparr>q_dict := AList.update i j (q_dict q2)\<rparr>))))"

section \<open>The queue\<close>

definition handle_lock :: "jref \<Rightarrow> jobs_queue \<Rightarrow> job_error option \<times> jobs_queue" where
  "handle_lock j q =
     (case get_lock_name (q_jobs q j) of
        Inl e \<Rightarrow> (Some e, q)
      | Inr None \<Rightarrow> (None, q)
      | Inr (Some name) \<Rightarrow>
          (let (l, q1) =
             (case map_of (q_job_locks q) name of
                Some l \<Rightarrow> (l, q)
              | None \<Rightarrow>
                  (let l = q_next_lock q
                   in (l, q\<lparr>q_next_lock := Suc l,
                            q_locks := (q_locks q)(l := \<lparr>lk_name = name, lk_jobs = {}, lk_locked = False\<rparr>),
                            q_job_locks := AList.update name l (q_job_locks q)\<rparr>)))
           in (None, upd_job j (\<lambda>jb. jb\<lparr>jb_lock := Some l\<rparr>)
                       (upd_lock l (\<lambda>lk. lk\<lparr>lk_jobs := insert j (lk_jobs lk)\<rparr>) q1))))"

definition enqueue :: "jref \<Rightarrow> jobs_queue \<Rightarrow> jobs_queue" where
  "enqueue j q =
     (let q1 = deque_add j q; q2 = q1\<lparr>q_queue := q_queue q1 @ [j]\<rparr>
      in (send_job_event ''ADDED'' j q2)\<lparr>q_queue_event := True\<rparr>)"

text \<open>Whether a job may be answered with an already queued one.\<close>

definition may_coalesce :: "store \<Rightarrow> (app_id \<Rightarrow> cred option) \<Rightarrow> job \<Rightarrow> job \<Rightarrow> bool" where
  "may_coalesce st apps jb queued \<longleftrightarrow>
     \<not> credential_is_limited_to_own_jobs st (job_credentials apps jb) \<or>
     (case (job_credentials apps jb, job_credentials apps queued) of
        (Some c, Some d) \<Rightarrow> is_user_session c \<and> is_user_session d \<and> cred_username st c = cred_username st d
      | _ \<Rightarrow> False)"

definition add :: "store \<Rightarrow> (app_id \<Rightarrow> cred option) \<Rightarrow> jref \<Rightarrow> jobs_queue \<Rightarrow> (job_error + jref) \<times> jobs_queue" where
  "add st apps j q =
     (case handle_lock j q of
        (Some e, q1) \<Rightarrow> (Inl e, q1)
      | (None, q1) \<Rightarrow>
          (let jb = q_jobs q1 j in
           case opt_lock_queue_size (jb_options jb) of
             None \<Rightarrow> (Inr j, enqueue j q1)
           | Some n \<Rightarrow>
               if n = 0 then
                 if list_ex (\<lambda>k. jb_state (q_jobs q1 k) = RUNNING \<and> jb_lock (q_jobs q1 k) = jb_lock jb)
                      (dict_values (q_dict q1))
                 then (Inl (JobCallError ''This job is already being performed'' EBUSY), q1)
                 else (Inr j, enqueue j q1)
               else
                 (let queued_jobs = filter (\<lambda>k. jb_lock (q_jobs q1 k) = jb_lock jb) (q_queue q1) in
                  if length queued_jobs \<ge> n then
                    (case find (\<lambda>k. may_coalesce st apps jb (q_jobs q1 k)) (rev queued_jobs) of
                       Some k \<Rightarrow>
                         (Inr k,
                          if jb_message_ids jb \<noteq> [] then
                            send_job_event ''CHANGED'' k
                              (upd_job k (\<lambda>x. x\<lparr>jb_message_ids := jb_message_ids x @ jb_message_ids jb\<rparr>) q1)
                          else q1)
                     | None \<Rightarrow> (Inl (JobCallError ''This job is already being performed by another user'' EBUSY), q1))
                  else (Inr j, enqueue j q1))))"

definition release_lock :: "jref \<Rightarrow> jobs_queue \<Rightarrow> job_error option \<times> jobs_queue" where
  "release_lock j q =
     (case jb_lock (q_jobs q j) of
        None \<Rightarrow> (None, q)
      | Some l \<Rightarrow>
          (let name = lk_name (q_locks q l);
               q1 = upd_lock l (\<lambda>lk. lk\<lparr>lk_jobs := lk_jobs lk - {j}\<rparr>) q
           in if \<not> lk_locked (q_locks q1 l) then (Some (LockNotHeld name), q1)
              else
                (let q2 = upd_lock l (\<lambda>lk. lk\<lparr>lk_locked := False\<rparr>) q1
                 in if lk_jobs (q_locks q2 l) = {} then
                      if map_of (q_job_locks q2) name = None then (Some (LockKeyError name), q2)
                      else (None, q2\<lparr>q_job_locks := AList.delete name (q_job_locks q2), q_queue_event := True\<rparr>)
                    else (None, q2\<lparr>q_queue_event := True\<rparr>))))"

definition runnable :: "jobs_queue \<Rightarrow> jref \<Rightarrow> bool" where
  "runnable q j \<longleftrightarrow>
     (case jb_lock (q_jobs q j) of None \<Rightarrow> True | Some l \<Rightarrow> \<not> lk_locked (q_locks q l))"

text \<open>
  One turn of the loop in \<open>next\<close>, once the event is set. The lock of the job found is
  free, so acquiring it does not wait. \<open>run\<close> then creates the task of the job.
\<close>

definition next_turn :: "jobs_queue \<Rightarrow> jref option \<times> jobs_queue" where
  "next_turn q =
     (case find (runnable q) (q_queue q) of
        None \<Rightarrow> (None, q\<lparr>q_queue_event := False\<rparr>)
      | Some j \<Rightarrow>
          (let q1 = (case jb_lock (q_jobs q j) of
                       None \<Rightarrow> q
                     | Some l \<Rightarrow> upd_lock l (\<lambda>lk. lk\<lparr>lk_locked := True\<rparr>) q);
               q2 = q1\<lparr>q_queue := remove1 j (q_queue q1)\<rparr>;
               q3 = (if q_queue q2 = [] then q2\<lparr>q_queue_event := False\<rparr> else q2)
           in (Some j, set_phase j Dispatched q3)))"

section \<open>Progress\<close>

text \<open>\<open>int(percent)\<close> truncates towards zero.\<close>

definition py_trunc :: "real \<Rightarrow> int" where
  "py_trunc x = (if x \<ge> 0 then \<lfloor>x\<rfloor> else \<lceil>x\<rceil>)"

definition apply_progress :: "real option \<Rightarrow> string option \<Rightarrow> pyval \<Rightarrow> progress \<Rightarrow> progress" where
  "apply_progress percent description extra p =
     p\<lparr>pg_percent := (case percent of None \<Rightarrow> pg_percent p | Some x \<Rightarrow> py_trunc x),
       pg_description := (case description of
          None \<Rightarrow> pg_description p
        | Some d \<Rightarrow> if d = [] then pg_description p else d),
       pg_extra := (if truthy extra then extra else pg_extra p)\<rparr>"

text \<open>
  \<open>Job.set_progress\<close> on a job and, with the resulting progress, on the jobs that wrap it.
  The first argument is the number of frames left; \<open>False\<close> is \<open>RecursionError\<close>,
  which leaves the updates made so far.
\<close>

fun set_progress :: "nat \<Rightarrow> jref \<Rightarrow> real option \<Rightarrow> string option \<Rightarrow> pyval \<Rightarrow> jobs_queue \<Rightarrow> bool \<times> jobs_queue" where
  "set_progress 0 j percent description extra q = (False, q)"
| "set_progress (Suc depth) j percent description extra q =
     (let p = jb_progress (q_jobs q j);
          p' = apply_progress percent description extra p;
          q1 = upd_job j (\<lambda>jb. jb\<lparr>jb_progress := p'\<rparr>) q;
          q2 = (if p' \<noteq> p then send_job_event ''CHANGED'' j q1 else q1)
      in fold (\<lambda>w (ok, r).
                 if ok then set_progress depth w (Some (of_int (pg_percent p'))) (Some (pg_description p')) (pg_extra p') r
                 else (ok, r))
           (jb_wrapped (q_jobs q j)) (True, q2))"

text \<open>\<open>Job.wrap\<close> up to the wait: take over the progress, then be notified.\<close>

definition wrap :: "nat \<Rightarrow> jref \<Rightarrow> jref \<Rightarrow> jobs_queue \<Rightarrow> bool \<times> jobs_queue" where
  "wrap depth j subjob q =
     (let p = jb_progress (q_jobs q subjob);
          (ok, q1) = set_progress depth j (Some (of_int (pg_percent p))) (Some (pg_description p)) (pg_extra p) q
      in (ok, if ok then upd_job subjob (\<lambda>jb. jb\<lparr>jb_wrapped := jb_wrapped jb @ [j]\<rparr>) q1 else q1))"

definition set_description :: "jref \<Rightarrow> string option \<Rightarrow> jobs_queue \<Rightarrow> jobs_queue" where
  "set_description j description q =
     (if jb_description (q_jobs q j) \<noteq> description
      then send_job_event ''CHANGED'' j (upd_job j (\<lambda>jb. jb\<lparr>jb_description := description\<rparr>) q)
      else q)"

section \<open>Running a job\<close>

definition abort :: "jref \<Rightarrow> jobs_queue \<Rightarrow> jobs_queue" where
  "abort j q =
     upd_job j (\<lambda>jb. (if jb_future jb then jb
                      else if jb_state jb = WAITING then jb\<lparr>jb_aborted := True\<rparr> else jb)\<lparr>jb_aborted_event := True\<rparr>) q"

text \<open>\<open>set_state\<close> of a stored job; \<open>None\<close> is its assertion.\<close>

definition set_job_state :: "seconds \<Rightarrow> State \<Rightarrow> jref \<Rightarrow> jobs_queue \<Rightarrow> jobs_queue option" where
  "set_job_state now s j q = map_option (\<lambda>jb. upd_job j (\<lambda>_. jb) q) (set_state now s (q_jobs q j))"

definition run_enter :: "seconds \<Rightarrow> jref \<Rightarrow> jobs_queue \<Rightarrow> jobs_queue option" where
  "run_enter now j q =
     (if jb_aborted (q_jobs q j) then
        map_option (set_phase j Closing) (set_job_state now ABORTED j q)
      else
        map_option (\<lambda>q1. set_phase j Body (upd_job j (\<lambda>jb. jb\<lparr>jb_future := True\<rparr>) (send_job_event ''CHANGED'' j q1)))
          (set_job_state now RUNNING j q))"

definition run_begin :: "seconds \<Rightarrow> jref \<Rightarrow> jobs_queue \<Rightarrow> jobs_queue option" where
  "run_begin now j q =
     (if opt_logs (jb_options (q_jobs q j)) then
        Some (set_phase j Logging (upd_job j (\<lambda>jb. jb\<lparr>jb_logs_path := Some (logs_path jb)\<rparr>) q))
      else run_enter now j q)"

text \<open>The log file could be opened, or not.\<close>

definition run_logging_started :: "seconds \<Rightarrow> jref \<Rightarrow> jobs_queue \<Rightarrow> jobs_queue option" where
  "run_logging_started now j q = run_enter now j (upd_job j (\<lambda>jb. jb\<lparr>jb_logs_fd := True\<rparr>) q)"

definition run_logging_failed :: "jref \<Rightarrow> jobs_queue \<Rightarrow> jobs_queue" where
  "run_logging_failed j q = set_phase j Crashed q"

text \<open>
  The method returned: result, state, and progress 100 unless it is there already. An exception
  of the progress update reaches the handler of \<open>run\<close>, whose \<open>set_state\<close> refuses to
  leave \<open>SUCCESS\<close>; the \<open>finally\<close> block runs all the same.
\<close>

definition body_returned :: "nat \<Rightarrow> seconds \<Rightarrow> pyval \<Rightarrow> jref \<Rightarrow> jobs_queue \<Rightarrow> jobs_queue option" where
  "body_returned depth now rv j q =
     map_option (\<lambda>q1. set_phase j Closing
         (if pg_percent (jb_progress (q_jobs q1 j)) \<noteq> 100 then
            snd (set_progress depth j (Some 100) (Some []) PNone q1)
          else q1))
       (set_job_state now SUCCESS j (upd_job j (\<lambda>jb. jb\<lparr>jb_result := rv\<rparr>) q))"

text \<open>
  The text of the traceback, which depends on the stack, is the argument \<open>trace\<close>.
\<close>

definition set_exception :: "(int \<Rightarrow> string) \<Rightarrow> string \<Rightarrow> exc \<Rightarrow> job \<Rightarrow> job" where
  "set_exception errname trace e jb =
     jb\<lparr>jb_error := Some (exc_str errname e), jb_exception := Some trace, jb_exc_info := Some e\<rparr>"

definition body_raised :: "(int \<Rightarrow> string) \<Rightarrow> string \<Rightarrow> seconds \<Rightarrow> exc \<Rightarrow> jref \<Rightarrow> jobs_queue \<Rightarrow> jobs_queue option" where
  "body_raised errname trace now e j q =
     (if e = CancelledError \<or> e = JobCancelledException then
        map_option (set_phase j Closing) (set_job_state now ABORTED j q)
      else
        (let e' = (case adapt_exception e of Some handled \<Rightarrow> handled | None \<Rightarrow> e)
         in map_option (\<lambda>q1. set_phase j Closing (upd_job j (set_exception errname trace e') q1))
              (set_job_state now FAILED j q)))"

text \<open>The excerpt of a log: at most ten lines from its start and ten from its end.\<close>

fun excerpt_scan :: "string list \<Rightarrow> string list \<times> string list \<times> nat \<Rightarrow> string list \<times> string list \<times> nat" where
  "excerpt_scan [] s = s"
| "excerpt_scan (line # ls) (head, tail, n) =
     (if length head < 10 then excerpt_scan ls (head @ [line], tail, Suc n)
      else (let t = tail @ [line] in excerpt_scan ls (head, drop (length t - 10) t, Suc n)))"

definition get_logs_excerpt :: "string list option \<Rightarrow> string" where
  "get_logs_excerpt file =
     (case file of
        None \<Rightarrow> ''Log file was removed''
      | Some content \<Rightarrow>
          (case excerpt_scan content ([], [], 0) of
             (head, tail, n) \<Rightarrow>
               if n > 20 then
                 concat head @ ''... '' @ py_str (n - 20) @ '' more lines ...'' @ [char_of (10::nat)] @ concat tail
               else concat (head @ tail)))"

definition close_logs :: "string list option \<Rightarrow> job \<Rightarrow> job" where
  "close_logs file jb =
     (if \<not> jb_logs_fd jb then jb
      else if (case jb_logs_excerpt jb of None \<Rightarrow> False | Some e \<Rightarrow> e \<noteq> []) then jb
      else jb\<lparr>jb_logs_excerpt := Some (get_logs_excerpt file)\<rparr>)"

text \<open>The \<open>finally\<close> block up to the point where the waiters are woken; \<open>Inl\<close> is an exception.\<close>

definition run_close :: "string list option \<Rightarrow> jref \<Rightarrow> jobs_queue \<Rightarrow> job_error + jobs_queue" where
  "run_close file j q =
     (case release_lock j (upd_job j (close_logs file) q) of
        (Some e, _) \<Rightarrow> Inl e
      | (None, q1) \<Rightarrow> Inr (set_phase j Released (upd_job j (\<lambda>jb. jb\<lparr>jb_finished := True\<rparr>) q1)))"

text \<open>The rest of it: the callback, the last event, and forgetting a transient job.\<close>

definition run_finish :: "jref \<Rightarrow> jobs_queue \<Rightarrow> job_error + jobs_queue" where
  "run_finish j q =
     (let q1 = send_job_event ''CHANGED'' j (upd_job j (\<lambda>jb. jb\<lparr>jb_on_finish_cb_called := True\<rparr>) q)
      in if opt_transient (jb_options (q_jobs q1 j)) then
           (case jb_id (q_jobs q1 j) of
              None \<Rightarrow> Inl StateAssertion
            | Some i \<Rightarrow> Inr (set_phase j Done (deque_remove i q1)))
         else Inr (set_phase j Done q1))"

text \<open>
  What \<open>wait\<close> returns or raises once the job has finished. \<open>forward\<close> is the
  test against the classes to re-raise.
\<close>

definition wait_outcome :: "(exc \<Rightarrow> bool) \<Rightarrow> bool \<Rightarrow> job \<Rightarrow> exc + pyval" where
  "wait_outcome forward raise_error jb =
     (case (if raise_error then jb_error jb else None) of
        None \<Rightarrow> Inr (jb_result jb)
      | Some msg \<Rightarrow>
          if msg = [] then Inr (jb_result jb)
          else (case jb_exc_info jb of
                  None \<Rightarrow> Inl (OtherError ''AssertionError'' [])
                | Some e \<Rightarrow> if forward e then Inl e else Inl (CallError msg EFAULT PNone)))"

section \<open>Encoding\<close>

text \<open>
  \<open>__encode__\<close>. How exceptions print, and the serialization of arguments and results by
  the API models (which redacts secrets, and may raise), are arguments.
\<close>

definition verror_tuple :: "string option \<times> string \<times> int \<Rightarrow> pyval" where
  "verror_tuple t = (case t of (a, m, n) \<Rightarrow> PList [opt_str a, PStr m, PInt n])"

definition encode_exc_info :: "(exc \<Rightarrow> string) \<Rightarrow> exc \<Rightarrow> pyval" where
  "encode_exc_info repr e =
     (let (type_name, errno, extra) =
        (case e of
           ValidationErrorExc v \<Rightarrow>
             (''VALIDATION'', PInt (ve_errno v), PList [verror_tuple (ve_attribute v, ve_errmsg v, ve_errno v)])
         | ValidationErrorsExc vs \<Rightarrow> (''VALIDATION'', PNone, PList (map verror_tuple (verrors_iter vs)))
         | CallError msg n x \<Rightarrow> (''CallError'', PInt n, x)
         | CalledProcessError cmd code out err \<Rightarrow> (''CalledProcessError'', PNone, PNone)
         | JobCancelledException \<Rightarrow> (''JobCancelledException'', PNone, PNone)
         | CancelledError \<Rightarrow> (''CancelledError'', PNone, PNone)
         | OtherError cls msg \<Rightarrow> (cls, PNone, PNone))
      in PDict [(''repr'', PStr (repr e)), (''type'', PStr type_name), (''errno'', errno), (''extra'', extra)])"

definition state_name :: "State \<Rightarrow> string" where
  "state_name s =
     (case s of WAITING \<Rightarrow> ''WAITING'' | RUNNING \<Rightarrow> ''RUNNING'' | SUCCESS \<Rightarrow> ''SUCCESS''
      | FAILED \<Rightarrow> ''FAILED'' | ABORTED \<Rightarrow> ''ABORTED'')"

text \<open>The \<open>result\<close> and \<open>result_encoding_error\<close> entries.\<close>

definition encode_result :: "(job \<Rightarrow> string + pyval) \<Rightarrow> bool \<Rightarrow> job \<Rightarrow> pyval \<times> pyval" where
  "encode_result dump_result raw_result jb =
     (if jb_state jb = SUCCESS then
        if raw_result then (jb_result jb, PNone)
        else (case dump_result jb of Inr r \<Rightarrow> (r, PNone) | Inl e \<Rightarrow> (PNone, PStr e))
      else (PNone, PNone))"

definition job_encode ::
  "(exc \<Rightarrow> string) \<Rightarrow> (job \<Rightarrow> pyval) \<Rightarrow> (job \<Rightarrow> string + pyval) \<Rightarrow> store \<Rightarrow> (app_id \<Rightarrow> cred option) \<Rightarrow> bool \<Rightarrow> job \<Rightarrow> pyval" where
  "job_encode repr dump_args dump_result st apps raw_result jb =
     (let (result, encoding_error) = encode_result dump_result raw_result jb
      in PDict
        [(''id'', (case jb_id jb of None \<Rightarrow> PNone | Some i \<Rightarrow> PInt (int i))),
         (''message_ids'', PList (map PStr (jb_message_ids jb))),
         (''method'', PStr (jb_method_name jb)),
         (''arguments'', dump_args jb),
         (''transient'', PBool (opt_transient (jb_options jb))),
         (''description'', opt_str (jb_description jb)),
         (''abortable'', PBool (opt_abortable (jb_options jb))),
         (''logs_path'', opt_str (jb_logs_path jb)),
         (''logs_excerpt'', opt_str (jb_logs_excerpt jb)),
         (''progress'', PDict [(''percent'', PInt (pg_percent (jb_progress jb))),
            (''description'', PStr (pg_description (jb_progress jb))), (''extra'', pg_extra (jb_progress jb))]),
         (''result'', result),
         (''result_encoding_error'', encoding_error),
         (''error'', opt_str (jb_error jb)),
         (''exception'', opt_str (jb_exception jb)),
         (''exc_info'', (case jb_exc_info jb of None \<Rightarrow> PNone | Some e \<Rightarrow> encode_exc_info repr e)),
         (''state'', PStr (state_name (jb_state jb))),
         (''time_started'', PFloat (jb_time_started jb)),
         (''time_finished'', (case jb_time_finished jb of None \<Rightarrow> PNone | Some t \<Rightarrow> PFloat t)),
         (''credentials'', (case job_credentials apps jb of
            None \<Rightarrow> PNone
          | Some c \<Rightarrow> PDict [(''type'', PStr (class_name c)), (''data'', PDict (cred_dump st c))]))])"

section \<open>The progress buffer\<close>

text \<open>
  \<open>JobProgressBuffer\<close>. A pending update is the values to report and the time at which
  the timer fires; the buffer's operations return the update that is passed on to
  \<open>Job.set_progress\<close>, if any.
\<close>

type_synonym progress_update = "real option \<times> string option \<times> pyval"

record progress_buffer =
  pb_interval :: seconds
  pb_last_update_at :: seconds
  pb_pending :: "(progress_update \<times> seconds) option"

definition buffer_set_progress :: "seconds \<Rightarrow> progress_update \<Rightarrow> progress_buffer \<Rightarrow> progress_update option \<times> progress_buffer" where
  "buffer_set_progress t u b =
     (if t - pb_last_update_at b \<ge> pb_interval b
      then (Some u, b\<lparr>pb_pending := None, pb_last_update_at := t\<rparr>)
      else (None, b\<lparr>pb_pending := Some (u, (case pb_pending b of None \<Rightarrow> t + pb_interval b | Some (_, due) \<Rightarrow> due))\<rparr>))"

definition buffer_cancel :: "progress_buffer \<Rightarrow> progress_buffer" where
  "buffer_cancel b = b\<lparr>pb_pending := None\<rparr>"

text \<open>The timer fires: \<open>None\<close> is the assertion that there is something to report.\<close>

definition do_pending_update :: "seconds \<Rightarrow> progress_buffer \<Rightarrow> (progress_update \<times> progress_buffer) option" where
  "do_pending_update t b =
     (case pb_pending b of
        None \<Rightarrow> None
      | Some (u, _) \<Rightarrow> Some (u, b\<lparr>pb_last_update_at := t, pb_pending := None\<rparr>))"

definition buffer_flush :: "seconds \<Rightarrow> progress_buffer \<Rightarrow> progress_update option \<times> progress_buffer" where
  "buffer_flush t b =
     (case do_pending_update t b of None \<Rightarrow> (None, b) | Some (u, b') \<Rightarrow> (Some u, b'))"

section \<open>The interface of the core service\<close>

definition job_by_credential_and_id ::
  "store \<Rightarrow> (app_id \<Rightarrow> cred option) \<Rightarrow> cred option \<Rightarrow> nat \<Rightarrow> JobAccess \<Rightarrow> jobs_queue \<Rightarrow> job_error + jref" where
  "job_by_credential_and_id st apps credential job_id access q =
     (case map_of (q_dict q) job_id of
        None \<Rightarrow> Inl (InstanceNotFound (''Job with id '' @ py_str job_id @ '' does not exist''))
      | Some j \<Rightarrow>
          (case credential_access_error st apps (q_jobs q j) credential (Some access) of
             Some err \<Rightarrow> Inl (JobCallError err EPERM)
           | None \<Rightarrow> Inr j))"

text \<open>The outer option: no application, a call from within the middleware.\<close>

definition job_by_app_and_id ::
  "store \<Rightarrow> (app_id \<Rightarrow> cred option) \<Rightarrow> app_id option \<Rightarrow> nat \<Rightarrow> JobAccess \<Rightarrow> jobs_queue \<Rightarrow> job_error + jref" where
  "job_by_app_and_id st apps app job_id access q =
     (case app of
        None \<Rightarrow>
          (case map_of (q_dict q) job_id of
             None \<Rightarrow> Inl (InstanceNotFound (''Job with id '' @ py_str job_id @ '' does not exist''))
           | Some j \<Rightarrow> Inr j)
      | Some a \<Rightarrow> job_by_credential_and_id st apps (apps a) job_id access q)"

text \<open>\<open>core.job_wait\<close> up to the wait: the job it runs in wraps the one asked for.\<close>

definition job_wait ::
  "store \<Rightarrow> (app_id \<Rightarrow> cred option) \<Rightarrow> nat \<Rightarrow> jref \<Rightarrow> nat \<Rightarrow> jobs_queue \<Rightarrow> job_error + bool \<times> jobs_queue" where
  "job_wait st apps depth j job_id q =
     map_sum id (\<lambda>target. wrap depth j target q)
       (job_by_credential_and_id st apps (job_credentials apps (q_jobs q j)) job_id READ q)"

text \<open>\<open>core.job_download_logs\<close> up to the download: the path of the log.\<close>

definition job_download_logs ::
  "store \<Rightarrow> (app_id \<Rightarrow> cred option) \<Rightarrow> app_id option \<Rightarrow> nat \<Rightarrow> jobs_queue \<Rightarrow> job_error + string" where
  "job_download_logs st apps app job_id q =
     (case job_by_app_and_id st apps app job_id READ q of
        Inl e \<Rightarrow> Inl e
      | Inr j \<Rightarrow>
          (case jb_logs_path (q_jobs q j) of
             None \<Rightarrow> Inl (JobCallError ''This job has no logs'' EFAULT)
           | Some path \<Rightarrow> Inr path))"

text \<open>\<open>core.job_update\<close>; the outer \<open>None\<close> is the \<open>KeyError\<close>.\<close>

definition job_update :: "nat \<Rightarrow> nat \<Rightarrow> progress_update option \<Rightarrow> jobs_queue \<Rightarrow> (bool \<times> jobs_queue) option" where
  "job_update depth job_id update q =
     (case map_of (q_dict q) job_id of
        None \<Rightarrow> None
      | Some j \<Rightarrow>
          (case update of
             None \<Rightarrow> Some (True, q)
           | Some (percent, description, extra) \<Rightarrow> Some (set_progress depth j percent description extra q)))"

definition job_abort ::
  "store \<Rightarrow> (app_id \<Rightarrow> cred option) \<Rightarrow> app_id option \<Rightarrow> nat \<Rightarrow> jobs_queue \<Rightarrow> job_error + jobs_queue" where
  "job_abort st apps app job_id q =
     map_sum id (\<lambda>j. abort j q) (job_by_app_and_id st apps app job_id ABORT q)"

end
