(* ===== verification/Job_Invariants.thy ===== *)
theory Job_Invariants
  imports Jobs
begin

text \<open>
  The job queue as a state machine: the steps the event loop can take, the invariant every
  reachable queue satisfies, and what follows from it. Jobs that share a lock never run at the
  same time, no wakeup of the scheduler is lost, jobs are started in the order they were
  submitted, the assertions and dictionary operations of the code never fail, and finished
  jobs stay as they are.
\<close>

section \<open>The invariant\<close>

lemmas queue_updates = upd_job_def upd_lock_def set_phase_def

text \<open>The job's task holds the lock: from the moment it is taken from the queue to the release.\<close>

definition holding :: "jobs_queue \<Rightarrow> jref \<Rightarrow> bool" where
  "holding q j \<longleftrightarrow> q_phase q j \<in> {Dispatched, Logging, Body, Closing, Crashed}"

definition in_use :: "jobs_queue \<Rightarrow> jref \<Rightarrow> bool" where
  "in_use q j \<longleftrightarrow> j \<in> set (q_queue q) \<or> holding q j"

definition inv_queue :: "jobs_queue \<Rightarrow> bool" where
  "inv_queue q \<longleftrightarrow>
     distinct (q_queue q) \<and>
     (\<forall>j. j \<in> set (q_queue q) \<longrightarrow>
        q_phase q j = Fresh \<and> jb_state (q_jobs q j) = WAITING \<and> \<not> jb_future (q_jobs q j) \<and>
        (\<exists>i. jb_id (q_jobs q j) = Some i \<and> map_of (q_dict q) i = Some j))"

definition inv_ids :: "jobs_queue \<Rightarrow> bool" where
  "inv_ids q \<longleftrightarrow>
     dict_wf (q_dict q) \<and>
     (\<forall>i j. map_of (q_dict q) i = Some j \<longrightarrow> jb_id (q_jobs q j) = Some i \<and> j < q_next_job q) \<and>
     (\<forall>i j. j < q_next_job q \<longrightarrow> jb_id (q_jobs q j) = Some i \<longrightarrow> i \<le> q_count q) \<and>
     (\<forall>i j k. j < q_next_job q \<longrightarrow> k < q_next_job q \<longrightarrow>
        jb_id (q_jobs q j) = Some i \<longrightarrow> jb_id (q_jobs q k) = Some i \<longrightarrow> j = k) \<and>
     sorted_wrt (<) (map (\<lambda>j. the (jb_id (q_jobs q j))) (q_queue q))"

text \<open>The state of a job by the phase of its task.\<close>

definition phase_ok :: "phase \<Rightarrow> job \<Rightarrow> bool" where
  "phase_ok p jb \<longleftrightarrow>
     (case p of
        Fresh \<Rightarrow> jb_id jb = None \<longrightarrow> jb_state jb = WAITING \<and> \<not> jb_future jb
      | Body \<Rightarrow> jb_state jb = RUNNING \<and> jb_future jb \<and> \<not> jb_aborted jb
      | Closing \<Rightarrow> terminal (jb_state jb)
      | Released \<Rightarrow> terminal (jb_state jb)
      | Done \<Rightarrow> terminal (jb_state jb)
      | _ \<Rightarrow> jb_state jb = WAITING \<and> \<not> jb_future jb) \<and>
     (p \<noteq> Fresh \<longrightarrow> jb_id jb \<noteq> None)"

definition inv_phase :: "jobs_queue \<Rightarrow> bool" where
  "inv_phase q \<longleftrightarrow>
     (\<forall>j. (j < q_next_job q \<longrightarrow> phase_ok (q_phase q j) (q_jobs q j)) \<and>
          (q_next_job q \<le> j \<longrightarrow> q_phase q j = Fresh))"

definition inv_locks :: "jobs_queue \<Rightarrow> bool" where
  "inv_locks q \<longleftrightarrow>
     dict_wf (q_job_locks q) \<and>
     (\<forall>n l. map_of (q_job_locks q) n = Some l \<longrightarrow> lk_name (q_locks q l) = n \<and> l < q_next_lock q) \<and>
     (\<forall>j l. in_use q j \<longrightarrow> jb_lock (q_jobs q j) = Some l \<longrightarrow>
        j \<in> lk_jobs (q_locks q l) \<and> map_of (q_job_locks q) (lk_name (q_locks q l)) = Some l) \<and>
     (\<forall>j l. holding q j \<longrightarrow> jb_lock (q_jobs q j) = Some l \<longrightarrow> lk_locked (q_locks q l)) \<and>
     (\<forall>l. lk_locked (q_locks q l) \<longrightarrow> (\<exists>j. holding q j \<and> jb_lock (q_jobs q j) = Some l)) \<and>
     (\<forall>j k l. holding q j \<longrightarrow> holding q k \<longrightarrow> jb_lock (q_jobs q j) = Some l \<longrightarrow>
        jb_lock (q_jobs q k) = Some l \<longrightarrow> j = k)"

definition inv_event :: "jobs_queue \<Rightarrow> bool" where
  "inv_event q \<longleftrightarrow> (\<not> q_queue_event q \<longrightarrow> (\<forall>j. j \<in> set (q_queue q) \<longrightarrow> \<not> runnable q j))"

definition jobs_inv :: "jobs_queue \<Rightarrow> bool" where
  "jobs_inv q \<longleftrightarrow> inv_queue q \<and> inv_ids q \<and> inv_phase q \<and> inv_locks q \<and> inv_event q"

lemmas inv_defs = inv_queue_def inv_ids_def inv_phase_def inv_locks_def inv_event_def

section \<open>What the invariant does not look at\<close>

text \<open>The part of a job the invariant depends on, and queues that agree on it.\<close>

definition core_of :: "job \<Rightarrow> State \<times> lref option \<times> nat option \<times> bool \<times> bool" where
  "core_of jb = (jb_state jb, jb_lock jb, jb_id jb, jb_future jb, jb_aborted jb)"

definition same_core :: "jobs_queue \<Rightarrow> jobs_queue \<Rightarrow> bool" where
  "same_core q q' \<longleftrightarrow>
     (\<forall>j. core_of (q_jobs q' j) = core_of (q_jobs q j)) \<and>
     q_locks q' = q_locks q \<and> q_next_job q' = q_next_job q \<and> q_next_lock q' = q_next_lock q \<and>
     q_count q' = q_count q \<and> q_dict q' = q_dict q \<and> q_queue q' = q_queue q \<and>
     q_queue_event q' = q_queue_event q \<and> q_job_locks q' = q_job_locks q \<and> q_phase q' = q_phase q"

lemma same_core_refl [simp]: "same_core q q"
  by (simp add: same_core_def)

lemma same_core_trans: "same_core q1 q2 \<Longrightarrow> same_core q2 q3 \<Longrightarrow> same_core q1 q3"
  by (simp add: same_core_def)

lemma same_core_inv:
  assumes "same_core q q'" and "jobs_inv q"
  shows "jobs_inv q'"
proof -
  have j: "jb_state (q_jobs q' j) = jb_state (q_jobs q j)" "jb_lock (q_jobs q' j) = jb_lock (q_jobs q j)"
    "jb_id (q_jobs q' j) = jb_id (q_jobs q j)" "jb_future (q_jobs q' j) = jb_future (q_jobs q j)"
    "jb_aborted (q_jobs q' j) = jb_aborted (q_jobs q j)" for j
    using assms(1) by (auto simp: same_core_def core_of_def)
  have f: "q_locks q' = q_locks q" "q_next_job q' = q_next_job q" "q_next_lock q' = q_next_lock q"
    "q_count q' = q_count q" "q_dict q' = q_dict q" "q_queue q' = q_queue q"
    "q_queue_event q' = q_queue_event q" "q_job_locks q' = q_job_locks q" "q_phase q' = q_phase q"
    using assms(1) by (auto simp: same_core_def)
  have p: "phase_ok s (q_jobs q' j) = phase_ok s (q_jobs q j)" for s j
    by (simp only: phase_ok_def j)
  have h: "holding q' j = holding q j" "in_use q' j = in_use q j" "runnable q' j = runnable q j" for j
    by (simp_all only: holding_def in_use_def runnable_def f j)
  have "jobs_inv q' = jobs_inv q" by (simp only: jobs_inv_def inv_defs f j p h)
  with assms(2) show ?thesis by simp
qed

lemma same_core_upd_job:
  "(\<And>jb. core_of (f jb) = core_of jb) \<Longrightarrow> same_core q (upd_job j f q)"
  by (simp add: same_core_def upd_job_def)

lemma same_core_event [simp]: "same_core q (send_job_event t j q)"
  by (simp add: same_core_def send_job_event_def)

lemma same_core_fold:
  assumes "\<And>w q. same_core q (snd (f w q))" and "same_core q q0"
  shows "same_core q (snd (fold (\<lambda>w (ok, r). if ok then f w r else (ok, r)) ws (ok, q0)))"
  using assms(2)
proof (induction ws arbitrary: ok q0)
  case (Cons w ws)
  have "same_core q (snd (f w q0))" using assms(1) Cons.prems same_core_trans by blast
  then show ?case using Cons by (cases "f w q0") auto
qed simp

lemma same_core_set_progress: "same_core q (snd (set_progress depth j percent descr extra q))"
proof (induction depth arbitrary: j percent descr extra q)
  case (Suc depth)
  define p' where "p' = apply_progress percent descr extra (jb_progress (q_jobs q j))"
  define q1 where "q1 = upd_job j (\<lambda>jb. jb\<lparr>jb_progress := p'\<rparr>) q"
  define q2 where "q2 = (if p' \<noteq> jb_progress (q_jobs q j) then send_job_event ''CHANGED'' j q1 else q1)"
  have "same_core q q1" unfolding q1_def by (rule same_core_upd_job) (simp add: core_of_def)
  then have q2: "same_core q q2" unfolding q2_def by (auto intro: same_core_trans)
  have e: "set_progress (Suc depth) j percent descr extra q = fold (\<lambda>w (ok, r). if ok then
      set_progress depth w (Some (of_int (pg_percent p'))) (Some (pg_description p')) (pg_extra p') r else (ok, r))
      (jb_wrapped (q_jobs q j)) (True, q2)"
    unfolding p'_def q1_def q2_def by (simp only: set_progress.simps Let_def)
  show ?case unfolding e by (rule same_core_fold) (use q2 Suc.IH in auto)
qed simp

lemma same_core_wrap: "same_core q (snd (wrap depth j subjob q))"
proof -
  obtain ok q1 where q1: "set_progress depth j (Some (of_int (pg_percent (jb_progress (q_jobs q subjob)))))
    (Some (pg_description (jb_progress (q_jobs q subjob)))) (pg_extra (jb_progress (q_jobs q subjob))) q = (ok, q1)"
    by (cases "set_progress depth j (Some (of_int (pg_percent (jb_progress (q_jobs q subjob)))))
      (Some (pg_description (jb_progress (q_jobs q subjob)))) (pg_extra (jb_progress (q_jobs q subjob))) q")
  have "same_core q q1" using same_core_set_progress q1 by (metis snd_conv)
  moreover have "same_core q1 (upd_job subjob (\<lambda>jb. jb\<lparr>jb_wrapped := jb_wrapped jb @ [j]\<rparr>) q1)"
    by (rule same_core_upd_job) (simp add: core_of_def)
  ultimately show ?thesis using same_core_trans by (auto simp: wrap_def Let_def q1)
qed

lemma same_core_set_description: "same_core q (set_description j descr q)"
proof -
  have "same_core q (upd_job j (\<lambda>jb. jb\<lparr>jb_description := descr\<rparr>) q)"
    by (rule same_core_upd_job) (simp add: core_of_def)
  then show ?thesis by (auto simp: set_description_def intro: same_core_trans)
qed

section \<open>Consequences of the invariant\<close>

lemma inv_queueD:
  assumes "jobs_inv q" "j \<in> set (q_queue q)"
  shows "q_phase q j = Fresh" and "jb_state (q_jobs q j) = WAITING" and "\<not> jb_future (q_jobs q j)"
    and "\<exists>i. jb_id (q_jobs q j) = Some i \<and> map_of (q_dict q) i = Some j" and "j < q_next_job q"
  using assms by (auto simp: jobs_inv_def inv_queue_def inv_ids_def)

lemma inv_holding_lt:
  assumes "jobs_inv q" "holding q j"
  shows "j < q_next_job q"
proof (rule ccontr)
  assume "\<not> j < q_next_job q"
  with assms(1) have "q_phase q j = Fresh" by (simp add: jobs_inv_def inv_phase_def)
  with assms(2) show False by (simp add: holding_def)
qed

lemma inv_phaseD:
  assumes "jobs_inv q" "q_phase q j \<noteq> Fresh"
  shows "phase_ok (q_phase q j) (q_jobs q j)" and "j < q_next_job q" and "j \<notin> set (q_queue q)"
proof -
  show lt: "j < q_next_job q"
    using assms by (metis inv_phase_def jobs_inv_def not_le)
  then show "phase_ok (q_phase q j) (q_jobs q j)"
    using assms by (simp add: jobs_inv_def inv_phase_def)
  show "j \<notin> set (q_queue q)" using assms inv_queueD(1) by blast
qed

lemma inv_unused:
  assumes "jobs_inv q" "jb_id (q_jobs q j) = None" "j < q_next_job q"
  shows "\<not> in_use q j" and "q_phase q j = Fresh" and "jb_state (q_jobs q j) = WAITING" and "\<not> jb_future (q_jobs q j)"
proof -
  have ok: "phase_ok (q_phase q j) (q_jobs q j)" using assms by (simp add: jobs_inv_def inv_phase_def)
  then show f: "q_phase q j = Fresh" using assms(2) by (auto simp: phase_ok_def)
  show "\<not> in_use q j"
    using inv_queueD(4) [OF assms(1), of j] f assms(2) by (auto simp: in_use_def holding_def)
  show "jb_state (q_jobs q j) = WAITING" "\<not> jb_future (q_jobs q j)"
    using ok f assms(2) by (auto simp: phase_ok_def)
qed

lemma inv_locksD:
  assumes "jobs_inv q"
  shows "dict_wf (q_job_locks q)"
    and "map_of (q_job_locks q) n = Some l \<Longrightarrow> lk_name (q_locks q l) = n \<and> l < q_next_lock q"
    and "in_use q j \<Longrightarrow> jb_lock (q_jobs q j) = Some l \<Longrightarrow>
      j \<in> lk_jobs (q_locks q l) \<and> map_of (q_job_locks q) (lk_name (q_locks q l)) = Some l"
    and "holding q j \<Longrightarrow> jb_lock (q_jobs q j) = Some l \<Longrightarrow> lk_locked (q_locks q l)"
    and "lk_locked (q_locks q l) \<Longrightarrow> \<exists>j. holding q j \<and> jb_lock (q_jobs q j) = Some l"
    and "holding q j \<Longrightarrow> holding q k \<Longrightarrow> jb_lock (q_jobs q j) = Some l \<Longrightarrow> jb_lock (q_jobs q k) = Some l \<Longrightarrow> j = k"
  using assms unfolding jobs_inv_def inv_locks_def by blast+

lemma inv_idsD:
  assumes "jobs_inv q"
  shows "dict_wf (q_dict q)"
    and "map_of (q_dict q) i = Some j \<Longrightarrow> jb_id (q_jobs q j) = Some i \<and> j < q_next_job q"
    and "j < q_next_job q \<Longrightarrow> jb_id (q_jobs q j) = Some i \<Longrightarrow> i \<le> q_count q"
    and "j < q_next_job q \<Longrightarrow> k < q_next_job q \<Longrightarrow> jb_id (q_jobs q j) = Some i \<Longrightarrow>
      jb_id (q_jobs q k) = Some i \<Longrightarrow> j = k"
    and "sorted_wrt (<) (map (\<lambda>j. the (jb_id (q_jobs q j))) (q_queue q))"
  using assms unfolding jobs_inv_def inv_ids_def by blast+

lemma inv_lock_lt:
  assumes "jobs_inv q" "in_use q j" "jb_lock (q_jobs q j) = Some l"
  shows "l < q_next_lock q"
  using inv_locksD(2,3) [OF assms(1)] assms(2,3) by blast

section \<open>Steps of a running job\<close>

abbreviation holding_phase :: "phase \<Rightarrow> bool" where
  "holding_phase p \<equiv> p \<in> {Dispatched, Logging, Body, Closing, Crashed}"

text \<open>A task that holds its lock moves on to another phase in which it holds it.\<close>

lemma holder_step:
  assumes inv: "jobs_inv q" and h: "holding q j" and p: "holding_phase p" and ok: "phase_ok p jb"
    and l: "jb_lock jb = jb_lock (q_jobs q j)" and i: "jb_id jb = jb_id (q_jobs q j)"
  shows "jobs_inv (set_phase j p (upd_job j (\<lambda>_. jb) q))"
proof -
  let ?q = "set_phase j p (upd_job j (\<lambda>_. jb) q)"
  have nq: "j \<notin> set (q_queue q)" and lt: "j < q_next_job q"
    using inv_phaseD [OF inv, of j] h by (auto simp: holding_def)
  have hold: "holding ?q k = holding q k" for k
    using h p by (auto simp: holding_def queue_updates)
  have use: "in_use ?q k = in_use q k" for k
    using hold [of k] by (simp add: in_use_def queue_updates)
  have lk: "jb_lock (q_jobs ?q k) = jb_lock (q_jobs q k)" and idk: "jb_id (q_jobs ?q k) = jb_id (q_jobs q k)" for k
    using l i by (auto simp: queue_updates)
  have fr: "q_locks ?q = q_locks q" "q_next_job ?q = q_next_job q" "q_next_lock ?q = q_next_lock q"
    "q_count ?q = q_count q" "q_dict ?q = q_dict q" "q_queue ?q = q_queue q"
    "q_queue_event ?q = q_queue_event q" "q_job_locks ?q = q_job_locks q"
    by (simp_all add: queue_updates)
  have run: "runnable ?q k = runnable q k" for k
    unfolding runnable_def lk fr by (rule refl)
  have "inv_ids ?q = inv_ids q" "inv_locks ?q = inv_locks q" "inv_event ?q = inv_event q"
    unfolding inv_ids_def inv_locks_def inv_event_def fr lk idk hold use run by (rule refl)+
  moreover have "inv_queue ?q"
    using inv nq by (auto simp: jobs_inv_def inv_queue_def queue_updates)
  moreover have "inv_phase ?q"
    using inv ok lt by (auto simp: jobs_inv_def inv_phase_def queue_updates)
  ultimately show ?thesis using inv by (simp add: jobs_inv_def)
qed

lemma same_core_set_phase: "same_core q q' \<Longrightarrow> same_core (set_phase j p q) (set_phase j p q')"
  by (simp add: same_core_def set_phase_def)

lemma set_job_state_Some:
  "set_job_state now s j q = Some q1 \<Longrightarrow>
     q1 = upd_job j (\<lambda>jb. jb\<lparr>jb_state := s,
       jb_time_finished := (if terminal s then Some now else jb_time_finished jb)\<rparr>) q"
  by (auto simp: set_job_state_def set_state_def upd_job_def split: if_splits)

lemma set_job_state_terminal:
  "set_job_state now s j q = Some q1 \<Longrightarrow> terminal s \<Longrightarrow>
     q1 = upd_job j (\<lambda>_. (q_jobs q j)\<lparr>jb_state := s, jb_time_finished := Some now\<rparr>) q"
  by (drule set_job_state_Some) (simp add: upd_job_def)

lemma run_enter_inv:
  assumes inv: "jobs_inv q" and h: "holding q j" and r: "run_enter now j q = Some q'"
    and b: "jb_state (q_jobs q j) = WAITING" "jb_id (q_jobs q j) \<noteq> None"
  shows "jobs_inv q'"
proof (cases "jb_aborted (q_jobs q j)")
  case True
  let ?jb = "(q_jobs q j)\<lparr>jb_state := ABORTED, jb_time_finished := Some now\<rparr>"
  from True r obtain q1 where s: "set_job_state now ABORTED j q = Some q1" and "q' = set_phase j Closing q1"
    by (auto simp: run_enter_def)
  then have q': "q' = set_phase j Closing (upd_job j (\<lambda>_. ?jb) q)"
    using set_job_state_terminal [OF s] by (simp add: terminal_def)
  show ?thesis unfolding q'
    by (rule holder_step [OF inv h]) (use b in \<open>auto simp: phase_ok_def terminal_def\<close>)
next
  case False
  let ?jb = "(q_jobs q j)\<lparr>jb_state := RUNNING, jb_future := True\<rparr>"
  from False r obtain q1 where s: "set_job_state now RUNNING j q = Some q1"
    and q': "q' = set_phase j Body (upd_job j (\<lambda>jb. jb\<lparr>jb_future := True\<rparr>) (send_job_event ''CHANGED'' j q1))"
    by (auto simp: run_enter_def)
  have "jobs_inv (set_phase j Body (upd_job j (\<lambda>_. ?jb) q))"
    by (rule holder_step [OF inv h]) (use b False in \<open>auto simp: phase_ok_def\<close>)
  moreover have "same_core (set_phase j Body (upd_job j (\<lambda>_. ?jb) q)) q'"
    unfolding q' set_job_state_Some [OF s]
    by (auto simp: same_core_def core_of_def queue_updates send_job_event_def)
  ultimately show ?thesis using same_core_inv by blast
qed

lemma holdingD:
  assumes "jobs_inv q" "q_phase q j = p" "p \<in> {Dispatched, Logging}"
  shows "holding q j" and "jb_state (q_jobs q j) = WAITING" and "jb_id (q_jobs q j) \<noteq> None"
    and "\<not> jb_future (q_jobs q j)"
  using inv_phaseD(1) [OF assms(1), of j] assms(2,3) by (auto simp: holding_def phase_ok_def)

lemma run_begin_inv:
  assumes inv: "jobs_inv q" and p: "q_phase q j = Dispatched" and r: "run_begin now j q = Some q'"
  shows "jobs_inv q'"
proof (cases "opt_logs (jb_options (q_jobs q j))")
  case True
  let ?jb = "(q_jobs q j)\<lparr>jb_logs_path := Some (logs_path (q_jobs q j))\<rparr>"
  from True r have q': "q' = set_phase j Logging (upd_job j (\<lambda>_. ?jb) q)"
    by (simp add: run_begin_def upd_job_def)
  show ?thesis unfolding q'
    by (rule holder_step [OF inv]) (use holdingD [OF inv p] in \<open>auto simp: phase_ok_def\<close>)
next
  case False
  with r run_enter_inv [OF inv] holdingD [OF inv p] show ?thesis by (simp add: run_begin_def)
qed

lemma run_logging_started_inv:
  assumes inv: "jobs_inv q" and p: "q_phase q j = Logging" and r: "run_logging_started now j q = Some q'"
  shows "jobs_inv q'"
proof -
  let ?q = "upd_job j (\<lambda>jb. jb\<lparr>jb_logs_fd := True\<rparr>) q"
  have "same_core q ?q" by (rule same_core_upd_job) (simp add: core_of_def)
  then have "jobs_inv ?q" using inv same_core_inv by blast
  moreover have "q_phase ?q j = Logging" using p by (simp add: upd_job_def)
  ultimately show ?thesis
    using run_enter_inv [of ?q j now q'] holdingD [of ?q j Logging] r by (simp add: run_logging_started_def)
qed

lemma run_logging_failed_inv:
  assumes inv: "jobs_inv q" and p: "q_phase q j = Logging"
  shows "jobs_inv (run_logging_failed j q)"
proof -
  have e: "run_logging_failed j q = set_phase j Crashed (upd_job j (\<lambda>_. q_jobs q j) q)"
    by (simp add: run_logging_failed_def upd_job_def)
  show ?thesis unfolding e
    by (rule holder_step [OF inv]) (use holdingD [OF inv p] in \<open>auto simp: phase_ok_def\<close>)
qed

lemma bodyD:
  assumes "jobs_inv q" "q_phase q j = Body"
  shows "holding q j" and "jb_state (q_jobs q j) = RUNNING" and "jb_id (q_jobs q j) \<noteq> None"
  using inv_phaseD(1) [OF assms(1), of j] assms(2) by (auto simp: holding_def phase_ok_def)

lemma body_returned_inv:
  assumes inv: "jobs_inv q" and p: "q_phase q j = Body" and r: "body_returned depth now rv j q = Some q'"
  shows "jobs_inv q'"
proof -
  let ?jb = "(q_jobs q j)\<lparr>jb_result := rv, jb_state := SUCCESS, jb_time_finished := Some now\<rparr>"
  from r obtain q1 where s: "set_job_state now SUCCESS j (upd_job j (\<lambda>jb. jb\<lparr>jb_result := rv\<rparr>) q) = Some q1"
    and r': "q' = set_phase j Closing (if pg_percent (jb_progress (q_jobs q1 j)) \<noteq> 100 then
        snd (set_progress depth j (Some 100) (Some []) PNone q1) else q1)"
    by (auto simp: body_returned_def)
  define q2 where "q2 = (if pg_percent (jb_progress (q_jobs q1 j)) \<noteq> 100 then
    snd (set_progress depth j (Some 100) (Some []) PNone q1) else q1)"
  have q2: "same_core q1 q2"
    by (simp add: q2_def same_core_set_progress)
  have q': "q' = set_phase j Closing q2" using r' by (simp only: q2_def)
  have q1: "q1 = upd_job j (\<lambda>_. ?jb) q"
    using set_job_state_terminal [OF s] by (simp add: terminal_def upd_job_def)
  have "jobs_inv (set_phase j Closing q1)" unfolding q1
    by (rule holder_step [OF inv]) (use bodyD [OF inv p] in \<open>auto simp: phase_ok_def terminal_def\<close>)
  with same_core_set_phase [OF q2] q' show ?thesis using same_core_inv by blast
qed

lemma body_raised_inv:
  assumes inv: "jobs_inv q" and p: "q_phase q j = Body" and r: "body_raised errname trace now e j q = Some q'"
  shows "jobs_inv q'"
proof -
  have "\<exists>jb. q' = set_phase j Closing (upd_job j (\<lambda>_. jb) q) \<and> terminal (jb_state jb) \<and>
      jb_lock jb = jb_lock (q_jobs q j) \<and> jb_id jb = jb_id (q_jobs q j)"
  proof (cases "e = CancelledError \<or> e = JobCancelledException")
    case True
    with r obtain q1 where s: "set_job_state now ABORTED j q = Some q1" and "q' = set_phase j Closing q1"
      by (auto simp: body_raised_def)
    then show ?thesis
      using set_job_state_terminal [OF s]
      by (intro exI [of _ "(q_jobs q j)\<lparr>jb_state := ABORTED, jb_time_finished := Some now\<rparr>"])
         (simp add: terminal_def)
  next
    case False
    with r obtain q1 e' where s: "set_job_state now FAILED j q = Some q1"
      and q': "q' = set_phase j Closing (upd_job j (set_exception errname trace e') q1)"
      by (auto simp: body_raised_def Let_def)
    have "q1 = upd_job j (\<lambda>_. (q_jobs q j)\<lparr>jb_state := FAILED, jb_time_finished := Some now\<rparr>) q"
      using set_job_state_terminal [OF s] by (simp add: terminal_def)
    with q' show ?thesis
      by (intro exI [of _ "set_exception errname trace e' ((q_jobs q j)\<lparr>jb_state := FAILED, jb_time_finished := Some now\<rparr>)"])
         (simp add: upd_job_def set_exception_def terminal_def)
  qed
  then obtain jb where q': "q' = set_phase j Closing (upd_job j (\<lambda>_. jb) q)" and t: "terminal (jb_state jb)"
    and l: "jb_lock jb = jb_lock (q_jobs q j)" "jb_id jb = jb_id (q_jobs q j)" by blast
  show ?thesis unfolding q'
    by (rule holder_step [OF inv]) (use bodyD [OF inv p] t l in \<open>auto simp: phase_ok_def\<close>)
qed

section \<open>Releasing the lock and finishing\<close>

lemma closingD:
  assumes "jobs_inv q" "q_phase q j = Closing"
  shows "holding q j" and "in_use q j" and "terminal (jb_state (q_jobs q j))" and "jb_id (q_jobs q j) \<noteq> None"
  using inv_phaseD(1) [OF assms(1), of j] assms(2) by (auto simp: holding_def in_use_def phase_ok_def)

text \<open>
  What the release leaves, as a queue that is equal to the result but for what the invariant does
  not look at.
\<close>

definition released :: "jref \<Rightarrow> jobs_queue \<Rightarrow> jobs_queue" where
  "released j q =
     (case jb_lock (q_jobs q j) of
        None \<Rightarrow> q
      | Some l \<Rightarrow>
          (let q1 = upd_lock l (\<lambda>lk. lk\<lparr>lk_jobs := lk_jobs lk - {j}, lk_locked := False\<rparr>) q
           in (if lk_jobs (q_locks q l) - {j} = {}
               then q1\<lparr>q_job_locks := AList.delete (lk_name (q_locks q l)) (q_job_locks q)\<rparr> else q1)
              \<lparr>q_queue_event := True\<rparr>))"

lemma release_lock_eq:
  assumes "jobs_inv q" "q_phase q j = Closing"
  shows "release_lock j q = (None, released j q)"
proof (cases "jb_lock (q_jobs q j)")
  case (Some l)
  have "lk_locked (q_locks q l)" "map_of (q_job_locks q) (lk_name (q_locks q l)) = Some l"
    using inv_locksD(3,4) [OF assms(1)] closingD [OF assms] Some by auto
  with Some show ?thesis
    by (simp add: release_lock_def released_def Let_def upd_lock_def)
qed (simp add: release_lock_def released_def)

lemma closing_released:
  assumes "jobs_inv q" "q_phase q j = Closing"
  shows "phase_ok Released (q_jobs q j)" and "j < q_next_job q"
  using closingD [OF assms] inv_holding_lt [OF assms(1)] by (auto simp: phase_ok_def)

lemma released_inv:
  assumes inv: "jobs_inv q" and p: "q_phase q j = Closing"
  shows "jobs_inv (set_phase j Released (released j q))"
proof (cases "jb_lock (q_jobs q j)")
  case None
  let ?q = "set_phase j Released q"
  note L = inv_locksD [OF inv]
  have nq: "j \<notin> set (q_queue q)" using inv_phaseD [OF inv, of j] p by auto
  have hold: "holding ?q k \<longleftrightarrow> holding q k \<and> k \<noteq> j" for k by (auto simp: holding_def set_phase_def)
  have use: "in_use ?q k \<longleftrightarrow> in_use q k \<and> k \<noteq> j" for k
    using hold [of k] nq by (auto simp: in_use_def set_phase_def)
  have fr: "q_jobs ?q = q_jobs q" "q_queue ?q = q_queue q" "q_dict ?q = q_dict q" "q_count ?q = q_count q"
    "q_next_job ?q = q_next_job q" "q_next_lock ?q = q_next_lock q" "q_queue_event ?q = q_queue_event q"
    "q_locks ?q = q_locks q" "q_job_locks ?q = q_job_locks q"
    by (simp_all add: set_phase_def)
  have "runnable ?q k = runnable q k" for k unfolding runnable_def fr by (rule refl)
  then have "inv_ids ?q = inv_ids q" "inv_event ?q = inv_event q"
    unfolding inv_ids_def inv_event_def fr by simp_all
  moreover have "inv_queue ?q"
    using inv nq by (auto simp: jobs_inv_def inv_queue_def set_phase_def)
  moreover have "inv_phase ?q"
    using inv closing_released [OF inv p] by (auto simp: jobs_inv_def inv_phase_def set_phase_def)
  moreover have "inv_locks ?q"
    unfolding inv_locks_def hold use fr
  proof (intro conjI allI impI)
    fix l assume "lk_locked (q_locks q l)"
    with L(5) [OF this] None show "\<exists>k. (holding q k \<and> k \<noteq> j) \<and> jb_lock (q_jobs q k) = Some l" by auto
  qed (use L in blast)+
  ultimately have "jobs_inv ?q" using inv by (simp add: jobs_inv_def)
  with None show ?thesis by (simp add: released_def)
next
  case (Some l)
  let ?q = "set_phase j Released (released j q)"
  note cl = closingD [OF inv p]
  note L = inv_locksD [OF inv]
  have nq: "j \<notin> set (q_queue q)" using inv_phaseD [OF inv, of j] p by auto
  have hold: "holding ?q k \<longleftrightarrow> holding q k \<and> k \<noteq> j" for k
    using Some by (auto simp: holding_def set_phase_def released_def Let_def upd_lock_def)
  have use: "in_use ?q k \<longleftrightarrow> in_use q k \<and> k \<noteq> j" for k
    using hold [of k] nq Some by (auto simp: in_use_def set_phase_def released_def Let_def upd_lock_def)
  have jobs: "q_jobs ?q = q_jobs q" "q_queue ?q = q_queue q" "q_dict ?q = q_dict q" "q_count ?q = q_count q"
    "q_next_job ?q = q_next_job q" "q_next_lock ?q = q_next_lock q" "q_queue_event ?q"
    using Some by (auto simp: set_phase_def released_def Let_def upd_lock_def)
  have locks: "q_locks ?q = (q_locks q)(l := (q_locks q l)\<lparr>lk_jobs := lk_jobs (q_locks q l) - {j}, lk_locked := False\<rparr>)"
    using Some by (auto simp: set_phase_def released_def Let_def upd_lock_def)
  have dict: "q_job_locks ?q = (if lk_jobs (q_locks q l) - {j} = {}
      then AList.delete (lk_name (q_locks q l)) (q_job_locks q) else q_job_locks q)"
    using Some by (auto simp: set_phase_def released_def Let_def upd_lock_def)
  have "inv_queue ?q"
    using inv nq jobs Some
    by (auto simp: jobs_inv_def inv_queue_def set_phase_def released_def Let_def upd_lock_def)
  moreover have "inv_ids ?q" using inv by (simp add: jobs_inv_def inv_ids_def jobs)
  moreover have "inv_event ?q" using jobs by (simp add: inv_event_def)
  moreover have "inv_phase ?q"
    using inv closing_released [OF inv p] Some
    by (auto simp: jobs_inv_def inv_phase_def jobs set_phase_def released_def Let_def upd_lock_def)
  moreover have "inv_locks ?q"
    unfolding inv_locks_def hold use jobs
  proof (intro conjI allI impI)
    show "dict_wf (q_job_locks ?q)" using L(1) by (simp add: dict py_dict.wf_pop)
    fix n l' assume "map_of (q_job_locks ?q) n = Some l'"
    then have "map_of (q_job_locks q) n = Some l'"
      using L(1) by (auto simp: dict py_dict.get_pop split: if_splits)
    then show "lk_name (q_locks ?q l') = n" "l' < q_next_lock q" using L(2) by (auto simp: locks)
  next
    fix k l' assume k: "in_use q k \<and> k \<noteq> j" and l': "jb_lock (q_jobs q k) = Some l'"
    then have k': "k \<in> lk_jobs (q_locks q l')" "map_of (q_job_locks q) (lk_name (q_locks q l')) = Some l'"
      using L(3) by auto
    then show "k \<in> lk_jobs (q_locks ?q l')" using k by (auto simp: locks)
    have "lk_name (q_locks q l') = lk_name (q_locks q l) \<Longrightarrow> l' = l"
      using k'(2) L(3) [OF cl(2) Some] by (metis option.inject)
    then show "map_of (q_job_locks ?q) (lk_name (q_locks ?q l')) = Some l'"
      using k' k L(1) by (auto simp: dict locks py_dict.get_pop)
  next
    fix k l' assume "holding q k \<and> k \<noteq> j" "jb_lock (q_jobs q k) = Some l'"
    then show "lk_locked (q_locks ?q l')" using L(4,6) cl(1) Some by (auto simp: locks)
  next
    fix l' assume "lk_locked (q_locks ?q l')"
    then have "lk_locked (q_locks q l')" "l' \<noteq> l" by (auto simp: locks split: if_splits)
    then show "\<exists>k. (holding q k \<and> k \<noteq> j) \<and> jb_lock (q_jobs q k) = Some l'" using L(5) [of l'] Some by auto
  next
    fix k1 k2 l' assume "holding q k1 \<and> k1 \<noteq> j" "holding q k2 \<and> k2 \<noteq> j"
      "jb_lock (q_jobs q k1) = Some l'" "jb_lock (q_jobs q k2) = Some l'"
    then show "k1 = k2" using L(6) by blast
  qed
  ultimately show ?thesis by (simp add: jobs_inv_def)
qed

lemma run_close_inv:
  assumes inv: "jobs_inv q" and p: "q_phase q j = Closing"
  shows "\<exists>q'. run_close file j q = Inr q' \<and> jobs_inv q'"
proof -
  let ?q = "upd_job j (close_logs file) q"
  have "same_core q ?q" by (rule same_core_upd_job) (simp add: core_of_def close_logs_def)
  then have i: "jobs_inv ?q" using inv same_core_inv by blast
  have p': "q_phase ?q j = Closing" using p by (simp add: upd_job_def)
  let ?q' = "set_phase j Released (upd_job j (\<lambda>jb. jb\<lparr>jb_finished := True\<rparr>) (released j ?q))"
  have "run_close file j q = Inr ?q'" by (simp add: run_close_def release_lock_eq [OF i p'])
  moreover have "same_core (set_phase j Released (released j ?q)) ?q'"
    by (rule same_core_set_phase, rule same_core_upd_job) (simp add: core_of_def)
  ultimately show ?thesis using released_inv [OF i p'] same_core_inv by blast
qed

text \<open>Forgetting a job that is not queued.\<close>

lemma deque_remove_inv:
  assumes inv: "jobs_inv q" and i: "jb_id (q_jobs q j) = Some i" and j: "j < q_next_job q" "j \<notin> set (q_queue q)"
  shows "jobs_inv (deque_remove i q)"
proof -
  let ?q = "deque_remove i q"
  note I = inv_idsD [OF inv]
  have fr: "q_jobs ?q = q_jobs q" "q_queue ?q = q_queue q" "q_count ?q = q_count q" "q_phase ?q = q_phase q"
    "q_next_job ?q = q_next_job q" "q_next_lock ?q = q_next_lock q" "q_queue_event ?q = q_queue_event q"
    "q_locks ?q = q_locks q" "q_job_locks ?q = q_job_locks q"
    by (simp_all add: deque_remove_def)
  have dict: "map_of (q_dict ?q) k = (if k = i then None else map_of (q_dict q) k)" for k
    using I(1) by (simp add: deque_remove_def py_dict.get_pop)
  have h: "holding ?q k = holding q k" "in_use ?q k = in_use q k" "runnable ?q k = runnable q k" for k
    unfolding holding_def in_use_def runnable_def fr by (rule refl)+
  have "inv_phase ?q = inv_phase q" "inv_locks ?q = inv_locks q" "inv_event ?q = inv_event q"
    unfolding inv_phase_def inv_locks_def inv_event_def fr h by (rule refl)+
  moreover have "inv_ids ?q"
    using I unfolding inv_ids_def fr dict
    by (simp add: deque_remove_def py_dict.wf_pop)
  moreover have "inv_queue ?q"
    unfolding inv_queue_def fr dict
  proof (intro conjI allI impI)
    show "distinct (q_queue q)" using inv by (simp add: jobs_inv_def inv_queue_def)
    fix k assume k: "k \<in> set (q_queue q)"
    note K = inv_queueD [OF inv k]
    obtain ik where ik: "jb_id (q_jobs q k) = Some ik" "map_of (q_dict q) ik = Some k" using K(4) by blast
    have "ik \<noteq> i" using I(4) [OF j(1) K(5) i] ik(1) k j(2) by auto
    with ik show "\<exists>i'. jb_id (q_jobs q k) = Some i' \<and> (if i' = i then None else map_of (q_dict q) i') = Some k"
      by auto
    show "q_phase q k = Fresh" "jb_state (q_jobs q k) = WAITING" "\<not> jb_future (q_jobs q k)" using K by auto
  qed
  ultimately show ?thesis using inv by (simp add: jobs_inv_def)
qed

lemma done_inv:
  assumes inv: "jobs_inv q" and p: "q_phase q j = Released"
  shows "jobs_inv (set_phase j Done q)"
proof -
  let ?q = "set_phase j Done q"
  have j: "phase_ok Released (q_jobs q j)" "j < q_next_job q" "j \<notin> set (q_queue q)"
    using inv_phaseD [OF inv, of j] p by auto
  have h: "holding ?q k = holding q k" for k using p by (simp add: holding_def set_phase_def)
  have fr: "q_jobs ?q = q_jobs q" "q_queue ?q = q_queue q" "q_dict ?q = q_dict q" "q_count ?q = q_count q"
    "q_next_job ?q = q_next_job q" "q_next_lock ?q = q_next_lock q" "q_queue_event ?q = q_queue_event q"
    "q_locks ?q = q_locks q" "q_job_locks ?q = q_job_locks q"
    by (simp_all add: set_phase_def)
  have u: "in_use ?q k = in_use q k" "runnable ?q k = runnable q k" for k
    unfolding in_use_def runnable_def fr h by (rule refl)+
  have "inv_ids ?q = inv_ids q" "inv_locks ?q = inv_locks q" "inv_event ?q = inv_event q"
    unfolding inv_ids_def inv_locks_def inv_event_def fr h u by (rule refl)+
  moreover have "inv_queue ?q" using inv j by (auto simp: jobs_inv_def inv_queue_def set_phase_def)
  moreover have "inv_phase ?q" using inv j by (auto simp: jobs_inv_def inv_phase_def set_phase_def phase_ok_def)
  ultimately show ?thesis using inv by (simp add: jobs_inv_def)
qed

lemma run_finish_inv:
  assumes inv: "jobs_inv q" and p: "q_phase q j = Released"
  shows "\<exists>q'. run_finish j q = Inr q' \<and> jobs_inv q'"
proof -
  let ?q1 = "send_job_event ''CHANGED'' j (upd_job j (\<lambda>jb. jb\<lparr>jb_on_finish_cb_called := True\<rparr>) q)"
  have "same_core q (upd_job j (\<lambda>jb. jb\<lparr>jb_on_finish_cb_called := True\<rparr>) q)"
    by (rule same_core_upd_job) (simp add: core_of_def)
  then have c: "same_core q ?q1" using same_core_event same_core_trans by blast
  have i1: "jobs_inv ?q1" using same_core_inv [OF c inv] .
  have p1: "q_phase ?q1 j = Released" using c p by (simp add: same_core_def)
  obtain i where i: "jb_id (q_jobs ?q1 j) = Some i"
    using inv_phaseD(1) [OF i1, of j] p1 by (auto simp: phase_ok_def)
  have r: "jobs_inv (deque_remove i ?q1)"
    by (rule deque_remove_inv [OF i1 i]) (use inv_phaseD [OF i1, of j] p1 in auto)
  have pr: "q_phase (deque_remove i ?q1) j = Released" using p1 by (simp add: deque_remove_def)
  show ?thesis
    using i done_inv [OF i1 p1] done_inv [OF r pr] by (simp add: run_finish_def Let_def)
qed

section \<open>New, received and aborted jobs\<close>

text \<open>A new object takes the next reference, which nothing refers to yet.\<close>

lemma fresh_job_inv:
  assumes inv: "jobs_inv q" and jb: "phase_ok Fresh jb"
    and i: "\<And>i. jb_id jb = Some i \<Longrightarrow> i = Suc (q_count q)"
    and d: "d = (case jb_id jb of None \<Rightarrow> q_dict q | Some i \<Rightarrow> AList.update i (q_next_job q) (q_dict q))"
    and c: "c = (case jb_id jb of None \<Rightarrow> q_count q | Some i \<Rightarrow> i)"
  shows "jobs_inv (q\<lparr>q_jobs := (q_jobs q)(q_next_job q := jb), q_next_job := Suc (q_next_job q), q_dict := d, q_count := c\<rparr>)"
    (is "jobs_inv ?q")
proof -
  let ?j = "q_next_job q"
  note I = inv_idsD [OF inv]
  have ph: "q_phase q ?j = Fresh" using inv by (simp add: jobs_inv_def inv_phase_def)
  have nq: "?j \<notin> set (q_queue q)" using inv_queueD(5) [OF inv] by auto
  have nu: "\<not> in_use q ?j" using nq ph by (simp add: in_use_def holding_def)
  have nh: "holding q k \<Longrightarrow> k \<noteq> ?j" for k using ph by (auto simp: holding_def)
  have h: "holding ?q k = holding q k" "in_use ?q k = in_use q k" for k by (simp_all add: holding_def in_use_def)
  have old: "q_jobs ?q k = q_jobs q k" if "k \<noteq> ?j" for k using that by simp
  have run: "runnable ?q k = runnable q k" if "k \<in> set (q_queue q)" for k
    using that nq by (auto simp: runnable_def split: option.split)
  have ids: "map_of (q_dict q) k = Some m \<Longrightarrow> k \<le> q_count q" for k m using I(2,3) by blast
  have dict: "map_of d k = map_of (q_dict q) k" if "k \<le> q_count q" for k
    using that i d by (auto simp: py_dict.get_put split: option.split)
  have "inv_queue ?q"
    unfolding inv_queue_def
  proof (intro conjI allI impI)
    show "distinct (q_queue ?q)" using inv by (simp add: jobs_inv_def inv_queue_def)
    fix k assume "k \<in> set (q_queue ?q)"
    then have k: "k \<in> set (q_queue q)" "k \<noteq> ?j" using nq by auto
    note K = inv_queueD [OF inv k(1)]
    show "q_phase ?q k = Fresh" "jb_state (q_jobs ?q k) = WAITING" "\<not> jb_future (q_jobs ?q k)"
      using K k by auto
    show "\<exists>i. jb_id (q_jobs ?q k) = Some i \<and> map_of (q_dict ?q) i = Some k"
      using K(4) k(2) ids dict by auto
  qed
  moreover have "inv_ids ?q"
  proof -
    have q: "map (\<lambda>j. the (jb_id (q_jobs ?q j))) (q_queue ?q) = map (\<lambda>j. the (jb_id (q_jobs q j))) (q_queue q)"
      using nq by auto
    show ?thesis
      unfolding inv_ids_def q
    proof (intro conjI allI impI)
      show "dict_wf (q_dict ?q)" using I(1) d by (simp add: py_dict.wf_put split: option.split)
      show "jb_id (q_jobs ?q k) = Some i'" "k < q_next_job ?q" if "map_of (q_dict ?q) i' = Some k" for i' k
        using I(2) [of i' k] d that by (cases "jb_id jb"; auto simp: py_dict.get_put split: if_splits)+
      show "i' \<le> q_count ?q" if "k < q_next_job ?q" "jb_id (q_jobs ?q k) = Some i'" for k i'
        using I(3) [of k i'] i c that by (cases "k = ?j") (auto split: option.splits intro: le_SucI)
      show "k = m" if "k < q_next_job ?q" "m < q_next_job ?q" "jb_id (q_jobs ?q k) = Some i'"
        "jb_id (q_jobs ?q m) = Some i'" for k m i'
        using I(3) [of k i'] I(3) [of m i'] I(4) [of k m i'] i that
        by (cases "k = ?j"; cases "m = ?j") auto
    qed (rule I(5))
  qed
  moreover have "inv_phase ?q"
    using inv ph jb by (auto simp: jobs_inv_def inv_phase_def less_Suc_eq)
  moreover have "inv_locks ?q"
    unfolding inv_locks_def h
  proof (intro conjI allI impI)
    note L = inv_locksD [OF inv]
    show "dict_wf (q_job_locks ?q)" using L(1) by simp
    show "map_of (q_job_locks ?q) n = Some l \<Longrightarrow> lk_name (q_locks ?q l) = n"
      "map_of (q_job_locks ?q) n = Some l \<Longrightarrow> l < q_next_lock ?q" for n l using L(2) by auto
    show "k \<in> lk_jobs (q_locks ?q l)" "map_of (q_job_locks ?q) (lk_name (q_locks ?q l)) = Some l"
      if "in_use q k" "jb_lock (q_jobs ?q k) = Some l" for k l
      using L(3) [of k l] that nu by (cases "k = ?j"; simp)+
    show "lk_locked (q_locks ?q l)" if "holding q k" "jb_lock (q_jobs ?q k) = Some l" for k l
      using L(4) [of k l] that nh [of k] by simp
    show "\<exists>k. holding q k \<and> jb_lock (q_jobs ?q k) = Some l" if "lk_locked (q_locks ?q l)" for l
      using L(5) [of l] that nh by auto
    show "k = m" if "holding q k" "holding q m" "jb_lock (q_jobs ?q k) = Some l" "jb_lock (q_jobs ?q m) = Some l" for k m l
      using L(6) [of k m l] that nh [of k] nh [of m] by simp
  qed
  moreover have "inv_event ?q"
    using inv run by (simp add: jobs_inv_def inv_event_def)
  ultimately show ?thesis by (simp add: jobs_inv_def)
qed

lemma new_job_inv:
  assumes inv: "jobs_inv q" and n: "new_job now method_name coroutine args options open_pipes silent app message_id q = (r, q')"
  shows "jobs_inv q'"
proof (cases "\<exists>e. r = Inl e")
  case True
  with n inv show ?thesis by (auto simp: new_job_def split: list.splits)
next
  case False
  let ?jb = "new_job_record now method_name coroutine args options open_pipes silent app message_id"
  from False n have q': "q' = q\<lparr>q_jobs := (q_jobs q)(q_next_job q := ?jb), q_next_job := Suc (q_next_job q)\<rparr>"
    by (auto simp: new_job_def split: list.splits)
  have "jobs_inv (q\<lparr>q_jobs := (q_jobs q)(q_next_job q := ?jb), q_next_job := Suc (q_next_job q),
      q_dict := q_dict q, q_count := q_count q\<rparr>)"
    by (rule fresh_job_inv [OF inv]) (simp_all add: new_job_record_def phase_ok_def)
  then show ?thesis by (simp add: q')
qed

lemma count_inv:
  assumes "jobs_inv q"
  shows "jobs_inv (q\<lparr>q_count := Suc (q_count q)\<rparr>)" (is "jobs_inv ?q")
proof -
  have h: "holding ?q k = holding q k" "in_use ?q k = in_use q k" "runnable ?q k = runnable q k" for k
    by (auto simp: holding_def in_use_def runnable_def split: option.split)
  have "inv_queue ?q = inv_queue q" "inv_phase ?q = inv_phase q" "inv_locks ?q = inv_locks q" "inv_event ?q = inv_event q"
    unfolding inv_queue_def inv_phase_def inv_locks_def inv_event_def h by simp_all
  moreover have "inv_ids ?q"
    using inv_idsD [OF assms] by (auto simp: inv_ids_def intro: le_SucI)
  ultimately show ?thesis using assms by (simp add: jobs_inv_def)
qed

lemma receive_inv:
  assumes inv: "jobs_inv q"
  shows "jobs_inv (snd (deque_receive now services d logs q))"
proof (cases "services (jd_method d)")
  case None
  with count_inv [OF inv] show ?thesis by (simp add: deque_receive_def)
next
  case (Some co)
  obtain coroutine options where s: "services (jd_method d) = Some (coroutine, options)" using Some by (cases co) auto
  let ?new = "new_job_record now (jd_method d) coroutine (jd_arguments d) options [] False None None"
  let ?jb = "receive_fields d logs (Suc (q_count q)) ?new"
  let ?start = "q\<lparr>q_count := Suc (q_count q)\<rparr>"
  obtain r q1 where n: "new_job now (jd_method d) coroutine (jd_arguments d) options [] False None None ?start = (r, q1)"
    by (cases "new_job now (jd_method d) coroutine (jd_arguments d) options [] False None None ?start")
  show ?thesis
  proof (cases r)
    case (Inl e)
    with s n new_job_inv [OF count_inv [OF inv] n] show ?thesis by (simp add: deque_receive_def)
  next
    case (Inr j)
    have q1: "j = q_next_job q" "q1 = ?start\<lparr>q_jobs := (q_jobs q)(q_next_job q := ?new), q_next_job := Suc (q_next_job q)\<rparr>"
      using n Inr unfolding new_job_def by (force split: list.splits)+
    have "jobs_inv (q\<lparr>q_jobs := (q_jobs q)(q_next_job q := ?jb), q_next_job := Suc (q_next_job q),
        q_dict := AList.update (Suc (q_count q)) (q_next_job q) (q_dict q), q_count := Suc (q_count q)\<rparr>)"
      by (rule fresh_job_inv [OF inv]) (simp_all add: phase_ok_def receive_fields_def Let_def)
    moreover have "snd (deque_receive now services d logs q) =
      q\<lparr>q_jobs := (q_jobs q)(q_next_job q := ?jb), q_next_job := Suc (q_next_job q),
        q_dict := AList.update (Suc (q_count q)) (q_next_job q) (q_dict q), q_count := Suc (q_count q)\<rparr>"
      using s n Inr q1 by (simp add: deque_receive_def upd_job_def)
    ultimately show ?thesis by simp
  qed
qed

lemma abort_inv:
  assumes inv: "jobs_inv q"
  shows "jobs_inv (abort j q)"
proof -
  let ?q = "abort j q"
  have e: "jb_state (q_jobs ?q k) = jb_state (q_jobs q k)" "jb_lock (q_jobs ?q k) = jb_lock (q_jobs q k)"
    "jb_id (q_jobs ?q k) = jb_id (q_jobs q k)" "jb_future (q_jobs ?q k) = jb_future (q_jobs q k)" for k
    by (auto simp: abort_def upd_job_def)
  have fr: "q_queue ?q = q_queue q" "q_dict ?q = q_dict q" "q_count ?q = q_count q" "q_phase ?q = q_phase q"
    "q_next_job ?q = q_next_job q" "q_next_lock ?q = q_next_lock q" "q_queue_event ?q = q_queue_event q"
    "q_locks ?q = q_locks q" "q_job_locks ?q = q_job_locks q"
    by (simp_all add: abort_def upd_job_def)
  have h: "holding ?q k = holding q k" "in_use ?q k = in_use q k" "runnable ?q k = runnable q k" for k
    unfolding holding_def in_use_def runnable_def fr e by (rule refl)+
  have "inv_queue ?q = inv_queue q" "inv_ids ?q = inv_ids q" "inv_locks ?q = inv_locks q" "inv_event ?q = inv_event q"
    unfolding inv_queue_def inv_ids_def inv_locks_def inv_event_def fr e h by (rule refl)+
  moreover have "phase_ok p (q_jobs ?q k)" if "phase_ok p (q_jobs q k)" for p k
    using that by (cases p) (auto simp: phase_ok_def abort_def upd_job_def)
  then have "inv_phase ?q" using inv by (simp add: jobs_inv_def inv_phase_def fr)
  ultimately show ?thesis using inv by (simp add: jobs_inv_def)
qed

section \<open>Submitting a job\<close>

text \<open>Changing a job that is neither queued nor running, and the store of locks.\<close>

lemma unused_job_inv:
  assumes inv: "jobs_inv q" and u: "\<not> in_use q j" and i: "jb_id jb = jb_id (q_jobs q j)"
    and ok: "phase_ok (q_phase q j) jb"
  shows "jobs_inv (upd_job j (\<lambda>_. jb) q)"
proof -
  let ?q = "upd_job j (\<lambda>_. jb) q"
  have fr: "q_queue ?q = q_queue q" "q_dict ?q = q_dict q" "q_count ?q = q_count q" "q_phase ?q = q_phase q"
    "q_next_job ?q = q_next_job q" "q_next_lock ?q = q_next_lock q" "q_queue_event ?q = q_queue_event q"
    "q_locks ?q = q_locks q" "q_job_locks ?q = q_job_locks q"
    by (simp_all add: upd_job_def)
  have h: "holding ?q k = holding q k" "in_use ?q k = in_use q k" for k
    unfolding holding_def in_use_def fr by (rule refl)+
  have ids: "jb_id (q_jobs ?q k) = jb_id (q_jobs q k)" for k using i by (simp add: upd_job_def)
  have used: "q_jobs ?q k = q_jobs q k" if "in_use q k" for k using that u by (auto simp: upd_job_def)
  have held: "q_jobs ?q k = q_jobs q k" if "holding q k" for k using that used by (simp add: in_use_def)
  note L = inv_locksD [OF inv]
  have "inv_ids ?q = inv_ids q" unfolding inv_ids_def fr ids by (rule refl)
  moreover have "inv_queue ?q"
    using inv used unfolding jobs_inv_def inv_queue_def fr by (simp add: in_use_def)
  moreover have "inv_phase ?q"
    using inv ok by (auto simp: jobs_inv_def inv_phase_def upd_job_def)
  moreover have "inv_event ?q"
    using inv used unfolding jobs_inv_def inv_event_def fr runnable_def by (simp add: in_use_def)
  moreover have "inv_locks ?q"
    unfolding inv_locks_def fr h
  proof (intro conjI allI impI)
    show "k \<in> lk_jobs (q_locks q l)" "map_of (q_job_locks q) (lk_name (q_locks q l)) = Some l"
      if "in_use q k" "jb_lock (q_jobs ?q k) = Some l" for k l using that L(3) used by auto
    show "lk_locked (q_locks q l)" if "holding q k" "jb_lock (q_jobs ?q k) = Some l" for k l
      using that L(4) held by auto
    show "\<exists>k. holding q k \<and> jb_lock (q_jobs ?q k) = Some l" if "lk_locked (q_locks q l)" for l
      using L(5) [OF that] held by auto
    show "k = m" if "holding q k" "holding q m" "jb_lock (q_jobs ?q k) = Some l" "jb_lock (q_jobs ?q m) = Some l" for k m l
      using that L(6) held by auto
  qed (use L in auto)
  ultimately show ?thesis using inv by (simp add: jobs_inv_def)
qed

lemma lock_member_inv:
  assumes inv: "jobs_inv q"
  shows "jobs_inv (upd_lock l (\<lambda>lk. lk\<lparr>lk_jobs := insert j (lk_jobs lk)\<rparr>) q)"
proof -
  let ?q = "upd_lock l (\<lambda>lk. lk\<lparr>lk_jobs := insert j (lk_jobs lk)\<rparr>) q"
  have fr: "q_jobs ?q = q_jobs q" "q_queue ?q = q_queue q" "q_dict ?q = q_dict q" "q_count ?q = q_count q" "q_phase ?q = q_phase q"
    "q_next_job ?q = q_next_job q" "q_next_lock ?q = q_next_lock q" "q_queue_event ?q = q_queue_event q" "q_job_locks ?q = q_job_locks q"
    by (simp_all add: upd_lock_def)
  have lk: "lk_name (q_locks ?q k) = lk_name (q_locks q k)" "lk_locked (q_locks ?q k) = lk_locked (q_locks q k)"
    and mem: "m \<in> lk_jobs (q_locks q k) \<Longrightarrow> m \<in> lk_jobs (q_locks ?q k)" for k m
    by (auto simp: upd_lock_def)
  have h: "holding ?q k = holding q k" "in_use ?q k = in_use q k" "runnable ?q k = runnable q k" for k
    unfolding holding_def in_use_def runnable_def fr lk by (rule refl)+
  have "inv_queue ?q = inv_queue q" "inv_ids ?q = inv_ids q" "inv_phase ?q = inv_phase q" "inv_event ?q = inv_event q"
    unfolding inv_queue_def inv_ids_def inv_phase_def inv_event_def fr h by (rule refl)+
  moreover have "inv_locks ?q"
    using inv_locksD [OF inv] unfolding inv_locks_def fr h lk by (blast intro: mem)
  ultimately show ?thesis using inv by (simp add: jobs_inv_def)
qed

lemma new_lock_inv:
  assumes inv: "jobs_inv q" and n: "map_of (q_job_locks q) name = None" and l: "l = q_next_lock q"
  shows "jobs_inv (q\<lparr>q_next_lock := Suc l,
    q_locks := (q_locks q)(l := \<lparr>lk_name = name, lk_jobs = {}, lk_locked = False\<rparr>),
    q_job_locks := AList.update name l (q_job_locks q)\<rparr>)" (is "jobs_inv ?q")
proof -
  note L = inv_locksD [OF inv]
  have fr: "q_jobs ?q = q_jobs q" "q_queue ?q = q_queue q" "q_dict ?q = q_dict q" "q_count ?q = q_count q" "q_phase ?q = q_phase q"
    "q_next_job ?q = q_next_job q" "q_queue_event ?q = q_queue_event q"
    by simp_all
  have h: "holding ?q k = holding q k" "in_use ?q k = in_use q k" for k
    unfolding holding_def in_use_def fr by (rule refl)+
  have old: "k \<noteq> l" if "in_use q j" "jb_lock (q_jobs q j) = Some k" for j k
    using inv_lock_lt [OF inv that] l by simp
  have held: "k \<noteq> l" if "holding q j" "jb_lock (q_jobs q j) = Some k" for j k
    using old that by (auto simp: in_use_def)
  have unl: "\<not> lk_locked (q_locks q l)" using L(5) held by blast
  have "inv_queue ?q = inv_queue q" "inv_ids ?q = inv_ids q" "inv_phase ?q = inv_phase q"
    unfolding inv_queue_def inv_ids_def inv_phase_def fr by (rule refl)+
  moreover have "runnable ?q k = runnable q k" if "k \<in> set (q_queue q)" for k
    using old [of k] that by (auto simp: runnable_def in_use_def split: option.split)
  then have "inv_event ?q" using inv by (simp add: jobs_inv_def inv_event_def)
  moreover have "inv_locks ?q"
    unfolding inv_locks_def h fr
  proof (intro conjI allI impI)
    show "dict_wf (q_job_locks ?q)" using L(1) by (simp add: py_dict.wf_put)
    show "lk_name (q_locks ?q k) = m" "k < q_next_lock ?q" if "map_of (q_job_locks ?q) m = Some k" for m k
      using that L(2) [of m k] l by (auto simp: py_dict.get_put split: if_splits)
    show "j \<in> lk_jobs (q_locks ?q k)" "map_of (q_job_locks ?q) (lk_name (q_locks ?q k)) = Some k"
      if "in_use q j" "jb_lock (q_jobs q j) = Some k" for j k
      using L(3) [OF that] old [OF that] n by (auto simp: py_dict.get_put)
    show "lk_locked (q_locks ?q k)" if "holding q j" "jb_lock (q_jobs q j) = Some k" for j k
      using L(4) [OF that] held [OF that] by simp
    show "\<exists>j. holding q j \<and> jb_lock (q_jobs q j) = Some k" if "lk_locked (q_locks ?q k)" for k
      using L(5) [of k] that by (simp split: if_splits)
    show "j = m" if "holding q j" "holding q m" "jb_lock (q_jobs q j) = Some k" "jb_lock (q_jobs q m) = Some k" for j m k
      using that L(6) by blast
  qed
  ultimately show ?thesis using inv by (simp add: jobs_inv_def)
qed

text \<open>The job's lock, if it has one, is registered under its name and knows the job.\<close>

definition lock_ready :: "jobs_queue \<Rightarrow> jref \<Rightarrow> bool" where
  "lock_ready q j \<longleftrightarrow>
     (\<forall>l. jb_lock (q_jobs q j) = Some l \<longrightarrow>
        j \<in> lk_jobs (q_locks q l) \<and> map_of (q_job_locks q) (lk_name (q_locks q l)) = Some l)"

lemma handle_lock_inv:
  assumes inv: "jobs_inv q" and i: "jb_id (q_jobs q j) = None" "j < q_next_job q" "jb_lock (q_jobs q j) = None"
    and hl: "handle_lock j q = (e, q1)"
  shows "jobs_inv q1 \<and> jb_id (q_jobs q1 j) = None \<and> j < q_next_job q1 \<and> (e = None \<longrightarrow> lock_ready q1 j)"
proof (cases "get_lock_name (q_jobs q j)")
  case (Inl err)
  with assms show ?thesis by (auto simp: handle_lock_def)
next
  case (Inr nm)
  show ?thesis
  proof (cases nm)
    case None
    with assms Inr show ?thesis by (auto simp: handle_lock_def lock_ready_def)
  next
    case (Some name)
    define lq where "lq = (case map_of (q_job_locks q) name of
        Some l \<Rightarrow> (l, q)
      | None \<Rightarrow> (q_next_lock q, q\<lparr>q_next_lock := Suc (q_next_lock q),
          q_locks := (q_locks q)(q_next_lock q := \<lparr>lk_name = name, lk_jobs = {}, lk_locked = False\<rparr>),
          q_job_locks := AList.update name (q_next_lock q) (q_job_locks q)\<rparr>))"
    obtain l q0 where lq: "lq = (l, q0)" by (cases lq)
    have q0: "jobs_inv q0" "q_jobs q0 = q_jobs q" "q_next_job q0 = q_next_job q"
      "map_of (q_job_locks q0) name = Some l" "lk_name (q_locks q0 l) = name"
      using lq inv new_lock_inv [OF inv, of name] inv_locksD(2) [OF inv, of name l]
      by (auto simp: lq_def py_dict.get_put split: option.splits)
    let ?q2 = "upd_lock l (\<lambda>lk. lk\<lparr>lk_jobs := insert j (lk_jobs lk)\<rparr>) q0"
    have i2: "jobs_inv ?q2" by (rule lock_member_inv [OF q0(1)])
    have j2: "jb_id (q_jobs ?q2 j) = None" "j < q_next_job ?q2" using i q0 by (simp_all add: upd_lock_def)
    note un = inv_unused [OF i2 j2]
    have q1: "q1 = upd_job j (\<lambda>_. (q_jobs ?q2 j)\<lparr>jb_lock := Some l\<rparr>) ?q2" "e = None"
      using hl Inr Some lq by (auto simp: handle_lock_def lq_def Let_def upd_job_def split: option.splits)
    have "jobs_inv q1" unfolding q1
      by (rule unused_job_inv [OF i2 un(1)]) (use un j2 in \<open>auto simp: phase_ok_def\<close>)
    then show ?thesis
      using j2 q0 q1 by (auto simp: lock_ready_def upd_job_def upd_lock_def)
  qed
qed

lemma first_finished_in:
  "first_finished jobs d = Some i \<Longrightarrow> \<exists>k. (i, k) \<in> set d \<and> terminal (jb_state (jobs k))"
  by (induction jobs d rule: first_finished.induct) (auto split: if_splits)

lemma first_finished_Some:
  assumes "first_finished jobs d = Some i" "dict_wf d"
  shows "\<exists>k. map_of d i = Some k \<and> terminal (jb_state (jobs k))"
  using first_finished_in [OF assms(1)] assms(2) by (auto simp: dict_wf_def intro: map_of_is_SomeI)

lemma enqueue_inv:
  assumes inv: "jobs_inv q" and i: "jb_id (q_jobs q j) = None" "j < q_next_job q" and lr: "lock_ready q j"
  shows "jobs_inv (enqueue j q)"
proof -
  let ?q = "enqueue j q" and ?i = "Suc (q_count q)"
  note I = inv_idsD [OF inv] and L = inv_locksD [OF inv] and un = inv_unused [OF inv i]
  define q1 where "q1 = upd_job j (\<lambda>jb. jb\<lparr>jb_id := Some ?i\<rparr>) (q\<lparr>q_count := ?i\<rparr>)"
  define d where "d = (if length (q_dict q) > q_maxlen q then
      (case first_finished (q_jobs q1) (q_dict q) of Some old \<Rightarrow> AList.delete old (q_dict q) | None \<Rightarrow> q_dict q)
      else q_dict q)"
  have fr: "q_queue ?q = q_queue q @ [j]" "q_count ?q = ?i" "q_phase ?q = q_phase q" "q_next_job ?q = q_next_job q"
    "q_next_lock ?q = q_next_lock q" "q_queue_event ?q" "q_job_locks ?q = q_job_locks q" "q_locks ?q = q_locks q"
    by (auto simp: enqueue_def deque_add_def Let_def upd_job_def deque_remove_def send_job_event_def split: option.split)
  have jobs: "q_jobs ?q k = (if k = j then (q_jobs q j)\<lparr>jb_id := Some ?i\<rparr> else q_jobs q k)" for k
    by (auto simp: enqueue_def deque_add_def Let_def upd_job_def deque_remove_def send_job_event_def split: option.split)
  have dict: "q_dict ?q = AList.update ?i j d"
    by (auto simp: enqueue_def deque_add_def Let_def upd_job_def deque_remove_def send_job_event_def d_def q1_def
        split: option.split)
  have d_wf: "dict_wf d" using I(1) by (simp add: d_def py_dict.wf_pop split: option.split)
  have d_sub: "map_of d k = Some m \<Longrightarrow> map_of (q_dict q) k = Some m" for k m
    using I(1) by (auto simp: d_def py_dict.get_pop split: if_splits option.splits)
  have d_keep: "map_of d k = Some m" if "map_of (q_dict q) k = Some m" "jb_state (q_jobs q m) = WAITING" for k m
  proof -
    have "jb_state (q_jobs q1 m) = WAITING" using that by (auto simp: q1_def upd_job_def)
    then have "first_finished (q_jobs q1) (q_dict q) \<noteq> Some k"
      using first_finished_Some [of "q_jobs q1" "q_dict q" k] I(1) that(1) by (auto simp: terminal_def)
    then show ?thesis using that I(1) by (auto simp: d_def py_dict.get_pop split: option.split)
  qed
  have nq: "j \<notin> set (q_queue q)" and nh: "\<not> holding q j" using un(1) by (auto simp: in_use_def)
  have d_le: "map_of d k = Some m \<Longrightarrow> k \<le> q_count q" for k m using d_sub I(2,3) by blast
  have h: "holding ?q k = holding q k" for k by (simp add: holding_def fr)
  have use: "in_use ?q k \<longleftrightarrow> in_use q k \<or> k = j" for k by (auto simp: in_use_def h fr)
  have lk: "jb_lock (q_jobs ?q k) = jb_lock (q_jobs q k)" for k by (simp add: jobs)
  have "inv_queue ?q"
    unfolding inv_queue_def
  proof (intro conjI allI impI)
    show "distinct (q_queue ?q)" using inv nq by (simp add: fr jobs_inv_def inv_queue_def)
    fix k assume "k \<in> set (q_queue ?q)"
    then consider "k = j" | "k \<in> set (q_queue q)" "k \<noteq> j" using nq by (auto simp: fr)
    then have "q_phase ?q k = Fresh \<and> jb_state (q_jobs ?q k) = WAITING \<and> \<not> jb_future (q_jobs ?q k) \<and>
        (\<exists>i. jb_id (q_jobs ?q k) = Some i \<and> map_of (q_dict ?q) i = Some k)"
    proof cases
      case 1
      then show ?thesis using un by (simp add: fr jobs dict py_dict.get_put)
    next
      case 2
      note K = inv_queueD [OF inv 2(1)]
      obtain ik where ik: "jb_id (q_jobs q k) = Some ik" "map_of (q_dict q) ik = Some k" using K(4) by blast
      then have "map_of d ik = Some k" using d_keep K(2) by blast
      with ik K 2 show ?thesis using d_le [of ik k] by (auto simp: fr jobs dict py_dict.get_put)
    qed
    then show "q_phase ?q k = Fresh" "jb_state (q_jobs ?q k) = WAITING" "\<not> jb_future (q_jobs ?q k)"
      "\<exists>i. jb_id (q_jobs ?q k) = Some i \<and> map_of (q_dict ?q) i = Some k" by auto
  qed
  moreover have "inv_ids ?q"
    unfolding inv_ids_def
  proof (intro conjI allI impI)
    show "dict_wf (q_dict ?q)" using d_wf by (simp add: dict py_dict.wf_put)
    show "jb_id (q_jobs ?q m) = Some k" "m < q_next_job ?q" if "map_of (q_dict ?q) k = Some m" for k m
      using that d_sub [of k m] I(2) [of k m] i by (auto simp: dict py_dict.get_put jobs fr split: if_splits)
    show "k \<le> q_count ?q" if "m < q_next_job ?q" "jb_id (q_jobs ?q m) = Some k" for k m
      using that I(3) [of m k] by (auto simp: jobs fr split: if_splits)
    show "m = m'" if "m < q_next_job ?q" "m' < q_next_job ?q" "jb_id (q_jobs ?q m) = Some k"
      "jb_id (q_jobs ?q m') = Some k" for k m m'
      using that I(3) [of m k] I(3) [of m' k] I(4) [of m m' k] by (auto simp: jobs fr split: if_splits)
    have lt: "the (jb_id (q_jobs q k)) < ?i" if "k \<in> set (q_queue q)" for k
      using inv_queueD(4,5) [OF inv that] I(3) [of k] by fastforce
    have mp: "map (\<lambda>k. the (jb_id (q_jobs ?q k))) (q_queue q) = map (\<lambda>k. the (jb_id (q_jobs q k))) (q_queue q)"
      using nq by (auto simp: jobs)
    have "sorted_wrt (<) (map (\<lambda>k. the (jb_id (q_jobs q k))) (q_queue q) @ [?i])"
      using I(5) lt by (auto simp: sorted_wrt_append)
    then show "sorted_wrt (<) (map (\<lambda>k. the (jb_id (q_jobs ?q k))) (q_queue ?q))"
      unfolding fr map_append mp by (simp add: jobs)
  qed
  moreover have "inv_phase ?q"
    using inv un i by (auto simp: jobs_inv_def inv_phase_def fr jobs phase_ok_def)
  moreover have "inv_event ?q" using fr by (simp add: inv_event_def)
  moreover have "inv_locks ?q"
    unfolding inv_locks_def h lk fr
  proof (intro conjI allI impI)
    show "k \<in> lk_jobs (q_locks q l)" "map_of (q_job_locks q) (lk_name (q_locks q l)) = Some l"
      if "in_use ?q k" "jb_lock (q_jobs q k) = Some l" for k l
      using that L(3) [of k l] lr by (auto simp: use lock_ready_def)
  qed (use L in blast)+
  ultimately show ?thesis by (simp add: jobs_inv_def)
qed

lemma add_inv:
  assumes inv: "jobs_inv q" and i: "jb_id (q_jobs q j) = None" "j < q_next_job q" "jb_lock (q_jobs q j) = None"
  shows "jobs_inv (snd (add st apps j q))"
proof -
  obtain e q1 where hl: "handle_lock j q = (e, q1)" by (cases "handle_lock j q")
  note H = handle_lock_inv [OF inv i hl]
  show ?thesis
  proof (cases e)
    case None
    have en: "jobs_inv (enqueue j q1)" using H None enqueue_inv by blast
    have co: "jobs_inv (send_job_event ''CHANGED'' k (upd_job k (\<lambda>x. x\<lparr>jb_message_ids := jb_message_ids x @ ms\<rparr>) q1))" for k ms
    proof -
      have "same_core q1 (upd_job k (\<lambda>x. x\<lparr>jb_message_ids := jb_message_ids x @ ms\<rparr>) q1)"
        by (rule same_core_upd_job) (simp add: core_of_def)
      then show ?thesis using H same_core_event same_core_trans same_core_inv by blast
    qed
    show ?thesis
      using H None en co by (simp add: add_def hl Let_def split: option.split)
  qed (use H in \<open>simp add: add_def hl\<close>)
qed

section \<open>The scheduler\<close>

lemma find_SomeD: "find P xs = Some x \<Longrightarrow> P x \<and> (\<exists>ys zs. xs = ys @ x # zs \<and> (\<forall>y\<in>set ys. \<not> P y))"
proof (induction xs)
  case (Cons a xs)
  show ?case
  proof (cases "P a")
    case True
    with Cons.prems show ?thesis by (auto intro: exI [of _ "[]"])
  next
    case False
    with Cons obtain ys zs where "P x" "xs = ys @ x # zs" "\<forall>y\<in>set ys. \<not> P y" by auto
    with False show ?thesis by (intro conjI exI [of _ "a # ys"] exI [of _ zs]) auto
  qed
qed simp

lemma next_turn_inv:
  assumes inv: "jobs_inv q"
  shows "jobs_inv (snd (next_turn q))"
proof (cases "find (runnable q) (q_queue q)")
  case None
  let ?q = "q\<lparr>q_queue_event := False\<rparr>"
  have run: "runnable ?q k = runnable q k" for k by (auto simp: runnable_def split: option.split)
  have h: "holding ?q k = holding q k" "in_use ?q k = in_use q k" for k by (simp_all add: holding_def in_use_def)
  have "inv_queue ?q = inv_queue q" "inv_ids ?q = inv_ids q" "inv_phase ?q = inv_phase q" "inv_locks ?q = inv_locks q"
    unfolding inv_queue_def inv_ids_def inv_phase_def inv_locks_def h by simp_all
  moreover have "inv_event ?q" using None by (auto simp: inv_event_def run find_None_iff)
  ultimately show ?thesis using inv None by (simp add: next_turn_def jobs_inv_def)
next
  case (Some j)
  let ?q = "snd (next_turn q)"
  have jr: "runnable q j" "j \<in> set (q_queue q)" using find_SomeD [OF Some] by auto
  note K = inv_queueD [OF inv jr(2)] and I = inv_idsD [OF inv] and L = inv_locksD [OF inv]
  have dist: "distinct (q_queue q)" using inv by (simp add: jobs_inv_def inv_queue_def)
  have fr: "q_jobs ?q = q_jobs q" "q_queue ?q = remove1 j (q_queue q)" "q_dict ?q = q_dict q" "q_count ?q = q_count q"
    "q_next_job ?q = q_next_job q" "q_next_lock ?q = q_next_lock q" "q_job_locks ?q = q_job_locks q"
    "q_phase ?q = (q_phase q)(j := Dispatched)"
    by (auto simp: next_turn_def Some Let_def set_phase_def upd_lock_def split: option.split)
  have ev: "q_queue_event ?q \<or> q_queue ?q = [] \<or> \<not> q_queue_event q"
    by (auto simp: next_turn_def Some Let_def set_phase_def upd_lock_def split: option.split)
  have locks: "lk_name (q_locks ?q l) = lk_name (q_locks q l)" "lk_jobs (q_locks ?q l) = lk_jobs (q_locks q l)"
    "lk_locked (q_locks ?q l) \<longleftrightarrow> lk_locked (q_locks q l) \<or> jb_lock (q_jobs q j) = Some l" for l
    by (auto simp: next_turn_def Some Let_def set_phase_def upd_lock_def split: option.split)
  have nh: "\<not> holding q j" using K(1) by (simp add: holding_def)
  have hold: "holding ?q k \<longleftrightarrow> holding q k \<or> k = j" for k using nh by (auto simp: holding_def fr)
  have use: "in_use ?q k \<longleftrightarrow> in_use q k" for k
    using jr(2) dist by (auto simp: in_use_def hold fr)
  have free: "\<not> lk_locked (q_locks q l)" if "jb_lock (q_jobs q j) = Some l" for l
    using jr(1) that by (simp add: runnable_def)
  have "inv_queue ?q"
    using inv dist unfolding jobs_inv_def inv_queue_def fr by auto
  moreover have "inv_ids ?q"
  proof -
    obtain ys zs where "q_queue q = ys @ j # zs" using jr(2) by (meson split_list)
    moreover from this have "remove1 j (q_queue q) = ys @ zs" using dist by (simp add: remove1_append)
    ultimately have "sorted_wrt (<) (map (\<lambda>j. the (jb_id (q_jobs q j))) (remove1 j (q_queue q)))"
      using I(5) by (simp add: sorted_wrt_append)
    then show ?thesis using I(1-4) unfolding inv_ids_def fr by blast
  qed
  moreover have "inv_phase ?q"
    using inv K by (auto simp: jobs_inv_def inv_phase_def fr phase_ok_def)
  moreover have "inv_event ?q"
    unfolding inv_event_def
  proof (intro impI allI)
    fix k assume a: "\<not> q_queue_event ?q" "k \<in> set (q_queue ?q)"
    then have "\<not> q_queue_event q" using ev by auto
    then have "\<not> runnable q j" using inv jr(2) by (simp add: jobs_inv_def inv_event_def)
    with jr(1) show "\<not> runnable ?q k" by simp
  qed
  moreover have "inv_locks ?q"
    unfolding inv_locks_def use hold fr locks
  proof (intro conjI allI impI)
    show "dict_wf (q_job_locks q)" using L(1) .
    show "map_of (q_job_locks q) n = Some l \<Longrightarrow> lk_name (q_locks q l) = n"
      "map_of (q_job_locks q) n = Some l \<Longrightarrow> l < q_next_lock q" for n l using L(2) by auto
    show "k \<in> lk_jobs (q_locks q l)" "map_of (q_job_locks q) (lk_name (q_locks q l)) = Some l"
      if "in_use q k" "jb_lock (q_jobs q k) = Some l" for k l using L(3) [OF that] by auto
    show "lk_locked (q_locks q l) \<or> jb_lock (q_jobs q j) = Some l"
      if "holding q k \<or> k = j" "jb_lock (q_jobs q k) = Some l" for k l using that L(4) by auto
    show "\<exists>k. (holding q k \<or> k = j) \<and> jb_lock (q_jobs q k) = Some l"
      if "lk_locked (q_locks q l) \<or> jb_lock (q_jobs q j) = Some l" for l using that L(5) by blast
    show "k = m" if "holding q k \<or> k = j" "holding q m \<or> m = j"
      "jb_lock (q_jobs q k) = Some l" "jb_lock (q_jobs q m) = Some l" for k m l
      using that L(4,6) free by blast
  qed
  ultimately show ?thesis by (simp add: jobs_inv_def)
qed

section \<open>The step relation\<close>

text \<open>
  The steps of the event loop and of the calls into it. A job is submitted once, right after it
  was created. The outcome of a method, the credentials and the clock are arbitrary.
\<close>

inductive jobs_step :: "jobs_queue \<Rightarrow> jobs_queue \<Rightarrow> bool" where
  step_new: "jobs_step q (snd (new_job now method_name coroutine args options open_pipes silent app message_id q))"
| step_add: "jb_id (q_jobs q j) = None \<Longrightarrow> jb_lock (q_jobs q j) = None \<Longrightarrow> j < q_next_job q \<Longrightarrow>
     jobs_step q (snd (add st apps j q))"
| step_next: "q_queue_event q \<Longrightarrow> jobs_step q (snd (next_turn q))"
| step_begin: "q_phase q j = Dispatched \<Longrightarrow> run_begin now j q = Some q' \<Longrightarrow> jobs_step q q'"
| step_logging: "q_phase q j = Logging \<Longrightarrow> run_logging_started now j q = Some q' \<Longrightarrow> jobs_step q q'"
| step_logging_failed: "q_phase q j = Logging \<Longrightarrow> jobs_step q (run_logging_failed j q)"
| step_returned: "q_phase q j = Body \<Longrightarrow> body_returned depth now rv j q = Some q' \<Longrightarrow> jobs_step q q'"
| step_raised: "q_phase q j = Body \<Longrightarrow> body_raised errname trace now e j q = Some q' \<Longrightarrow> jobs_step q q'"
| step_close: "q_phase q j = Closing \<Longrightarrow> run_close file j q = Inr q' \<Longrightarrow> jobs_step q q'"
| step_finish: "q_phase q j = Released \<Longrightarrow> run_finish j q = Inr q' \<Longrightarrow> jobs_step q q'"
| step_abort: "jobs_step q (abort j q)"
| step_receive: "jobs_step q (snd (deque_receive now services d logs q))"
| step_progress: "jobs_step q (snd (set_progress depth j percent descr extra q))"
| step_wrap: "jobs_step q (snd (wrap depth j subjob q))"
| step_description: "jobs_step q (set_description j descr q)"

text \<open>\<open>JobsQueue.__init__\<close> and \<open>JobsDeque.__init__\<close>; nothing is stored yet.\<close>

definition jobs_init :: "jobs_queue \<Rightarrow> bool" where
  "jobs_init q \<longleftrightarrow>
     q_next_job q = 0 \<and> q_next_lock q = 0 \<and> q_count q = 0 \<and> q_maxlen q = 1000 \<and> q_dict q = [] \<and>
     q_queue q = [] \<and> \<not> q_queue_event q \<and> q_job_locks q = [] \<and> q_events q = [] \<and>
     (\<forall>j. q_phase q j = Fresh) \<and> (\<forall>l. \<not> lk_locked (q_locks q l))"

lemma jobs_init_inv: "jobs_init q \<Longrightarrow> jobs_inv q"
  by (auto simp: jobs_init_def jobs_inv_def inv_defs dict_wf_def holding_def in_use_def)

lemma jobs_step_inv:
  assumes "jobs_inv q" and "jobs_step q q'"
  shows "jobs_inv q'"
  using assms(2,1)
proof (cases rule: jobs_step.cases)
  case (step_new now method_name coroutine args options open_pipes silent app message_id)
  with assms(1) show ?thesis by (metis new_job_inv prod.collapse)
next
  case (step_close j content)
  with run_close_inv [OF assms(1), of j content] show ?thesis by auto
next
  case (step_finish j)
  with run_finish_inv [OF assms(1), of j] show ?thesis by auto
qed (use assms(1) in \<open>auto intro: add_inv next_turn_inv run_begin_inv run_logging_started_inv
      run_logging_failed_inv body_returned_inv body_raised_inv abort_inv receive_inv
      same_core_inv [OF same_core_set_progress] same_core_inv [OF same_core_wrap]
      same_core_inv [OF same_core_set_description]\<close>)

interpretation jobs: invariant_system jobs_init jobs_step jobs_inv
  by unfold_locales (auto intro: jobs_init_inv jobs_step_inv)

abbreviation reachable_queue :: "jobs_queue \<Rightarrow> bool" where
  "reachable_queue \<equiv> reach jobs_init jobs_step"

section \<open>An empty queue\<close>

definition example_options :: "lock_option \<Rightarrow> bool \<Rightarrow> job_options" where
  "example_options lock logs =
     \<lparr>opt_lock = lock, opt_lock_queue_size = None, opt_transient = False, opt_abortable = True, opt_logs = logs,
      opt_check_pipes = False, opt_pipes = [], opt_read_roles = [], opt_description = None\<rparr>"

definition example_start :: jobs_queue where
  "example_start =
     \<lparr>q_jobs = \<lambda>_. new_job_record 0 '''' True [] (example_options NoLock False) [] False None None,
      q_locks = \<lambda>_. \<lparr>lk_name = '''', lk_jobs = {}, lk_locked = False\<rparr>, q_next_job = 0, q_next_lock = 0,
      q_count = 0, q_maxlen = 1000, q_dict = [], q_queue = [], q_queue_event = False, q_job_locks = [],
      q_events = [], q_phase = \<lambda>_. Fresh\<rparr>"

end
