(* ===== verification/Job_Properties.thy ===== *)
theory Job_Properties
  imports Job_Invariants
begin

text \<open>
  What the invariant of the job queue gives: properties of every queue the event loop can
  reach, of the access checks, of the deque and of the log excerpt.
\<close>

section \<open>Example queues\<close>

definition submit :: "string \<Rightarrow> lock_option \<Rightarrow> bool \<Rightarrow> jobs_queue \<Rightarrow> jobs_queue" where
  "submit name lock logs q =
     snd (add example_store (\<lambda>_. None) (q_next_job q) (snd (new_job 0 name True [] (example_options lock logs) [] False None None q)))"

lemma reach_submit:
  assumes "reachable_queue q"
  shows "reachable_queue (submit name lock logs q)"
proof -
  let ?q = "snd (new_job 0 name True [] (example_options lock logs) [] False None None q)"
  have "reachable_queue ?q" using assms step_new by (rule reach_step)
  moreover have "jobs_step ?q (submit name lock logs q)" unfolding submit_def
    by (rule step_add) (simp_all add: new_job_def example_options_def new_job_record_def)
  ultimately show ?thesis by (rule reach_step)
qed

named_theorems queue_evals \<open>definitions that evaluate the example queues\<close>

lemmas [queue_evals] = submit_def add_def new_job_def handle_lock_def get_lock_name_def enqueue_def deque_add_def
  example_options_def new_job_record_def example_start_def Let_def upd_job_def upd_lock_def send_job_event_def
  next_turn_def runnable_def set_phase_def run_begin_def run_enter_def set_job_state_def set_state_def terminal_def
  abort_def

text \<open>Two jobs that share a lock and one without; then the first of them is dispatched.\<close>

definition example_queued :: jobs_queue where
  "example_queued = submit ''c'' NoLock False (submit ''b'' (LockName ''x'') False (submit ''a'' (LockName ''x'') False example_start))"

definition example_dispatched :: jobs_queue where
  "example_dispatched = snd (next_turn example_queued)"

definition example_running :: jobs_queue where
  "example_running = the (run_begin 1 0 example_dispatched)"

lemma reach_start: "reachable_queue example_start"
  by (rule reach_init) (simp add: jobs_init_def example_start_def)

lemma reach_queued: "reachable_queue example_queued"
  unfolding example_queued_def by (intro reach_submit reach_start)

lemma queued_facts:
  "q_queue example_queued = [0, 1, 2]" "q_queue_event example_queued" "q_phase example_queued = (\<lambda>_. Fresh)"
  "jb_lock (q_jobs example_queued 0) = Some 0" "jb_lock (q_jobs example_queued (Suc 0)) = Some 0"
  "jb_lock (q_jobs example_queued 2) = None" "\<not> lk_locked (q_locks example_queued 0)"
  "jb_state (q_jobs example_queued 0) = WAITING" "\<not> opt_logs (jb_options (q_jobs example_queued 0))"
  "\<not> jb_aborted (q_jobs example_queued 0)" "\<not> jb_future (q_jobs example_queued 0)"
  "jb_id (q_jobs example_queued (Suc 0)) = Some 2" "jb_id (q_jobs example_queued 2) = Some 3"
  by (simp_all add: example_queued_def queue_evals)

lemma reach_dispatched: "reachable_queue example_dispatched"
  unfolding example_dispatched_def using reach_queued by (rule reach_step) (simp add: step_next queued_facts)

lemma dispatched_eq:
  "example_dispatched = set_phase 0 Dispatched
     ((upd_lock 0 (\<lambda>lk. lk\<lparr>lk_locked := True\<rparr>) example_queued)\<lparr>q_queue := [1, 2]\<rparr>)"
  by (simp add: example_dispatched_def next_turn_def runnable_def queued_facts Let_def upd_lock_def)

lemma dispatched_facts:
  "q_queue example_dispatched = [1, 2]" "q_queue_event example_dispatched" "q_phase example_dispatched 0 = Dispatched"
  "q_phase example_dispatched (Suc 0) = Fresh" "q_jobs example_dispatched = q_jobs example_queued"
  "lk_locked (q_locks example_dispatched 0)"
  by (simp_all add: dispatched_eq set_phase_def upd_lock_def queued_facts)

lemma running_step: "run_begin 1 0 example_dispatched = Some example_running"
  unfolding example_running_def
  by (simp add: run_begin_def run_enter_def set_job_state_def set_state_def terminal_def dispatched_facts queued_facts)

lemma reach_running: "reachable_queue example_running"
  using reach_dispatched by (rule reach_step) (rule step_begin [OF _ running_step], simp add: dispatched_facts)

lemma running_facts:
  "q_phase example_running 0 = Body" "q_phase example_running (Suc 0) = Fresh"
  "jb_lock (q_jobs example_running 0) = Some 0" "jb_lock (q_jobs example_running (Suc 0)) = Some 0"
  by (simp_all add: example_running_def run_begin_def run_enter_def set_job_state_def set_state_def terminal_def
      dispatched_facts queued_facts set_phase_def upd_job_def send_job_event_def)

section \<open>Mutual exclusion, wakeups and order\<close>

lemma same_name_same_lock:
  assumes "jobs_inv q" "in_use q j" "in_use q k"
    and "jb_lock (q_jobs q j) = Some l" "jb_lock (q_jobs q k) = Some m"
    and "lk_name (q_locks q l) = lk_name (q_locks q m)"
  shows "l = m"
  using inv_locksD(3) [OF assms(1,2,4)] inv_locksD(3) [OF assms(1,3,5)] assms(6) by (metis option.inject)

text \<open>
  C1: two jobs whose locks have the same name never run at the same time: of all jobs between
  their dispatch and the release of their lock, at most one has a lock of a given name.
\<close>

theorem jobs_with_same_lock_exclude:
  assumes "reachable_queue q" and "q_phase q j = Body" and "holding q k"
    and "jb_lock (q_jobs q j) = Some l" and "jb_lock (q_jobs q k) = Some m"
    and "lk_name (q_locks q l) = lk_name (q_locks q m)"
  shows "j = k"
proof -
  have inv: "jobs_inv q" using assms(1) by (rule jobs.reach_inv)
  have h: "holding q j" using assms(2) by (simp add: holding_def)
  have "l = m"
    by (rule same_name_same_lock [OF inv]) (use assms h in \<open>auto simp: in_use_def\<close>)
  with inv_locksD(6) [OF inv h assms(3)] assms(4,5) show ?thesis by simp
qed

theorem jobs_with_same_lock_exclude_witness:
  "q_phase example_running 0 = Body \<and> jb_lock (q_jobs example_running 0) = jb_lock (q_jobs example_running 1) \<and>
   \<not> holding example_running 1"
  using jobs_with_same_lock_exclude [OF reach_running, of 0 1 0 0] running_facts by auto

lemma next_turn_first:
  assumes "jobs_inv q" and "next_turn q = (Some j, q')"
  shows "\<exists>pre post. q_queue q = pre @ j # post \<and> (\<forall>k\<in>set pre. \<not> runnable q k) \<and> runnable q j \<and>
    q_queue q' = pre @ post \<and> q_phase q' j = Dispatched"
proof -
  have f: "find (runnable q) (q_queue q) = Some j"
    using assms(2) by (auto simp: next_turn_def Let_def split: option.splits)
  from find_SomeD [OF f] obtain pre post where p: "q_queue q = pre @ j # post" "\<forall>k\<in>set pre. \<not> runnable q k" "runnable q j"
    by blast
  have "distinct (q_queue q)" using assms(1) by (simp add: jobs_inv_def inv_queue_def)
  then have "remove1 j (q_queue q) = pre @ post" using p(1) by (simp add: remove1_append)
  moreover have "q_queue q' = remove1 j (q_queue q)" "q_phase q' j = Dispatched"
    using assms(2) f by (auto simp: next_turn_def Let_def set_phase_def upd_lock_def split: option.splits if_splits)
  ultimately show ?thesis using p by auto
qed

text \<open>
  C5: no wakeup of the scheduler is lost. Whenever a queued job could run, the event the
  scheduler waits for is set, and its next turn dispatches the first job of the queue that can
  run.
\<close>

theorem no_lost_wakeup:
  assumes "reachable_queue q" and "j \<in> set (q_queue q)" and "runnable q j"
  shows "q_queue_event q \<and> (\<exists>k q' pre post. next_turn q = (Some k, q') \<and> q_queue q = pre @ k # post \<and>
    (\<forall>m\<in>set pre. \<not> runnable q m) \<and> runnable q k \<and> q_phase q' k = Dispatched)"
proof -
  have inv: "jobs_inv q" using assms(1) by (rule jobs.reach_inv)
  have ev: "q_queue_event q" using inv assms(2,3) by (auto simp: jobs_inv_def inv_event_def)
  have "find (runnable q) (q_queue q) \<noteq> None" using assms(2,3) by (auto simp: find_None_iff)
  then obtain k q' where k: "next_turn q = (Some k, q')" by (auto simp: next_turn_def Let_def)
  from next_turn_first [OF inv k] k ev show ?thesis by blast
qed

theorem no_lost_wakeup_witness:
  "q_queue_event example_dispatched \<and> q_queue example_dispatched = [1, 2] \<and> \<not> runnable example_dispatched 1 \<and>
   (\<exists>q'. next_turn example_dispatched = (Some 2, q') \<and> q_phase q' 2 = Dispatched)"
proof -
  have r: "runnable example_dispatched 2" "\<not> runnable example_dispatched 1"
    by (simp_all add: runnable_def dispatched_facts queued_facts)
  from no_lost_wakeup [OF reach_dispatched _ r(1)] obtain k q' pre post where
    k: "q_queue_event example_dispatched" "next_turn example_dispatched = (Some k, q')" "[1, 2] = pre @ k # post"
      "runnable example_dispatched k" "q_phase q' k = Dispatched"
    by (auto simp: dispatched_facts)
  have "k \<in> set [1, 2]" unfolding k(3) by simp
  then have "k = 2" using k(4) r(2) by auto
  with k r show ?thesis by (auto simp: dispatched_facts)
qed

text \<open>
  C23: jobs start in the order they were submitted, except for jobs that wait for another job to
  release their lock: a job with a smaller id that is still in the queue when a job is
  dispatched is blocked, and its lock is not the lock of the dispatched job.
\<close>

theorem dispatch_in_order:
  assumes "reachable_queue q" and "next_turn q = (Some j, q')"
    and "k \<in> set (q_queue q)" and "jb_id (q_jobs q k) = Some a" and "jb_id (q_jobs q j) = Some b" and "a < b"
  shows "\<not> runnable q k \<and> jb_lock (q_jobs q k) \<noteq> jb_lock (q_jobs q j)"
proof -
  have inv: "jobs_inv q" using assms(1) by (rule jobs.reach_inv)
  from next_turn_first [OF inv assms(2)] obtain pre post where
    p: "q_queue q = pre @ j # post" "\<forall>k\<in>set pre. \<not> runnable q k" "runnable q j" by blast
  have "k \<notin> set (j # post)"
  proof
    assume "k \<in> set (j # post)"
    moreover have "sorted_wrt (<) (map (\<lambda>j. the (jb_id (q_jobs q j))) (pre @ j # post))"
      using inv_idsD(5) [OF inv] p(1) by simp
    ultimately have "b \<le> a" using assms(4,5) by (auto simp: sorted_wrt_append)
    with assms(6) show False by simp
  qed
  with p(1) assms(3) have "k \<in> set pre" by auto
  with p show ?thesis by (auto simp: runnable_def split: option.splits)
qed

theorem dispatch_in_order_witness:
  "1 \<in> set (q_queue example_dispatched) \<and> (\<exists>q'. next_turn example_dispatched = (Some 2, q')) \<and>
   \<not> runnable example_dispatched 1 \<and> jb_lock (q_jobs example_dispatched 1) \<noteq> jb_lock (q_jobs example_dispatched 2)"
proof -
  obtain q' where "next_turn example_dispatched = (Some 2, q')"
    by (simp add: next_turn_def runnable_def dispatched_facts queued_facts Let_def)
  with dispatch_in_order [OF reach_dispatched, of 2 q' 1 2 3] show ?thesis
    by (simp add: dispatched_facts queued_facts)
qed

section \<open>No failing assertion\<close>







section \<open>Finished and crashed jobs\<close>

text \<open>What a step leaves of a job that its task no longer, or not yet, runs.\<close>

definition job_view :: "jobs_queue \<Rightarrow> jref \<Rightarrow> State \<times> phase \<times> lref option" where
  "job_view q j = (jb_state (q_jobs q j), q_phase q j, jb_lock (q_jobs q j))"

lemma job_view_same_core:
  assumes "same_core q q'"
  shows "job_view q' j = job_view q j" "q_next_job q' = q_next_job q"
  using assms by (auto simp: same_core_def core_of_def job_view_def)

lemma job_view_event [simp]: "job_view (send_job_event t k q) j = job_view q j"
  by (simp add: job_view_def send_job_event_def)

lemma next_job_event [simp]: "q_next_job (send_job_event t k q) = q_next_job q"
  by (simp add: send_job_event_def)

lemma job_view_upd_job:
  "job_view (upd_job k f q) j = (if j = k then (jb_state (f (q_jobs q j)), q_phase q j, jb_lock (f (q_jobs q j))) else job_view q j)"
  "q_next_job (upd_job k f q) = q_next_job q"
  by (simp_all add: job_view_def upd_job_def)

lemma job_view_set_phase:
  "job_view (set_phase k p q) j = (if j = k then (jb_state (q_jobs q j), p, jb_lock (q_jobs q j)) else job_view q j)"
  "q_next_job (set_phase k p q) = q_next_job q"
  by (simp_all add: job_view_def set_phase_def)

lemma handle_lock_view:
  assumes "j \<noteq> k"
  shows "job_view (snd (handle_lock k q)) j = job_view q j" "q_next_job (snd (handle_lock k q)) = q_next_job q"
  using assms by (auto simp: handle_lock_def job_view_def upd_job_def upd_lock_def Let_def split: sum.splits option.splits)

lemma enqueue_view:
  assumes "j \<noteq> k"
  shows "job_view (enqueue k q) j = job_view q j" "q_next_job (enqueue k q) = q_next_job q"
  using assms by (auto simp: enqueue_def deque_add_def deque_remove_def Let_def job_view_def send_job_event_def upd_job_def split: option.splits)

lemma coalesce_view:
  "job_view (upd_job k (\<lambda>x. x\<lparr>jb_message_ids := jb_message_ids x @ m\<rparr>) q) j = job_view q j"
  by (simp add: job_view_def upd_job_def)

lemma add_view:
  assumes "j \<noteq> k"
  shows "job_view (snd (add st apps k q)) j = job_view q j" "q_next_job (snd (add st apps k q)) = q_next_job q"
proof -
  obtain r q1 where h: "handle_lock k q = (r, q1)" by (cases "handle_lock k q")
  have v: "job_view q1 j = job_view q j" "q_next_job q1 = q_next_job q"
    using handle_lock_view [OF assms, of q] h by auto
  have "snd (add st apps k q) \<in> {q1, enqueue k q1} \<union>
      {q2. \<exists>i m. q2 = send_job_event ''CHANGED'' i (upd_job i (\<lambda>x. x\<lparr>jb_message_ids := jb_message_ids x @ m\<rparr>) q1)}"
    unfolding add_def h by (auto simp: Let_def split: option.split)
  with v enqueue_view [OF assms, of q1] show "job_view (snd (add st apps k q)) j = job_view q j"
    "q_next_job (snd (add st apps k q)) = q_next_job q"
    by (auto simp: coalesce_view job_view_upd_job)
qed

lemma abort_view: "job_view (abort k q) j = job_view q j" "q_next_job (abort k q) = q_next_job q"
  by (simp_all add: abort_def upd_job_def job_view_def)

lemma next_turn_view:
  "fst (next_turn q) \<noteq> Some j \<Longrightarrow> job_view (snd (next_turn q)) j = job_view q j"
  "q_next_job (snd (next_turn q)) = q_next_job q"
  by (auto simp: next_turn_def Let_def job_view_def set_phase_def upd_lock_def split: option.splits)

lemma set_job_state_view:
  assumes "set_job_state now s k q = Some q'"
  shows "j \<noteq> k \<Longrightarrow> job_view q' j = job_view q j" "q_next_job q' = q_next_job q"
  using assms by (auto simp: set_job_state_def job_view_upd_job)

lemma run_enter_view:
  assumes "run_enter now k q = Some q'" and "j \<noteq> k"
  shows "job_view q' j = job_view q j \<and> q_next_job q' = q_next_job q"
  using assms by (auto simp: run_enter_def job_view_set_phase job_view_upd_job set_job_state_view split: if_splits)

lemma release_lock_view:
  "job_view (snd (release_lock k q)) j = job_view q j \<and> q_next_job (snd (release_lock k q)) = q_next_job q"
  by (auto simp: release_lock_def Let_def job_view_def upd_lock_def split: option.splits)

lemma task_step_view:
  assumes "j \<noteq> k"
  shows "run_begin now k q = Some q' \<Longrightarrow> job_view q' j = job_view q j \<and> q_next_job q' = q_next_job q"
    "run_logging_started now k q = Some q' \<Longrightarrow> job_view q' j = job_view q j \<and> q_next_job q' = q_next_job q"
    "job_view (run_logging_failed k q) j = job_view q j \<and> q_next_job (run_logging_failed k q) = q_next_job q"
    "body_returned depth now rv k q = Some q' \<Longrightarrow> job_view q' j = job_view q j \<and> q_next_job q' = q_next_job q"
    "body_raised errname trace now e k q = Some q' \<Longrightarrow> job_view q' j = job_view q j \<and> q_next_job q' = q_next_job q"
proof -
  show "run_begin now k q = Some q' \<Longrightarrow> job_view q' j = job_view q j \<and> q_next_job q' = q_next_job q"
    using assms by (auto simp: run_begin_def job_view_set_phase job_view_upd_job dest: run_enter_view split: if_splits)
  show "run_logging_started now k q = Some q' \<Longrightarrow> job_view q' j = job_view q j \<and> q_next_job q' = q_next_job q"
    using assms by (auto simp: run_logging_started_def job_view_upd_job dest: run_enter_view)
  show "job_view (run_logging_failed k q) j = job_view q j \<and> q_next_job (run_logging_failed k q) = q_next_job q"
    using assms by (simp add: run_logging_failed_def job_view_set_phase)
  show "body_returned depth now rv k q = Some q' \<Longrightarrow> job_view q' j = job_view q j \<and> q_next_job q' = q_next_job q"
    using assms by (auto simp: body_returned_def job_view_set_phase job_view_upd_job set_job_state_view
        job_view_same_core [OF same_core_set_progress])
  show "body_raised errname trace now e k q = Some q' \<Longrightarrow> job_view q' j = job_view q j \<and> q_next_job q' = q_next_job q"
    using assms by (auto simp: body_raised_def Let_def job_view_set_phase job_view_upd_job set_job_state_view split: if_splits)
qed

lemma close_logs_core [simp]: "jb_state (close_logs content jb) = jb_state jb" "jb_lock (close_logs content jb) = jb_lock jb"
  by (auto simp: close_logs_def split: option.split)

lemma run_close_view:
  assumes "run_close content k q = Inr q'"
  shows "job_view q' j = (if j = k then (jb_state (q_jobs q j), Released, jb_lock (q_jobs q j)) else job_view q j)"
    "q_next_job q' = q_next_job q"
proof -
  let ?q = "upd_job k (close_logs content) q"
  obtain r q1 where r: "release_lock k ?q = (r, q1)" by (cases "release_lock k ?q")
  with assms have q': "q' = set_phase k Released (upd_job k (\<lambda>jb. jb\<lparr>jb_finished := True\<rparr>) q1)"
    by (auto simp: run_close_def split: option.splits)
  have v: "job_view q1 j = job_view ?q j" "q_next_job q1 = q_next_job ?q" for j
    using release_lock_view [of k ?q j] r by auto
  have "job_view q1 j = job_view q j" for j using v(1) [of j] by (simp add: job_view_upd_job) (simp add: job_view_def)
  then show "job_view q' j = (if j = k then (jb_state (q_jobs q j), Released, jb_lock (q_jobs q j)) else job_view q j)"
    by (auto simp: q' job_view_set_phase job_view_upd_job) (auto simp: job_view_def upd_job_def)
  show "q_next_job q' = q_next_job q" using v(2) by (simp add: q' job_view_set_phase job_view_upd_job)
qed

lemma run_finish_view:
  assumes "run_finish k q = Inr q'"
  shows "job_view q' j = (if j = k then (jb_state (q_jobs q j), Done, jb_lock (q_jobs q j)) else job_view q j) \<and>
    q_next_job q' = q_next_job q"
  using assms
  by (auto simp: run_finish_def Let_def job_view_def set_phase_def upd_job_def send_job_event_def deque_remove_def
      split: if_splits option.splits)

lemma receive_view:
  assumes "j < q_next_job q"
  shows "job_view (snd (deque_receive now services d logs q)) j = job_view q j \<and>
    j < q_next_job (snd (deque_receive now services d logs q))"
  using assms by (auto simp: deque_receive_def new_job_def Let_def job_view_def upd_job_def split: option.splits list.splits)

lemma new_view:
  assumes "j < q_next_job q"
  shows "job_view (snd (new_job now method_name coroutine args options open_pipes silent app message_id q)) j = job_view q j \<and>
    j < q_next_job (snd (new_job now method_name coroutine args options open_pipes silent app message_id q))"
  using assms by (auto simp: new_job_def job_view_def split: list.splits)

text \<open>A finished job keeps its state and lock; a crashed one its phase as well.\<close>

definition settled :: "jobs_queue \<Rightarrow> jref \<Rightarrow> bool" where
  "settled q j \<longleftrightarrow> j < q_next_job q \<and> (terminal (jb_state (q_jobs q j)) \<or> q_phase q j = Crashed)"

lemma settledD:
  assumes inv: "jobs_inv q" and s: "settled q j"
  shows "jb_id (q_jobs q j) \<noteq> None" "q_phase q j \<notin> {Dispatched, Logging, Body}" "j \<notin> set (q_queue q)"
proof -
  have ok: "phase_ok (q_phase q j) (q_jobs q j)"
    using inv s by (simp add: jobs_inv_def inv_phase_def settled_def)
  from ok s show "jb_id (q_jobs q j) \<noteq> None" "q_phase q j \<notin> {Dispatched, Logging, Body}"
    by (auto simp: settled_def phase_ok_def terminal_def split: phase.splits)
  from s show "j \<notin> set (q_queue q)"
    using inv by (auto simp: settled_def terminal_def jobs_inv_def inv_queue_def)
qed

lemma settled_step:
  assumes inv: "jobs_inv q" and step: "jobs_step q q'" and s: "settled q j"
  shows "settled q' j \<and> jb_state (q_jobs q' j) = jb_state (q_jobs q j) \<and> jb_lock (q_jobs q' j) = jb_lock (q_jobs q j) \<and>
    (q_phase q j = Crashed \<longrightarrow> q_phase q' j = Crashed)"
proof -
  note d = settledD [OF inv s]
  have same: ?thesis if "job_view q' j = job_view q j" "j < q_next_job q'"
    using that s by (simp add: job_view_def settled_def)
  from s have j: "j < q_next_job q" by (simp add: settled_def)
  show ?thesis using step
  proof (cases rule: jobs_step.cases)
    case (step_add k st apps)
    then have "j \<noteq> k" using d(1) by auto
    with step_add same add_view [of j k st apps q] j show ?thesis by simp
  next
    case step_next
    have "fst (next_turn q) \<noteq> Some j" using d(3)
      by (auto simp: next_turn_def Let_def split: option.splits dest: find_SomeD)
    with step_next same next_turn_view j show ?thesis by simp
  next
    case (step_close k content)
    with s run_close_view(1) [OF step_close(2), of j] run_close_view(2) [OF step_close(2)] show ?thesis
      by (cases "j = k") (auto simp: job_view_def settled_def)
  next
    case (step_finish k)
    with s run_finish_view [OF step_finish(2), of j] show ?thesis
      by (cases "j = k") (auto simp: job_view_def settled_def)
  next
    case (step_begin k)
    then show ?thesis using same task_step_view(1) [of j k] d(2) j by (cases "j = k") auto
  next
    case (step_logging k)
    then show ?thesis using same task_step_view(2) [of j k] d(2) j by (cases "j = k") auto
  next
    case (step_logging_failed k)
    then show ?thesis using same task_step_view(3) [of j k] d(2) j by (cases "j = k") auto
  next
    case (step_returned k)
    then show ?thesis using same task_step_view(4) [of j k] d(2) j by (cases "j = k") auto
  next
    case (step_raised k)
    then show ?thesis using same task_step_view(5) [of j k] d(2) j by (cases "j = k") auto
  qed (use same j abort_view receive_view new_view job_view_same_core [OF same_core_set_progress]
      job_view_same_core [OF same_core_wrap] job_view_same_core [OF same_core_set_description] in auto)
qed

lemma settled_steps:
  assumes "jobs_step\<^sup>*\<^sup>* q q'" and "jobs_inv q" and "settled q j"
  shows "jobs_inv q' \<and> settled q' j \<and> jb_state (q_jobs q' j) = jb_state (q_jobs q j) \<and>
    jb_lock (q_jobs q' j) = jb_lock (q_jobs q j) \<and> (q_phase q j = Crashed \<longrightarrow> q_phase q' j = Crashed)"
  using assms(1)
proof induction
  case (step q1 q2)
  then show ?case using settled_step [of q1 q2 j] jobs_step_inv [of q1 q2] by auto
qed (use assms in simp)



text \<open>
  C26: when the log file of a job cannot be opened, the lock of the job is lost. The exception
  leaves \<open>run\<close> before its \<open>try\<close>, so the lock is never released: no job that shares it
  can be dispatched any more, whatever happens later.
\<close>

theorem failed_log_open_blocks_lock:
  assumes "reachable_queue q" and "q_phase q j = Logging" and "jb_lock (q_jobs q j) = Some l"
    and "jobs_step\<^sup>*\<^sup>* (run_logging_failed j q) q'" and "jb_lock (q_jobs q' k) = Some l"
  shows "lk_locked (q_locks q' l) \<and> jb_state (q_jobs q' j) = WAITING \<and> \<not> runnable q' k"
proof -
  have inv: "jobs_inv q" using assms(1) by (rule jobs.reach_inv)
  let ?q = "run_logging_failed j q"
  have inv1: "jobs_inv ?q" using run_logging_failed_inv [OF inv assms(2)] .
  have st: "jb_state (q_jobs q j) = WAITING" using holdingD(2) [OF inv assms(2)] by simp
  have "j < q_next_job q" using inv_unused [OF inv, of j] assms(2) inv_holding_lt [OF inv, of j] by (auto simp: holding_def)
  then have "settled ?q j" by (simp add: settled_def run_logging_failed_def set_phase_def)
  from settled_steps [OF assms(4) inv1 this] have
    r: "jobs_inv q'" "q_phase q' j = Crashed" "jb_lock (q_jobs q' j) = Some l" "jb_state (q_jobs q' j) = WAITING"
    using assms(3) st by (simp_all add: run_logging_failed_def set_phase_def)
  then have "lk_locked (q_locks q' l)" using inv_locksD(4) [OF r(1), of j l] by (simp add: holding_def)
  with r assms(5) show ?thesis by (simp add: runnable_def)
qed

definition example_logging :: jobs_queue where
  "example_logging = the (run_begin 1 0 (snd (next_turn (submit ''a'' (LockName ''x'') True example_start))))"

lemma logging_step:
  "run_begin 1 0 (snd (next_turn (submit ''a'' (LockName ''x'') True example_start))) = Some example_logging"
  by (simp add: example_logging_def queue_evals)

lemma reach_logging: "reachable_queue example_logging"
proof -
  have "reachable_queue (snd (next_turn (submit ''a'' (LockName ''x'') True example_start)))"
    using reach_submit [OF reach_start] by (rule reach_step) (rule step_next, simp add: queue_evals)
  then show ?thesis by (rule reach_step) (rule step_begin [OF _ logging_step], simp add: queue_evals)
qed

lemma logging_facts:
  "q_phase example_logging 0 = Logging" "jb_lock (q_jobs example_logging 0) = Some 0"
  "q_next_job example_logging = 1" "q_job_locks example_logging = [(''x'', 0)]"
  "q_maxlen example_logging = 1000" "length (q_dict example_logging) = 1"
  by (simp_all add: example_logging_def queue_evals)

theorem failed_log_open_blocks_lock_witness:
  "\<not> runnable (submit ''b'' (LockName ''x'') False (run_logging_failed 0 example_logging)) 1"
proof -
  let ?q = "run_logging_failed 0 example_logging"
  let ?new = "snd (new_job 0 ''b'' True [] (example_options (LockName ''x'') False) [] False None None ?q)"
  have "jobs_step ?q ?new" by (rule step_new)
  moreover have "jobs_step ?new (submit ''b'' (LockName ''x'') False ?q)" unfolding submit_def
    by (rule step_add) (simp_all add: new_job_def example_options_def new_job_record_def)
  ultimately have "jobs_step\<^sup>*\<^sup>* ?q (submit ''b'' (LockName ''x'') False ?q)" by simp
  moreover have "jb_lock (q_jobs (submit ''b'' (LockName ''x'') False ?q) 1) = Some 0"
    by (simp add: logging_facts run_logging_failed_def queue_evals)
  ultimately show ?thesis
    using failed_log_open_blocks_lock [OF reach_logging logging_facts(1,2)] by blast
qed

section \<open>Coalescing\<close>

text \<open>
  C27: jobs without a lock are coalesced as if they shared one. When as many of them are queued as
  \<open>lock_queue_size\<close> says, a further job without a lock is not run: its caller is given
  the last of the queued ones, whatever method and arguments that one has.
\<close>

theorem lockless_jobs_coalesce:
  assumes "opt_lock (jb_options (q_jobs q j)) = NoLock" and "jb_lock (q_jobs q j) = None"
    and "opt_lock_queue_size (jb_options (q_jobs q j)) = Some n" and "0 < n"
    and "filter (\<lambda>k. jb_lock (q_jobs q k) = None) (q_queue q) = ks @ [k]" and "n \<le> Suc (length ks)"
    and "\<not> credential_is_limited_to_own_jobs st (job_credentials apps (q_jobs q j))"
  shows "fst (add st apps j q) = Inr k \<and> q_queue (snd (add st apps j q)) = q_queue q"
proof -
  have h: "handle_lock j q = (None, q)" using assms(1) by (simp add: handle_lock_def get_lock_name_def)
  have "may_coalesce st apps (q_jobs q j) (q_jobs q k)" using assms(7) by (simp add: may_coalesce_def)
  then show ?thesis unfolding add_def h using assms(2-6) by (auto simp: Let_def send_job_event_def upd_job_def)
qed

definition example_burst :: jobs_queue where
  "example_burst = snd (new_job 0 ''service.other'' True []
     ((example_options NoLock False)\<lparr>opt_lock_queue_size := Some 1\<rparr>) [] False None None
     (submit ''service.first'' NoLock False example_start))"

theorem lockless_jobs_coalesce_witness:
  "jb_method_name (q_jobs example_burst 1) = ''service.other'' \<and>
   fst (add example_store (\<lambda>_. None) 1 example_burst) = Inr 0 \<and>
   jb_method_name (q_jobs example_burst 0) = ''service.first''"
proof -
  have e: "opt_lock (jb_options (q_jobs example_burst 1)) = NoLock" "jb_lock (q_jobs example_burst 1) = None"
    "opt_lock_queue_size (jb_options (q_jobs example_burst 1)) = Some 1" "jb_app (q_jobs example_burst 1) = None"
    "jb_method_name (q_jobs example_burst 1) = ''service.other''" "jb_method_name (q_jobs example_burst 0) = ''service.first''"
    "filter (\<lambda>k. jb_lock (q_jobs example_burst k) = None) (q_queue example_burst) = [] @ [0]"
    by (simp_all add: example_burst_def queue_evals)
  from lockless_jobs_coalesce [OF e(1-3) _ e(7), of example_store "\<lambda>_. None"] e(4-6) show ?thesis
    by (simp add: job_credentials_def credential_is_limited_to_own_jobs_def)
qed

section \<open>The deque\<close>

text \<open>
  C28: the deque forgets only finished jobs. When a job is added, every job that has not finished
  stays in it under its id, at most one finished job is dropped, and that only when more than
  \<open>maxlen\<close> jobs are kept.
\<close>

theorem deque_add_keeps_unfinished:
  assumes "reachable_queue q" and "j < q_next_job q" and "jb_id (q_jobs q j) = None"
  shows "map_of (q_dict (deque_add j q)) (Suc (q_count q)) = Some j \<and>
    (\<forall>i k. map_of (q_dict q) i = Some k \<longrightarrow> \<not> terminal (jb_state (q_jobs q k)) \<longrightarrow>
       map_of (q_dict (deque_add j q)) i = Some k) \<and>
    (length (q_dict q) \<le> q_maxlen q \<longrightarrow> length (q_dict (deque_add j q)) = Suc (length (q_dict q))) \<and>
    length (q_dict q) \<le> length (q_dict (deque_add j q))"
proof -
  have inv: "jobs_inv q" using assms(1) by (rule jobs.reach_inv)
  note I = inv_idsD [OF inv]
  define i where "i = Suc (q_count q)"
  define q1 where "q1 = upd_job j (\<lambda>jb. jb\<lparr>jb_id := Some i\<rparr>) (q\<lparr>q_count := i\<rparr>)"
  have q1: "q_dict q1 = q_dict q" "q_maxlen q1 = q_maxlen q" "jb_state (q_jobs q1 k) = jb_state (q_jobs q k)" for k
    by (simp_all add: q1_def upd_job_def)
  have new: "map_of (q_dict q) i = None"
  proof (rule ccontr)
    assume "map_of (q_dict q) i \<noteq> None"
    then obtain k where "map_of (q_dict q) i = Some k" by auto
    with I(2) [of i k] I(3) [of k i] show False by (simp add: i_def)
  qed
  define old where "old = (if length (q_dict q) > q_maxlen q then first_finished (q_jobs q1) (q_dict q) else None)"
  have d: "q_dict (deque_add j q) = AList.update i j (case old of None \<Rightarrow> q_dict q | Some o' \<Rightarrow> AList.delete o' (q_dict q))"
    by (auto simp: deque_add_def Let_def old_def deque_remove_def i_def q1_def upd_job_def split: option.split)
  have fin: "\<exists>k. map_of (q_dict q) o' = Some k \<and> terminal (jb_state (q_jobs q k))" if "old = Some o'" for o'
    using first_finished_Some [of "q_jobs q1" "q_dict q" o'] that I(1) q1 by (auto simp: old_def dict_wf_def split: if_splits)
  have len: "Suc (length (AList.delete o' (q_dict q))) = length (q_dict q)" if "old = Some o'" for o'
    using fin [OF that] I(1) by (auto intro: length_delete_present)
  have nd: "map_of (case old of None \<Rightarrow> q_dict q | Some o' \<Rightarrow> AList.delete o' (q_dict q)) i = None"
    using new by (auto simp: delete_conv' split: option.split)
  show ?thesis
  proof (cases old)
    case None
    then show ?thesis unfolding d i_def [symmetric] using new by (auto simp: update_conv' length_update_new)
  next
    case (Some o')
    obtain k where k: "map_of (q_dict q) o' = Some k" "terminal (jb_state (q_jobs q k))" using fin [OF Some] by blast
    have c: "length (q_dict q) > q_maxlen q" using Some by (auto simp: old_def split: if_splits)
    show ?thesis unfolding d i_def [symmetric] using Some nd len [OF Some] k c
      by (auto simp: update_conv' length_update_new delete_conv')
  qed
qed

theorem deque_add_keeps_unfinished_witness:
  "map_of (q_dict (deque_add 1 example_burst)) 1 = Some 0 \<and> map_of (q_dict (deque_add 1 example_burst)) 2 = Some 1 \<and>
   length (q_dict (deque_add 1 example_burst)) = 2"
proof -
  have r: "reachable_queue example_burst"
    unfolding example_burst_def using reach_submit [OF reach_start] step_new by (rule reach_step)
  have e: "q_dict example_burst = [(1, 0)]" "q_count example_burst = 1" "q_next_job example_burst = 2"
    "jb_id (q_jobs example_burst (Suc 0)) = None" "q_maxlen example_burst = 1000" "jb_state (q_jobs example_burst 0) = WAITING"
    by (simp_all add: example_burst_def queue_evals)
  from deque_add_keeps_unfinished [OF r, of 1] show ?thesis
    by (auto simp: e terminal_def numeral_2_eq_2)
qed

section \<open>The log excerpt\<close>

lemma excerpt_scan_spec:
  "length head = 10 \<Longrightarrow> excerpt_scan ls (head, drop (length t - 10) t, n) =
     (head, drop (length (t @ ls) - 10) (t @ ls), n + length ls)"
proof (induction ls arbitrary: t n)
  case (Cons l ls)
  have "excerpt_scan (l # ls) (head, drop (length t - 10) t, n) = excerpt_scan ls (head, drop (length (t @ [l]) - 10) (t @ [l]), Suc n)"
  proof -
    have "length t - (length t - 10 + 9) + (length t - 10) = length t - 9" by simp
    then show ?thesis using Cons.prems by (simp add: Let_def)
  qed
  with Cons.IH [OF Cons.prems, of "t @ [l]" "Suc n"] show ?case by simp
qed simp

lemma excerpt_scan_head:
  "length head \<le> 10 \<Longrightarrow> length head + length ls \<ge> 10 \<Longrightarrow> excerpt_scan ls (head, [], n) =
     excerpt_scan (drop (10 - length head) ls) (head @ take (10 - length head) ls, [], n + (10 - length head))"
proof (induction ls arbitrary: head n)
  case (Cons l ls)
  show ?case
  proof (cases "length head = 10")
    case False
    with Cons.prems have "length head < 10" by simp
    then obtain m where m: "10 - length head = Suc m" "10 - length (head @ [l]) = m" by (cases "10 - length head") auto
    have "excerpt_scan ls (head @ [l], [], Suc n) =
        excerpt_scan (drop m ls) ((head @ [l]) @ take m ls, [], Suc n + m)"
      using Cons.IH [of "head @ [l]" "Suc n"] Cons.prems \<open>length head < 10\<close> unfolding m by simp
    then show ?thesis unfolding m using \<open>length head < 10\<close> by simp
  qed simp
qed simp

lemma excerpt_scan_short:
  "length head + length ls \<le> 10 \<Longrightarrow> excerpt_scan ls (head, [], n) = (head @ ls, [], n + length ls)"
  by (induction ls arbitrary: head n) auto

text \<open>
  C29: the excerpt of a log of at most 20 lines is the whole log; of a longer one it is the first
  10 lines, the number of the lines left out, and the last 10 lines.
\<close>

theorem logs_excerpt_first_and_last:
  "get_logs_excerpt (Some ls) =
     (if length ls \<le> 20 then concat ls
      else concat (take 10 ls) @ ''... '' @ py_str (length ls - 20) @ '' more lines ...'' @ [char_of (10::nat)] @
        concat (drop (length ls - 10) ls))"
proof (cases "length ls < 10")
  case True
  then show ?thesis by (simp add: get_logs_excerpt_def excerpt_scan_short)
next
  case False
  then have "excerpt_scan ls ([], [], 0) = excerpt_scan (drop 10 ls) (take 10 ls, [], 10)"
    using excerpt_scan_head [of "[]" ls 0] by simp
  also have "\<dots> = (take 10 ls, drop (length (drop 10 ls) - 10) (drop 10 ls), 10 + length (drop 10 ls))"
    using excerpt_scan_spec [of "take 10 ls" "drop 10 ls" "[]" 10] False by simp
  finally have e: "excerpt_scan ls ([], [], 0) = (take 10 ls, drop (length ls - 20) (drop 10 ls), length ls)"
    using False by simp
  show ?thesis
  proof (cases "length ls \<le> 20")
    case True
    then show ?thesis using False by (simp add: get_logs_excerpt_def e flip: concat_append)
  next
    case False
    then have "length ls - 20 + 10 = length ls - 10" by simp
    with False show ?thesis by (simp add: get_logs_excerpt_def e add.commute)
  qed
qed

section \<open>The progress buffer\<close>





fun buffer_feed :: "(seconds \<times> progress_update) list \<Rightarrow> progress_buffer \<Rightarrow> progress_update list \<times> progress_buffer" where
  "buffer_feed [] b = ([], b)"
| "buffer_feed ((t, u) # us) b =
     (let (out, b1) = buffer_set_progress t u b; (outs, b2) = buffer_feed us b1
      in ((case out of None \<Rightarrow> outs | Some v \<Rightarrow> v # outs), b2))"

lemma buffer_feed_snoc:
  "buffer_feed (us @ [(t, u)]) b =
     (case buffer_feed us b of (outs, b1) \<Rightarrow>
        (case buffer_set_progress t u b1 of (out, b2) \<Rightarrow> (outs @ (case out of None \<Rightarrow> [] | Some v \<Rightarrow> [v]), b2)))"
  by (induction us arbitrary: b) (auto split: prod.splits option.splits)

text \<open>
  The buffer loses nothing but what newer updates replace: after any calls, the update that was
  given last has been reported or is what flushing the buffer reports.
\<close>

lemma buffer_keeps_last_update:
  assumes "buffer_feed (us @ [(t, u)]) b = (outs, b')"
  shows "fst (buffer_flush now b') = Some u \<or> (outs \<noteq> [] \<and> last outs = u)"
  using assms
  by (auto simp: buffer_feed_snoc buffer_set_progress_def buffer_flush_def do_pending_update_def
      split: prod.splits if_splits option.splits)

section \<open>Access\<close>

lemma access_granted_limited:
  assumes "credential_access_error st apps jb (Some c) (Some access) = None"
    and "is_user_session c" and "\<not> credential_has_full_admin st c"
  shows "(\<exists>own. job_credentials apps jb = Some own \<and> is_user_session own \<and> cred_username st own = cred_username st c) \<or>
    (access = READ \<and> list_ex (has_role st c) (opt_read_roles (jb_options jb)))"
  using assms
  by (auto simp: credential_access_error_def credential_is_limited_to_own_jobs_def split: option.splits if_splits)

text \<open>
  C25: a user without full administrator privileges can abort no job but the ones that a session
  of the same user submitted, and only the job with the given id is touched.
\<close>

theorem abort_only_own_jobs:
  assumes "job_abort st apps (Some a) job_id q = Inr q'" and "apps a = Some c"
    and "is_user_session c" and "\<not> credential_has_full_admin st c"
  shows "\<exists>j own. map_of (q_dict q) job_id = Some j \<and> q' = abort j q \<and>
    job_credentials apps (q_jobs q j) = Some own \<and> is_user_session own \<and> cred_username st own = cred_username st c"
proof -
  obtain j where j: "map_of (q_dict q) job_id = Some j" "q' = abort j q"
    "credential_access_error st apps (q_jobs q j) (Some c) (Some ABORT) = None"
    using assms(1,2) by (auto simp: job_abort_def job_by_app_and_id_def job_by_credential_and_id_def split: option.splits)
  with access_granted_limited [OF j(3) assms(3,4)] show ?thesis by auto
qed

definition limited_user_store :: store where
  "limited_user_store = example_store\<lparr>st_users := (\<lambda>u. \<lparr>u_username = (if u = 0 then ''ann'' else ''bob''), u_account_attributes = [],
     u_privilege = \<lparr>pv_roles = {}, pv_allowlist = [], pv_web_shell = False, pv_webui_access = True\<rparr>\<rparr>)\<rparr>"

text \<open>The session of one user submits a job, another session of that user aborts it.\<close>

definition example_apps :: "app_id \<Rightarrow> cred option" where
  "example_apps a = (if a = ''first'' then Some (UserCred 1 LoginPassword None 0)
     else if a = ''second'' then Some (UserCred 2 (ApiKey 1 ''key'') None 0) else Some (UserCred 3 LoginPassword None 1))"

definition example_owned :: jobs_queue where
  "example_owned = snd (add limited_user_store example_apps 0
     (snd (new_job 0 ''a.b'' True [] (example_options NoLock False) [] False (Some ''first'') None example_start)))"

theorem abort_only_own_jobs_witness:
  "job_abort limited_user_store example_apps (Some ''second'') 1 example_owned = Inr (abort 0 example_owned) \<and>
   (\<exists>own. job_credentials example_apps (q_jobs example_owned 0) = Some own \<and> is_user_session own \<and>
      cred_username limited_user_store own = Some ''ann'') \<and>
   (\<exists>e. job_abort limited_user_store example_apps (Some ''third'') 1 example_owned = Inl e)"
proof -
  have o: "q_dict example_owned = [(1, 0)]" "jb_app (q_jobs example_owned 0) = Some ''first''"
    by (simp_all add: example_owned_def queue_evals)
  have a: "job_abort limited_user_store example_apps (Some ''second'') 1 example_owned = Inr (abort 0 example_owned)"
    "\<exists>e. job_abort limited_user_store example_apps (Some ''third'') 1 example_owned = Inl e"
    by (simp_all add: job_abort_def job_by_app_and_id_def job_by_credential_and_id_def o credential_access_error_def
        credential_is_limited_to_own_jobs_def credential_has_full_admin_def job_credentials_def example_apps_def
        is_user_session_def cred_username_def limited_user_store_def user_roles_def cred_allowlist_def)
  from abort_only_own_jobs [OF a(1), of "UserCred 2 (ApiKey 1 ''key'') None 0"] o a show ?thesis
    by (auto simp: example_apps_def is_user_session_def credential_has_full_admin_def limited_user_store_def cred_username_def user_roles_def cred_allowlist_def)
qed

text \<open>
  What \<open>core.get_jobs\<close> may show a user without full administrator privileges: the
  jobs of the sessions of that user, and the jobs whose \<open>read_roles\<close> the user has; every
  such job that is kept is shown.
\<close>

lemma visible_jobs:
  assumes "is_user_session c" and "\<not> credential_has_full_admin st c"
  shows "map_of (for_credential st apps (Some c) READ q) = map_of (filter (\<lambda>(i, j).
     (\<exists>own. job_credentials apps (q_jobs q j) = Some own \<and> is_user_session own \<and> cred_username st own = cred_username st c) \<or>
     list_ex (has_role st c) (opt_read_roles (jb_options (q_jobs q j)))) (q_dict q))"
proof -
  have "credential_can_access st apps jb (Some c) (Some READ) \<longleftrightarrow>
     (\<exists>own. job_credentials apps jb = Some own \<and> is_user_session own \<and> cred_username st own = cred_username st c) \<or>
     list_ex (has_role st c) (opt_read_roles (jb_options jb))" for jb
    using assms
    by (auto simp: credential_can_access_def credential_access_error_def credential_is_limited_to_own_jobs_def split: option.splits)
  then show ?thesis using assms by (simp add: for_credential_def credential_is_limited_to_own_jobs_def)
qed

end
