(* ===== verification/Authenticator.thy ===== *)
theory Authenticator
  imports Privileges
begin

text \<open>
  The authenticators of \<^verbatim>\<open>middlewared/utils/account/authenticator.py\<close> and the
  one-time passwords of \<^verbatim>\<open>middlewared/utils/auth.py\<close>.

  The PAM library behind an authenticator is an argument: what it answers to a call may depend
  on all calls made with the handle before, which the authenticator records in its history. So
  are the name service, the hash functions and the clock.
\<close>

section \<open>One-time passwords\<close>

datatype OTPWResponseCode =
    OTPW_SUCCESS | OTPW_EXPIRED | OTPW_NO_KEY | OTPW_ALREADY_USED | OTPW_WRONG_USER | OTPW_BAD_PASSKEY

record otpw_entry =
  ot_uid :: int
  ot_expires :: seconds
  ot_keyhash :: string
  ot_used :: bool
  ot_password_set_override :: bool

record otpw_manager =
  otpasswd :: "(string, otpw_entry) py_dict"
  ot_cnt :: nat

text \<open>The random string of 24 characters is an argument.\<close>

definition human_friendly :: "string \<Rightarrow> string" where
  "human_friendly p =
     py_join ''-'' [take 6 p, take 6 (drop 6 p), take 6 (drop 12 p), take 6 (drop 18 p)]"

definition generate_for_uid ::
  "(string \<Rightarrow> string) \<Rightarrow> string \<Rightarrow> seconds \<Rightarrow> int \<Rightarrow> bool \<Rightarrow> otpw_manager \<Rightarrow> string \<times> otpw_manager" where
  "generate_for_uid sha512_crypt p now user_id admin_generated m =
     (let h = human_friendly p; cnt = Suc (ot_cnt m);
          entry = \<lparr>ot_uid = user_id, ot_expires = now + 86400, ot_keyhash = sha512_crypt h, ot_used = False,
                   ot_password_set_override = admin_generated\<rparr>
      in (py_str cnt @ ''_'' @ h,
          m\<lparr>ot_cnt := cnt, otpasswd := AList.update (py_str cnt) entry (otpasswd m)\<rparr>))"

definition otpw_authenticate ::
  "(string \<Rightarrow> string \<Rightarrow> bool) \<Rightarrow> seconds \<Rightarrow> int \<Rightarrow> string \<Rightarrow> otpw_manager \<Rightarrow>
     (OTPWResponseCode \<times> otpw_entry option) \<times> otpw_manager" where
  "otpw_authenticate check_unixhash now user_id plaintext m =
     (case py_split CHR ''_'' plaintext of
        [idx, passwd] \<Rightarrow>
          (case map_of (otpasswd m) idx of
             None \<Rightarrow> ((OTPW_NO_KEY, None), m)
           | Some entry \<Rightarrow>
               if ot_uid entry \<noteq> user_id then ((OTPW_WRONG_USER, None), m)
               else if ot_used entry then ((OTPW_ALREADY_USED, None), m)
               else if now > ot_expires entry then ((OTPW_EXPIRED, None), m)
               else if \<not> check_unixhash passwd (ot_keyhash entry) then ((OTPW_BAD_PASSKEY, None), m)
               else
                 (let entry' = entry\<lparr>ot_used := True\<rparr>
                  in ((OTPW_SUCCESS, Some entry'), m\<lparr>otpasswd := AList.update idx entry' (otpasswd m)\<rparr>)))
      | _ \<Rightarrow> ((OTPW_NO_KEY, None), m))"

section \<open>The PAM library\<close>

datatype msg_style = PAM_PROMPT_ECHO_OFF | PAM_PROMPT_ECHO_ON | PAM_TEXT_INFO | PAM_ERROR_MSG

type_synonym pam_msg = "msg_style \<times> string"

text \<open>The service files of the authenticators.\<close>

datatype TruenasPamFile = DEFAULT_file | API_KEY_file | UNIX_file

datatype pam_call =
    AuthInit TruenasPamFile string
  | AuthContinue "string option list"
  | AccountManagement

text \<open>
  An answer of the library: the code, the messages of a conversation, the reason, the user name
  it reports and the messages the context shows afterwards.
\<close>

record pam_step =
  ps_code :: pam_code
  ps_messages :: "pam_msg list"
  ps_reason :: "string option"
  ps_user :: "string option"
  ps_context :: "string list"

type_synonym pam = "pam_call list \<Rightarrow> pam_step"

section \<open>Authenticators\<close>

datatype hdl_kind = UserHdl | ApiKeyHdl | ScramHdl | UnixHdl | TokenHdl

record authenticator =
  au_kind :: hdl_kind
  au_username :: string
  au_service :: TruenasPamFile
  au_state_service :: TruenasPamFile
  au_twofactor_user :: bool
  au_otpw_possible :: bool
  au_passwd :: "passwd_entry option"
  au_dbid :: string
  au_client_first :: string
  au_api_key_id :: int
  au_scram_error :: "string option"
  au_sent_server_first :: bool
  au_sent_server_final :: bool
  au_history :: "pam_call list"

datatype auth_exn =
    OriginTypeError
  | NoSuchServiceFile TruenasPamFile
  | UnexpectedService TruenasPamFile
  | AdminNotLocal
  | UserMismatch
  | PasswdNotSet
  | UnexpectedPamMessage
  | AlreadySentFirst
  | AlreadySentFinal
  | FirstNotSent

record pam_resp =
  pr_code :: pam_code
  pr_reason :: "string option"
  pr_user_info :: "passwd_entry option"

definition new_authenticator :: "hdl_kind \<Rightarrow> TruenasPamFile \<Rightarrow> string \<Rightarrow> authenticator" where
  "new_authenticator kind service username =
     \<lparr>au_kind = kind, au_username = username, au_service = service, au_state_service = service,
      au_twofactor_user = False, au_otpw_possible = (kind = UserHdl), au_passwd = None, au_dbid = [],
      au_client_first = [], au_api_key_id = 0, au_scram_error = None, au_sent_server_first = False,
      au_sent_server_final = False, au_history = []\<rparr>"

definition new_user_authenticator :: "string \<Rightarrow> authenticator" where
  "new_user_authenticator username = new_authenticator UserHdl DEFAULT_file username"

definition new_api_key_authenticator :: "string \<Rightarrow> origin \<Rightarrow> auth_exn + authenticator" where
  "new_api_key_authenticator username org =
     (if \<not> is_tcp_ip_family org then Inl OriginTypeError
      else Inr (new_authenticator ApiKeyHdl API_KEY_file username))"

text \<open>
  The SCRAM library parses the client's first message into a user name and an API key id, or
  fails with a message. After a failure \<open>otpw_possible\<close> keeps the value of the base class.
\<close>

definition new_scram_authenticator ::
  "(string \<Rightarrow> string + (string \<times> int)) \<Rightarrow> string \<Rightarrow> origin \<Rightarrow> auth_exn + authenticator" where
  "new_scram_authenticator parse_client_first rfc org =
     (if \<not> is_tcp_ip_family org then Inl OriginTypeError
      else (case parse_client_first rfc of
         Inl e \<Rightarrow> Inr ((new_authenticator ScramHdl API_KEY_file ''nobody'')\<lparr>au_scram_error := Some e, au_otpw_possible := True\<rparr>)
       | Inr (user, key_id) \<Rightarrow>
           Inr ((new_authenticator ScramHdl API_KEY_file user)\<lparr>au_client_first := rfc, au_api_key_id := key_id\<rparr>)))"

definition new_unix_authenticator :: "string \<Rightarrow> origin \<Rightarrow> auth_exn + authenticator" where
  "new_unix_authenticator username org =
     (if \<not> is_unix_family org then Inl OriginTypeError else Inr (new_authenticator UnixHdl UNIX_file username))"

definition new_token_authenticator :: "string \<Rightarrow> authenticator" where
  "new_token_authenticator username = new_authenticator TokenHdl UNIX_file username"

text \<open>\<open>_get_pam_session_info\<close>; \<open>None\<close>: the variable is not assigned for another family.\<close>

definition opt_int :: "int option \<Rightarrow> pyval" where
  "opt_int x = (case x of None \<Rightarrow> PNone | Some i \<Rightarrow> PInt i)"

definition str_of_opt :: "string option \<Rightarrow> string" where
  "str_of_opt s = (case s of None \<Rightarrow> ''None'' | Some x \<Rightarrow> x)"

definition get_pam_session_info :: "origin \<Rightarrow> pyval option" where
  "get_pam_session_info org =
     (let extra = (''extra'', PDict [(''secure_transport'', PBool (secure_transport org))]) in
      if family org = AF_UNIX then
        Some (PDict [(''origin_family'', PStr ''AF_UNIX''),
          (''origin'', PDict [(''pid'', opt_int (pid org)), (''uid'', opt_int (uid org)),
             (''gid'', opt_int (gid org)), (''loginuid'', opt_int (loginuid org)), (''sec'', PStr ''unconfined'')]),
          extra])
      else if is_tcp_ip_family org then
        Some (PDict [(''origin_family'', PStr (if family org = AF_INET then ''AF_INET'' else ''AF_INET6'')),
          (''origin'', PDict [(''loc_addr'', PStr (str_of_opt (loc_addr org))), (''loc_port'', opt_int (loc_port org)),
             (''rem_addr'', PStr (str_of_opt (rem_addr org))), (''rem_port'', opt_int (rem_port org)),
             (''ssl'', PBool (ssl org))]),
          extra])
      else None)"

section \<open>The passwd object\<close>

text \<open>What the name service says: an entry, its groups and the provider of a group.\<close>

record nss_passwd =
  np_name :: string
  np_uid :: int
  np_gid :: int
  np_source :: string

record nss =
  nss_getpwnam :: "string \<Rightarrow> nss_passwd option"
  nss_getgrouplist :: "string \<Rightarrow> int \<Rightarrow> int list"
  nss_group_source :: "int \<Rightarrow> string option"
  nss_is_ipa :: bool

definition ADMIN_UID :: int where
  "ADMIN_UID = 950"

definition source_name :: "string \<Rightarrow> string" where
  "source_name prov =
     (if prov = ''FILES'' then ''LOCAL'' else if prov = ''WINBIND'' then ''ACTIVEDIRECTORY''
      else if prov = ''SSS'' then ''LDAP'' else prov)"

definition source_flags :: "bool \<Rightarrow> string \<Rightarrow> string list" where
  "source_flags is_ipa prov =
     (if prov = ''FILES'' then [''LOCAL'']
      else if prov = ''WINBIND'' then [''DIRECTORY_SERVICE'', ''ACTIVE_DIRECTORY'']
      else if prov = ''SSS'' then if is_ipa then [''DIRECTORY_SERVICE'', ''IPA''] else [''DIRECTORY_SERVICE'', ''LDAP'']
      else [])"

text \<open>
  \<open>_get_user_obj\<close>: the outer \<open>None\<close> is the \<open>KeyError\<close> of an unknown user; the
  error is a system administrator from a directory service.
\<close>

definition get_user_obj :: "nss \<Rightarrow> string \<Rightarrow> authenticator \<Rightarrow> ((auth_exn + passwd_entry) \<times> authenticator) option" where
  "get_user_obj ns username a =
     (case nss_getpwnam ns username of
        None \<Rightarrow> None
      | Some pw \<Rightarrow>
          (let prov = np_source pw;
               sysadmin = np_uid pw = 0 \<or> np_uid pw = ADMIN_UID;
               entry = \<lparr>pw_name = np_name pw, pw_uid = np_uid pw, pw_local = (prov = ''FILES''), pw_source = source_name prov,
                  pw_grouplist = filter (\<lambda>g. nss_group_source ns g = Some prov) (nss_getgrouplist ns (np_name pw) (np_gid pw)),
                  pw_account_attributes = source_flags (nss_is_ipa ns) prov @
                    (if au_state_service a = API_KEY_file then [''API_KEY''] else []) @
                    (if au_twofactor_user a then [''2FA''] else []) @
                    (if sysadmin then [''SYS_ADMIN''] else [])\<rparr>;
               a1 = a\<lparr>au_passwd := Some entry\<rparr>
           in Some (if sysadmin \<and> \<not> pw_local entry then Inl AdminNotLocal else Inr entry, a1)))"

section \<open>Conversations\<close>

definition call_pam :: "pam \<Rightarrow> pam_call \<Rightarrow> authenticator \<Rightarrow> pam_step \<times> authenticator" where
  "call_pam lib c a = (let h = au_history a @ [c] in (lib h, a\<lparr>au_history := h\<rparr>))"

text \<open>The answers to the prompts, or the prompt for the second factor.\<close>

fun answer_prompts :: "string \<Rightarrow> string \<Rightarrow> pam_msg list \<Rightarrow> string + string option list" where
  "answer_prompts username password [] = Inr []"
| "answer_prompts username password ((style, msg) # ms) =
     (if style = PAM_PROMPT_ECHO_OFF \<and> sublist ''(OATH)'' msg then Inl msg
      else map_sum id (\<lambda>rs. (if style = PAM_PROMPT_ECHO_OFF then Some password
                            else if style = PAM_PROMPT_ECHO_ON then Some username else None) # rs)
             (answer_prompts username password ms))"

text \<open>
  The loop of \<open>pam_authenticate_simple\<close>. A PAM stack may prompt for ever, so the loop is
  given the number of its turns; \<open>None\<close>: it has not ended by then.
\<close>

fun conversation :: "nat \<Rightarrow> pam \<Rightarrow> string \<Rightarrow> string \<Rightarrow> pam_step \<Rightarrow> authenticator \<Rightarrow> (pam_step \<times> authenticator) option" where
  "conversation turns lib username password resp a =
     (if ps_code resp \<noteq> PAM_CONV_AGAIN then Some (resp, a)
      else (case answer_prompts username password (ps_messages resp) of
              Inl msg \<Rightarrow> Some (resp\<lparr>ps_reason := Some msg\<rparr>, a\<lparr>au_twofactor_user := True\<rparr>)
            | Inr responses \<Rightarrow>
                (case turns of
                   0 \<Rightarrow> None
                 | Suc n \<Rightarrow>
                     (case call_pam lib (AuthContinue responses) a of
                        (resp', a') \<Rightarrow> conversation n lib username password resp' a'))))"

declare conversation.simps [simp del]

definition pam_authenticate_simple ::
  "nat \<Rightarrow> pam \<Rightarrow> string \<Rightarrow> string \<Rightarrow> authenticator \<Rightarrow> (pam_step \<times> authenticator) option" where
  "pam_authenticate_simple turns lib username password a =
     (case call_pam lib (AuthInit (au_state_service a) username)
             (a\<lparr>au_username := username, au_twofactor_user := False\<rparr>) of
        (resp, a1) \<Rightarrow> conversation turns lib username password resp a1)"

section \<open>Authentication\<close>

text \<open>What authentication reads from outside.\<close>

record auth_env =
  ae_nss :: nss
  ae_pam :: pam
  ae_tally_locked :: "string \<Rightarrow> bool"
  ae_service_file_exists :: "TruenasPamFile \<Rightarrow> bool"
  ae_check_unixhash :: "string \<Rightarrow> string \<Rightarrow> bool"
  ae_now :: seconds
  ae_turns :: nat

definition add_flag :: "string \<Rightarrow> authenticator \<Rightarrow> authenticator" where
  "add_flag flag a = a\<lparr>au_passwd := map_option (\<lambda>p. p\<lparr>pw_account_attributes := pw_account_attributes p @ [flag]\<rparr>) (au_passwd a)\<rparr>"

text \<open>\<open>__otpw_authenticate\<close>: \<open>None\<close> tells the caller to keep the answer of PAM.\<close>

definition otpw_fallback ::
  "auth_env \<Rightarrow> string \<Rightarrow> passwd_entry \<Rightarrow> authenticator \<times> otpw_manager \<Rightarrow>
     (pam_code \<times> string option) option \<times> authenticator \<times> otpw_manager" where
  "otpw_fallback env password pw s =
     (case s of (a, m) \<Rightarrow>
        if \<not> au_otpw_possible a then (None, a, m)
        else (case otpw_authenticate (ae_check_unixhash env) (ae_now env) (pw_uid pw) password m of
           ((code, entry), m1) \<Rightarrow>
             (case code of
                OTPW_SUCCESS \<Rightarrow>
                  (let a1 = add_flag ''OTPW'' a;
                       a2 = (if (case entry of None \<Rightarrow> False | Some e \<Rightarrow> ot_password_set_override e) \<and> pw_source pw = ''LOCAL''
                             then add_flag ''PASSWORD_CHANGE_REQUIRED'' a1 else a1)
                   in (Some (PAM_SUCCESS, None), a2, m1))
              | OTPW_EXPIRED \<Rightarrow> (Some (PAM_CRED_EXPIRED, Some ''Onetime password is expired''), a, m1)
              | OTPW_NO_KEY \<Rightarrow> (None, a, m1)
              | OTPW_ALREADY_USED \<Rightarrow> (Some (PAM_AUTH_ERR, Some ''Onetime password authentication failed: ALREADY_USED''), a, m1)
              | OTPW_WRONG_USER \<Rightarrow> (Some (PAM_AUTH_ERR, Some ''Onetime password authentication failed: WRONG_USER''), a, m1)
              | OTPW_BAD_PASSKEY \<Rightarrow> (Some (PAM_AUTH_ERR, Some ''Onetime password authentication failed: BAD_PASSKEY''), a, m1))))"

text \<open>After a failure of PAM: the tally lock, then the one-time passwords.\<close>

definition after_failure ::
  "auth_env \<Rightarrow> string \<Rightarrow> passwd_entry \<Rightarrow> pam_step \<Rightarrow> authenticator \<times> otpw_manager \<Rightarrow>
     (pam_step \<times> authenticator \<times> otpw_manager) option" where
  "after_failure env password pw resp s =
     (if ps_code resp \<noteq> PAM_AUTH_ERR \<or> au_state_service (fst s) \<noteq> DEFAULT_file then Some (resp, s)
      else if ae_tally_locked env (pw_name pw) then
        Some (resp\<lparr>ps_code := PAM_PERM_DENIED, ps_reason := Some ''Account is locked due to failed login attempts.''\<rparr>, s)
      else (case otpw_fallback env password pw s of
              (None, s1) \<Rightarrow> Some (resp, s1)
            | (Some (code, reason), a1, m1) \<Rightarrow>
                if code = PAM_SUCCESS then
                  map_option (\<lambda>(resp', a2). (resp'\<lparr>ps_user := Some (pw_name pw)\<rparr>, a2, m1))
                    (pam_authenticate_simple (ae_turns env) (ae_pam env) (pw_name pw) [] (a1\<lparr>au_state_service := UNIX_file\<rparr>))
                else Some (resp\<lparr>ps_code := code, ps_reason := reason\<rparr>, a1, m1)))"

text \<open>After a success: \<open>pam_acct_mgmt\<close>.\<close>

definition account_check :: "pam \<Rightarrow> pam_step \<Rightarrow> authenticator \<Rightarrow> pam_step \<times> authenticator" where
  "account_check lib resp a =
     (if ps_code resp \<noteq> PAM_SUCCESS then (resp, a)
      else (case call_pam lib AccountManagement a of
              (acct, a1) \<Rightarrow>
                if ps_code acct = PAM_SUCCESS then (resp, a1)
                else if ps_code acct = PAM_AUTH_ERR \<and>
                    list_ex (\<lambda>m. py_startswith m ''Your account has expired'') (ps_context acct) then
                  (resp\<lparr>ps_code := PAM_ACCT_EXPIRED, ps_reason := Some ''Account expired due to aging rules''\<rparr>, a1)
                else (resp\<lparr>ps_code := ps_code acct, ps_reason := ps_reason acct\<rparr>, a1)))"

text \<open>A successful answer carries a copy of the passwd object, whose name must be the one PAM reports.\<close>

definition with_user_info :: "pam_step \<Rightarrow> authenticator \<Rightarrow> auth_exn + pam_resp" where
  "with_user_info resp a =
     (if ps_code resp \<noteq> PAM_SUCCESS then
        Inr \<lparr>pr_code = ps_code resp, pr_reason = ps_reason resp, pr_user_info = None\<rparr>
      else (case au_passwd a of
              None \<Rightarrow> Inl PasswdNotSet
            | Some pw \<Rightarrow>
                if ps_user resp = Some (pw_name pw) then
                  Inr \<lparr>pr_code = PAM_SUCCESS, pr_reason = ps_reason resp, pr_user_info = Some pw\<rparr>
                else Inl UserMismatch))"

text \<open>\<open>UserPamAuthenticator.authenticate\<close>; \<open>None\<close>: a conversation did not end.\<close>

definition user_authenticate ::
  "auth_env \<Rightarrow> string \<Rightarrow> string \<Rightarrow> authenticator \<times> otpw_manager \<Rightarrow>
     ((auth_exn + pam_resp) \<times> authenticator \<times> otpw_manager) option" where
  "user_authenticate env username password s =
     (case s of (a, m) \<Rightarrow>
        (case get_user_obj (ae_nss env) username a of
           None \<Rightarrow> Some (Inr \<lparr>pr_code = PAM_AUTH_ERR, pr_reason = Some (username @ '': user does not exist''), pr_user_info = None\<rparr>, a, m)
         | Some (Inl e, a1) \<Rightarrow> Some (Inl e, a1, m)
         | Some (Inr pw, a1) \<Rightarrow>
             if \<not> ae_service_file_exists env (au_service a1) then Some (Inl (NoSuchServiceFile (au_service a1)), a1, m)
             else if au_service a1 \<noteq> au_state_service a1 then Some (Inl (UnexpectedService (au_state_service a1)), a1, m)
             else
               (case pam_authenticate_simple (ae_turns env) (ae_pam env) (pw_name pw) password a1 of
                  None \<Rightarrow> None
                | Some (resp, a2) \<Rightarrow>
                    (case (if ps_code resp \<noteq> PAM_SUCCESS then after_failure env password pw resp (a2, m) else Some (resp, a2, m)) of
                       None \<Rightarrow> None
                     | Some (resp1, a3, m1) \<Rightarrow>
                         (case account_check (ae_pam env) resp1 a3 of
                            (resp2, a4) \<Rightarrow> Some (with_user_info resp2 a4, a4, m1))))))"

definition authenticate_oath :: "pam \<Rightarrow> string \<Rightarrow> authenticator \<Rightarrow> (auth_exn + pam_resp) \<times> authenticator" where
  "authenticate_oath lib twofactor_token a =
     (if \<not> au_twofactor_user a then
        (Inr \<lparr>pr_code = PAM_AUTH_ERR, pr_reason = Some ''User does not support two-factor auth'', pr_user_info = None\<rparr>, a)
      else (case call_pam lib (AuthContinue [Some twofactor_token]) a of
              (resp, a1) \<Rightarrow> (with_user_info resp a1, a1)))"

text \<open>The plain API key: the part before the first dash is the id of the key.\<close>

definition api_key_authenticate ::
  "auth_env \<Rightarrow> string \<Rightarrow> string \<Rightarrow> authenticator \<times> otpw_manager \<Rightarrow>
     ((auth_exn + pam_resp) \<times> authenticator \<times> otpw_manager) option" where
  "api_key_authenticate env username password s =
     (if CHR ''-'' \<notin> set password then user_authenticate env username password s
      else user_authenticate env username (tl (dropWhile (\<lambda>c. c \<noteq> CHR ''-'') password))
             ((fst s)\<lparr>au_dbid := takeWhile (\<lambda>c. c \<noteq> CHR ''-'') password\<rparr>, snd s))"

definition internal_authenticate ::
  "auth_env \<Rightarrow> string \<Rightarrow> authenticator \<times> otpw_manager \<Rightarrow>
     ((auth_exn + pam_resp) \<times> authenticator \<times> otpw_manager) option" where
  "internal_authenticate env username s = user_authenticate env username [] s"

section \<open>SCRAM\<close>

definition scram_error_resp :: "string \<Rightarrow> pam_resp" where
  "scram_error_resp reason = \<lparr>pr_code = PAM_AUTH_ERR, pr_reason = Some reason, pr_user_info = None\<rparr>"

fun answer_scram :: "string \<Rightarrow> string \<Rightarrow> pam_msg list \<Rightarrow> string option list option" where
  "answer_scram username first [] = Some []"
| "answer_scram username first ((style, msg) # ms) =
     (if style = PAM_PROMPT_ECHO_OFF then
        if sublist ''Send SCRAM ClientFirst message'' msg then map_option (\<lambda>rs. Some first # rs) (answer_scram username first ms)
        else None
      else if style = PAM_PROMPT_ECHO_ON then map_option (\<lambda>rs. Some username # rs) (answer_scram username first ms)
      else None)"

text \<open>The printed form of the code, which the PAM bindings choose, is left out of the reason.\<close>

definition unexpected_code :: pam_resp where
  "unexpected_code = scram_error_resp ''unexpected response code. Expected [PAM_CONV_AGAIN]''"

definition handle_first_message :: "nss \<Rightarrow> pam \<Rightarrow> authenticator \<Rightarrow> (auth_exn + pam_resp) \<times> authenticator" where
  "handle_first_message ns lib a =
     (case au_scram_error a of
        Some e \<Rightarrow> (Inr (scram_error_resp e), a)
      | None \<Rightarrow>
          if au_sent_server_first a then (Inl AlreadySentFirst, a)
          else (case get_user_obj ns (au_username a) a of
             None \<Rightarrow> (Inr (scram_error_resp (au_username a @ '': user does not exist'')), a)
           | Some (Inl e, a1) \<Rightarrow> (Inl e, a1)
           | Some (Inr pw, a1) \<Rightarrow>
               (case call_pam lib (AuthInit (au_state_service a1) (au_username a1)) a1 of
                  (resp, a2) \<Rightarrow>
                    if ps_code resp \<noteq> PAM_CONV_AGAIN then (Inr unexpected_code, a2)
                    else (case answer_scram (au_username a2) (au_client_first a2) (ps_messages resp) of
                       None \<Rightarrow> (Inl UnexpectedPamMessage, a2)
                     | Some rs \<Rightarrow>
                         (case call_pam lib (AuthContinue rs) a2 of
                            (resp1, a3) \<Rightarrow>
                              if ps_code resp1 \<noteq> PAM_CONV_AGAIN then (Inr unexpected_code, a3)
                              else (case ps_messages resp1 of
                                      [(style, msg)] \<Rightarrow>
                                        (Inr \<lparr>pr_code = PAM_CONV_AGAIN, pr_reason = Some msg, pr_user_info = None\<rparr>,
                                         a3\<lparr>au_sent_server_first := True\<rparr>)
                                    | _ \<Rightarrow> (Inl UnexpectedPamMessage, a3)))))))"

definition handle_final_message :: "pam \<Rightarrow> string \<Rightarrow> authenticator \<Rightarrow> (auth_exn + pam_resp) \<times> authenticator" where
  "handle_final_message lib rfc_string a =
     (if au_sent_server_final a then (Inl AlreadySentFinal, a)
      else if \<not> au_sent_server_first a then (Inl FirstNotSent, a)
      else (case call_pam lib (AuthContinue [Some rfc_string]) a of
         (resp, a1) \<Rightarrow>
           if ps_code resp \<noteq> PAM_CONV_AGAIN then (Inr unexpected_code, a1)
           else (case ps_messages resp of
              (PAM_TEXT_INFO, msg) # _ \<Rightarrow>
                (case au_passwd a1 of
                   None \<Rightarrow> (Inl PasswdNotSet, a1)
                 | Some pw \<Rightarrow>
                     (let info = pw\<lparr>pw_account_attributes := pw_account_attributes pw @
                            (if au_api_key_id a1 \<noteq> 0 then [''API_KEY''] else []) @ [''SCRAM'']\<rparr>
                      in (Inr \<lparr>pr_code = PAM_SUCCESS, pr_reason = Some msg, pr_user_info = Some info\<rparr>,
                          snd (call_pam lib (AuthContinue [Some []]) a1))))
            | _ \<Rightarrow> (Inl UnexpectedPamMessage, a1))))"

section \<open>One-time passwords are used once\<close>

text \<open>The manager in use: passwords are generated and tried.\<close>

inductive otpw_step :: "otpw_manager \<Rightarrow> otpw_manager \<Rightarrow> bool" where
  otpw_generated: "otpw_step m (snd (generate_for_uid sha512_crypt p now user_id admin_generated m))"
| otpw_tried: "otpw_step m (snd (otpw_authenticate check_unixhash now user_id plaintext m))"

definition otpw_init :: "otpw_manager \<Rightarrow> bool" where
  "otpw_init m \<longleftrightarrow> otpasswd m = [] \<and> ot_cnt m = 0"

definition otpw_inv :: "otpw_manager \<Rightarrow> bool" where
  "otpw_inv m \<longleftrightarrow> (\<forall>k e. map_of (otpasswd m) k = Some e \<longrightarrow> (\<exists>i\<le>ot_cnt m. k = py_str i))"

lemma otpw_authenticate_keys:
  "map_of (otpasswd (snd (otpw_authenticate check now u pt m))) k = Some e \<Longrightarrow>
     \<exists>e'. map_of (otpasswd m) k = Some e' \<and> (ot_used e' \<longrightarrow> e = e')"
  "ot_cnt (snd (otpw_authenticate check now u pt m)) = ot_cnt m"
  by (auto simp: otpw_authenticate_def Let_def update_conv' split: list.splits option.splits if_splits)

interpretation otpw: invariant_system otpw_init otpw_step otpw_inv
proof
  fix m m' assume inv: "otpw_inv m" and step: "otpw_step m m'"
  from step show "otpw_inv m'"
  proof cases
    case (otpw_generated sha512_crypt p now user_id admin_generated)
    with inv show ?thesis
      by (auto simp: otpw_inv_def generate_for_uid_def Let_def update_conv' intro: le_SucI split: if_splits)
  next
    case (otpw_tried check_unixhash now user_id plaintext)
    with inv show ?thesis unfolding otpw_inv_def using otpw_authenticate_keys by metis
  qed
qed (simp add: otpw_init_def otpw_inv_def)

lemma used_stays_used:
  assumes "otpw_inv m" and "otpw_step m m'" and "map_of (otpasswd m) k = Some e" and "ot_used e"
  shows "map_of (otpasswd m') k = Some e"
  using assms(2)
proof cases
  case (otpw_generated sha512_crypt p now user_id admin_generated)
  obtain i where "i \<le> ot_cnt m" "k = py_str i" using assms(1,3) by (auto simp: otpw_inv_def)
  with otpw_generated assms(3) show ?thesis
    by (auto simp: generate_for_uid_def Let_def update_conv' py_str_inj)
next
  case (otpw_tried check_unixhash now user_id plaintext)
  with assms(3,4) show ?thesis
    by (auto simp: otpw_authenticate_def Let_def update_conv' split: list.splits option.splits)
qed

lemma used_stays_used_steps:
  "otpw_step\<^sup>*\<^sup>* m m' \<Longrightarrow> otpw_inv m \<Longrightarrow> map_of (otpasswd m) k = Some e \<Longrightarrow> ot_used e \<Longrightarrow>
     map_of (otpasswd m') k = Some e"
proof (induction rule: rtranclp_induct)
  case (step m1 m2)
  then show ?case using used_stays_used [OF otpw.steps_inv [OF step(1,4)] step(2)] by blast
qed

text \<open>
  C10: a one-time password authenticates its user until it expires, once: after the first success
  no attempt with it succeeds again, whatever is generated and tried in between.
\<close>

theorem otpw_used_once:
  assumes "reach otpw_init otpw_step m" and "CHR ''_'' \<notin> set p"
    and "check_unixhash (human_friendly p) (sha512_crypt (human_friendly p))"
    and "generate_for_uid sha512_crypt p now user_id admin m = (pw, m1)" and "t \<le> now + 86400"
  shows "fst (fst (otpw_authenticate check_unixhash t user_id pw m1)) = OTPW_SUCCESS \<and>
    (\<forall>m2 check' t' user'. otpw_step\<^sup>*\<^sup>* (snd (otpw_authenticate check_unixhash t user_id pw m1)) m2 \<longrightarrow>
       fst (fst (otpw_authenticate check' t' user' pw m2)) \<noteq> OTPW_SUCCESS)"
proof -
  let ?k = "py_str (Suc (ot_cnt m))" and ?h = "human_friendly p"
  let ?m2 = "snd (otpw_authenticate check_unixhash t user_id pw m1)"
  have "set ?h \<subseteq> set p \<union> {CHR ''-''}"
    by (auto simp: human_friendly_def dest: in_set_takeD in_set_dropD)
  then have "CHR ''_'' \<notin> set ?h" using assms(2) by auto
  moreover have "CHR ''_'' \<notin> set ?k" using py_str_digits [of "CHR ''_''" "Suc (ot_cnt m)"] by (auto simp: is_digit_def)
  ultimately have sp: "py_split CHR ''_'' pw = [?k, ?h]"
    using assms(4) by (auto simp: generate_for_uid_def Let_def py_split_append py_split_no_sep)
  define e where "e = \<lparr>ot_uid = user_id, ot_expires = now + 86400, ot_keyhash = sha512_crypt ?h, ot_used = False,
    ot_password_set_override = admin\<rparr>"
  have m1: "map_of (otpasswd m1) ?k = Some e"
    using assms(4) by (auto simp: generate_for_uid_def Let_def update_conv' e_def)
  have r: "otpw_authenticate check_unixhash t user_id pw m1 =
      ((OTPW_SUCCESS, Some (e\<lparr>ot_used := True\<rparr>)), m1\<lparr>otpasswd := AList.update ?k (e\<lparr>ot_used := True\<rparr>) (otpasswd m1)\<rparr>)"
    using assms(3,5) by (simp add: otpw_authenticate_def sp m1 Let_def) (simp add: e_def)
  have inv1: "otpw_inv m1" using otpw.inv_step [OF otpw.reach_inv [OF assms(1)] otpw_generated]
    assms(4) by (metis snd_conv)
  then have inv2: "otpw_inv ?m2" using otpw.inv_step otpw_tried by blast
  have u: "map_of (otpasswd ?m2) ?k = Some (e\<lparr>ot_used := True\<rparr>)" by (simp add: r update_conv')
  have "fst (fst (otpw_authenticate check' t' user' pw m2)) \<noteq> OTPW_SUCCESS" if "otpw_step\<^sup>*\<^sup>* ?m2 m2" for m2 check' t' user'
    using used_stays_used_steps [OF that inv2 u] by (simp add: otpw_authenticate_def sp)
  with r show ?thesis by simp
qed

theorem otpw_used_once_witness:
  "let crypt = (\<lambda>w. ''$6$'' @ w); check = (\<lambda>w h. h = ''$6$'' @ w);
       m = \<lparr>otpasswd = [], ot_cnt = 0\<rparr>; (pw, m1) = generate_for_uid crypt ''abcdefABCDEF012345ghijkl'' 0 3000 True m;
       (r, m2) = otpw_authenticate check 10 3000 pw m1
   in fst r = OTPW_SUCCESS \<and> fst (fst (otpw_authenticate check 11 3000 pw m2)) \<noteq> OTPW_SUCCESS"
proof -
  let ?m = "\<lparr>otpasswd = [], ot_cnt = 0\<rparr>"
  obtain pw m1 where g: "generate_for_uid (\<lambda>w. ''$6$'' @ w) ''abcdefABCDEF012345ghijkl'' 0 3000 True ?m = (pw, m1)"
    by (cases "generate_for_uid (\<lambda>w. ''$6$'' @ w) ''abcdefABCDEF012345ghijkl'' 0 3000 True ?m")
  have "reach otpw_init otpw_step ?m" by (rule reach_init) (simp add: otpw_init_def)
  from otpw_used_once [OF this _ _ g, of "\<lambda>w h. h = ''$6$'' @ w" 10] show ?thesis
    unfolding Let_def g by (auto split: prod.split)
qed

section \<open>The account check\<close>

lemma call_pam_simps:
  "call_pam lib c a = (lib (au_history a @ [c]), a\<lparr>au_history := au_history a @ [c]\<rparr>)"
  by (simp add: call_pam_def Let_def)

text \<open>What a conversation leaves alone.\<close>

lemma conversation_frame:
  "conversation turns lib username password resp a = Some (resp', a') \<Longrightarrow>
     au_passwd a' = au_passwd a \<and> (AccountManagement \<in> set (au_history a') \<longrightarrow> AccountManagement \<in> set (au_history a)) \<and>
     (au_twofactor_user a' \<longrightarrow> au_twofactor_user a \<or> ps_code resp' = PAM_CONV_AGAIN)"
proof (induction turns arbitrary: resp a)
  case 0
  then show ?case by (subst (asm) conversation.simps) (auto split: if_splits sum.splits)
next
  case (Suc n)
  show ?case
  proof (cases "ps_code resp = PAM_CONV_AGAIN")
    case False
    with Suc.prems show ?thesis by (subst (asm) conversation.simps) auto
  next
    case True
    show ?thesis
    proof (cases "answer_prompts username password (ps_messages resp)")
      case (Inl msg)
      with True Suc.prems show ?thesis by (subst (asm) conversation.simps) auto
    next
      case (Inr responses)
      with True Suc.prems have "conversation n lib username password (lib (au_history a @ [AuthContinue responses]))
          (a\<lparr>au_history := au_history a @ [AuthContinue responses]\<rparr>) = Some (resp', a')"
        by (subst (asm) conversation.simps) (simp add: call_pam_simps)
      from Suc.IH [OF this] show ?thesis by auto
    qed
  qed
qed

lemma simple_frame:
  assumes "pam_authenticate_simple turns lib username password a = Some (resp, a')"
  shows "au_passwd a' = au_passwd a \<and> (AccountManagement \<in> set (au_history a') \<longrightarrow> AccountManagement \<in> set (au_history a)) \<and>
    (au_twofactor_user a' \<longrightarrow> ps_code resp = PAM_CONV_AGAIN)"
  using assms conversation_frame by (force simp: pam_authenticate_simple_def call_pam_simps)

lemma account_check_success:
  assumes "account_check lib resp a = (resp', a')" and "ps_code resp' = PAM_SUCCESS"
  shows "au_history a' = au_history a @ [AccountManagement] \<and> ps_code (lib (au_history a')) = PAM_SUCCESS"
  using assms by (auto simp: account_check_def call_pam_simps split: if_splits)

text \<open>A user with a second factor and an expired account, and the answers of PAM to it.\<close>

definition example_nss :: nss where
  "example_nss = \<lparr>nss_getpwnam = (\<lambda>n. if n = ''ann'' then Some \<lparr>np_name = ''ann'', np_uid = 3000, np_gid = 3000, np_source = ''FILES''\<rparr> else None),
     nss_getgrouplist = (\<lambda>_ _. [3000]), nss_group_source = (\<lambda>_. Some ''FILES''), nss_is_ipa = False\<rparr>"

definition example_pam :: "bool \<Rightarrow> bool \<Rightarrow> pam" where
  "example_pam second_factor account_ok h =
     (let answer = (\<lambda>code msgs. \<lparr>ps_code = code, ps_messages = msgs, ps_reason = None, ps_user = Some ''ann'', ps_context = []\<rparr>)
      in case last h of
           AuthInit _ _ \<Rightarrow> answer PAM_CONV_AGAIN [(PAM_PROMPT_ECHO_OFF, ''Password: '')]
         | AuthContinue rs \<Rightarrow>
             if rs = [Some ''secret''] \<and> second_factor then answer PAM_CONV_AGAIN [(PAM_PROMPT_ECHO_OFF, ''One-time password (OATH): '')]
             else if rs = [Some ''secret''] \<or> rs = [Some ''123456''] then answer PAM_SUCCESS []
             else answer PAM_AUTH_ERR []
         | AccountManagement \<Rightarrow> answer (if account_ok then PAM_SUCCESS else PAM_ACCT_EXPIRED) [])"

definition example_env :: "bool \<Rightarrow> bool \<Rightarrow> auth_env" where
  "example_env second_factor account_ok =
     \<lparr>ae_nss = example_nss, ae_pam = example_pam second_factor account_ok, ae_tally_locked = (\<lambda>_. False),
      ae_service_file_exists = (\<lambda>_. True), ae_check_unixhash = (\<lambda>w h. h = ''$6$'' @ w), ae_now = 0, ae_turns = 3\<rparr>"

abbreviation no_otpw :: otpw_manager where
  "no_otpw \<equiv> \<lparr>otpasswd = [], ot_cnt = 0\<rparr>"

lemmas authenticator_evals = user_authenticate_def get_user_obj_def new_user_authenticator_def new_authenticator_def
  pam_authenticate_simple_def call_pam_simps conversation.simps example_env_def example_nss_def example_pam_def
  account_check_def with_user_info_def source_flags_def source_name_def ADMIN_UID_def Let_def
  after_failure_def eval_nat_numeral sublist_code

text \<open>
  C31: a login by password, API key, token or unix socket succeeds only when the last thing PAM was
  asked is whether the account is valid, and it said so.
\<close>

theorem authenticate_checks_account:
  assumes "user_authenticate env username password (a, m) = Some (Inr r, a', m')" and "pr_code r = PAM_SUCCESS"
  shows "\<exists>h. au_history a' = h @ [AccountManagement] \<and> ps_code (ae_pam env (au_history a')) = PAM_SUCCESS"
proof -
  from assms obtain resp1 a3 resp2 where c: "account_check (ae_pam env) resp1 a3 = (resp2, a')"
    and w: "with_user_info resp2 a' = Inr r"
    by (auto simp: user_authenticate_def split: option.splits sum.splits prod.splits if_splits)
  from w assms(2) have "ps_code resp2 = PAM_SUCCESS"
    by (auto simp: with_user_info_def split: if_splits option.splits)
  from account_check_success [OF c this] show ?thesis by blast
qed

theorem authenticate_checks_account_witness:
  "\<exists>r a m. user_authenticate (example_env False True) ''ann'' ''secret'' (new_user_authenticator ''ann'', no_otpw) = Some (Inr r, a, m) \<and>
     pr_code r = PAM_SUCCESS \<and> last (au_history a) = AccountManagement"
proof -
  obtain r a m where e: "user_authenticate (example_env False True) ''ann'' ''secret'' (new_user_authenticator ''ann'', no_otpw) = Some (Inr r, a, m)"
    and r: "pr_code r = PAM_SUCCESS"
    by (simp add: authenticator_evals)
  from authenticate_checks_account [OF this] e r show ?thesis by auto
qed

lemma get_user_obj_frame:
  assumes "get_user_obj ns username a = Some (r, a1)"
  shows "au_history a1 = au_history a \<and> au_twofactor_user a1 = au_twofactor_user a \<and>
    (\<not> au_twofactor_user a \<longrightarrow> (\<exists>pw. au_passwd a1 = Some pw \<and> ''2FA'' \<notin> set (pw_account_attributes pw)))"
  using assms by (auto simp: get_user_obj_def Let_def source_flags_def split: option.splits if_splits)

definition no_2fa :: "authenticator \<Rightarrow> bool" where
  "no_2fa a \<longleftrightarrow> AccountManagement \<notin> set (au_history a) \<and>
     (\<exists>pw. au_passwd a = Some pw \<and> ''2FA'' \<notin> set (pw_account_attributes pw))"

lemma otpw_fallback_frame:
  assumes "otpw_fallback env password pw (a, m) = (r, a1, m1)" and "no_2fa a"
  shows "no_2fa a1"
  using assms
  by (auto simp: otpw_fallback_def add_flag_def no_2fa_def Let_def split: if_splits prod.splits OTPWResponseCode.splits)

lemma otpw_fallback_twofactor:
  "otpw_fallback env password pw (a, m) = (r, a1, m1) \<Longrightarrow> au_twofactor_user a1 = au_twofactor_user a"
  by (auto simp: otpw_fallback_def add_flag_def Let_def split: if_splits prod.splits OTPWResponseCode.splits)

lemma after_failure_frame:
  assumes "after_failure env password pw resp (a, m) = Some (resp1, a1, m1)" and "no_2fa a"
    and "au_twofactor_user a \<longrightarrow> ps_code resp = PAM_CONV_AGAIN" and "au_twofactor_user a1"
  shows "no_2fa a1 \<and> ps_code resp1 = PAM_CONV_AGAIN"
proof (cases "ps_code resp \<noteq> PAM_AUTH_ERR \<or> au_state_service a \<noteq> DEFAULT_file")
  case True
  with assms show ?thesis by (auto simp: after_failure_def)
next
  case F: False
  then have nt: "\<not> au_twofactor_user a" using assms(3) by auto
  obtain r a2 m2 where f: "otpw_fallback env password pw (a, m) = (r, a2, m2)" by (cases "otpw_fallback env password pw (a, m)")
  have nt2: "\<not> au_twofactor_user a2" using otpw_fallback_twofactor [OF f] nt by simp
  show ?thesis
  proof (cases "\<not> ae_tally_locked env (pw_name pw) \<and> (\<exists>reason. r = Some (PAM_SUCCESS, reason))")
    case True
    then obtain resp' where "pam_authenticate_simple (ae_turns env) (ae_pam env) (pw_name pw) [] (a2\<lparr>au_state_service := UNIX_file\<rparr>) =
        Some (resp', a1)" and "ps_code resp1 = ps_code resp'"
      using assms(1) F f by (auto simp: after_failure_def)
    with simple_frame [OF this(1)] otpw_fallback_frame [OF f assms(2)] assms(4) show ?thesis
      by (auto simp: no_2fa_def)
  next
    case False
    then have "a1 = a \<or> a1 = a2" using assms(1) F f by (auto simp: after_failure_def split: if_splits option.splits)
    with nt nt2 assms(4) show ?thesis by auto
  qed
qed

text \<open>
  C32: a login that is completed with a second factor is never checked for a valid account: the
  conversation ends without \<open>pam_acct_mgmt\<close>, and the account flags it reports do not have
  the \<open>2FA\<close> flag either, because they are computed before the second factor is asked for.
\<close>

theorem second_factor_skips_account_check:
  assumes "user_authenticate env username password (new_user_authenticator name, m) = Some (Inr r1, a1, m1)"
    and "authenticate_oath lib twofactor_token a1 = (Inr r2, a2)" and "pr_code r2 = PAM_SUCCESS"
  shows "AccountManagement \<notin> set (au_history a2) \<and>
    (\<exists>pw. pr_user_info r2 = Some pw \<and> ''2FA'' \<notin> set (pw_account_attributes pw))"
proof -
  have t1: "au_twofactor_user a1" using assms(2,3) by (auto simp: authenticate_oath_def split: if_splits)
  obtain pw b resp b2 where g: "get_user_obj (ae_nss env) username (new_user_authenticator name) = Some (Inr pw, b)"
    and p: "pam_authenticate_simple (ae_turns env) (ae_pam env) (pw_name pw) password b = Some (resp, b2)"
    using assms(1) t1
    by (auto simp: user_authenticate_def new_user_authenticator_def new_authenticator_def split: option.splits sum.splits if_splits)
  obtain resp1 b3 resp2 where af: "(if ps_code resp \<noteq> PAM_SUCCESS then after_failure env password pw resp (b2, m) else Some (resp, b2, m)) =
      Some (resp1, b3, m1)" and ac: "account_check (ae_pam env) resp1 b3 = (resp2, a1)"
    using assms(1) g p by (auto simp: user_authenticate_def split: option.splits prod.splits if_splits)
  have t3: "au_twofactor_user b3" using ac t1 by (auto simp: account_check_def call_pam_simps split: if_splits)
  have nb: "no_2fa b" using get_user_obj_frame [OF g]
    by (auto simp: no_2fa_def new_user_authenticator_def new_authenticator_def)
  have nb2: "no_2fa b2" "au_twofactor_user b2 \<longrightarrow> ps_code resp = PAM_CONV_AGAIN"
    using simple_frame [OF p] nb by (auto simp: no_2fa_def)
  have "no_2fa b3 \<and> ps_code resp1 = PAM_CONV_AGAIN"
  proof (cases "ps_code resp = PAM_SUCCESS")
    case True
    with af nb2 t3 show ?thesis by auto
  next
    case False
    then have "after_failure env password pw resp (b2, m) = Some (resp1, b3, m1)" using af by simp
    from after_failure_frame [OF this nb2 t3] show ?thesis .
  qed
  then have "no_2fa a1" using ac by (auto simp: account_check_def)
  then show ?thesis using assms(2,3) t1
    by (auto simp: authenticate_oath_def call_pam_simps no_2fa_def with_user_info_def split: if_splits option.splits)
qed

theorem second_factor_skips_account_check_witness:
  "\<exists>r1 a1 m1 r2 a2.
     user_authenticate (example_env True False) ''ann'' ''secret'' (new_user_authenticator ''ann'', no_otpw) = Some (Inr r1, a1, m1) \<and>
     authenticate_oath (example_pam True False) ''123456'' a1 = (Inr r2, a2) \<and> pr_code r2 = PAM_SUCCESS \<and>
     AccountManagement \<notin> set (au_history a2)"
proof -
  obtain r1 a1 m1 where e: "user_authenticate (example_env True False) ''ann'' ''secret'' (new_user_authenticator ''ann'', no_otpw) = Some (Inr r1, a1, m1)"
    and a: "au_twofactor_user a1" "\<exists>pw. au_passwd a1 = Some pw \<and> pw_name pw = ''ann''"
    by (simp add: authenticator_evals)
  obtain r2 a2 where o: "authenticate_oath (example_pam True False) ''123456'' a1 = (Inr r2, a2)" and r: "pr_code r2 = PAM_SUCCESS"
    using a by (auto simp: authenticate_oath_def call_pam_simps example_pam_def with_user_info_def Let_def)
  from second_factor_skips_account_check [OF e o r] e o r show ?thesis by blast
qed

end
