(* ===== verification/Sessions.thy ===== *)
theory Sessions
  imports Authenticator Jobs
begin

text \<open>
  Tokens and sessions, \<^verbatim>\<open>middlewared/plugins/auth.py\<close>: \<open>TokenManager\<close>,
  \<open>SessionManager\<close> and the methods of \<open>AuthService\<close> that use them, apart from
  \<open>login_ex\<close>.

  An application (a connection) is named by its session id. The state holds what the two
  managers, the applications and the module-level objects hold: the credential store, the
  tokens, the sessions, the current assurance level and the one-time passwords. Random strings,
  the clock and the answers of PAM are arguments.
\<close>

section \<open>The state\<close>

record auth_context =
  ac_pam_hdl :: "authenticator option"
  ac_next_mech :: "AuthMech option"
  ac_auth_data :: "string option"

record app =
  ap_origin :: "origin option"
  ap_credentials :: "cred option"
  ap_context :: "auth_context option"

record session =
  ss_credentials :: cred
  ss_created_at :: seconds

datatype auth_event = SessionAdded string | SessionRemoved string

text \<open>An audit message: the event, the session, the error it reports and whether it is a success.\<close>

record audit_entry =
  ad_event :: string
  ad_session :: string
  ad_error :: "string option"
  ad_success :: bool

record auth_state =
  as_store :: store
  as_tokens :: token_dict
  as_sessions :: "(string, session) py_dict"
  as_apps :: "string \<Rightarrow> app"
  as_level :: aal
  as_next_oid :: nat
  as_otpw :: otpw_manager
  as_closing :: "string list"
  as_events :: "auth_event list"
  as_audit :: "audit_entry list"

datatype auth_error =
    AuthCallError string int
  | AuthValidation validation_errors
  | SessionKeyError string
  | MissingAttribute string
  | AuthException auth_exn
  | RoleFailure role_error
  | NotEnded

definition upd_app :: "string \<Rightarrow> (app \<Rightarrow> app) \<Rightarrow> auth_state \<Rightarrow> auth_state" where
  "upd_app i f s = s\<lparr>as_apps := (as_apps s)(i := f (as_apps s i))\<rparr>"

definition new_context :: auth_context where
  "new_context = \<lparr>ac_pam_hdl = None, ac_next_mech = None, ac_auth_data = None\<rparr>"

definition new_app :: "origin option \<Rightarrow> app" where
  "new_app org = \<lparr>ap_origin = org, ap_credentials = None, ap_context = Some new_context\<rparr>"

definition authenticated :: "app \<Rightarrow> bool" where
  "authenticated a \<longleftrightarrow> ap_credentials a \<noteq> None"

definition log_audit_message :: "string \<Rightarrow> string \<Rightarrow> string option \<Rightarrow> bool \<Rightarrow> auth_state \<Rightarrow> auth_state" where
  "log_audit_message event i err success s =
     s\<lparr>as_audit := as_audit s @ [\<lparr>ad_event = event, ad_session = i, ad_error = err, ad_success = success\<rparr>]\<rparr>"

definition set_credentials :: "string \<Rightarrow> cred option \<Rightarrow> auth_state \<Rightarrow> auth_state" where
  "set_credentials i c = upd_app i (\<lambda>a. a\<lparr>ap_credentials := c\<rparr>)"

section \<open>The token manager\<close>

text \<open>\<open>create\<close>: the token string is random; the parent of a token is never a token session.\<close>

definition token_create ::
  "seconds \<Rightarrow> string \<Rightarrow> int \<Rightarrow> pyval \<Rightarrow> origin option \<Rightarrow> cred \<Rightarrow> string \<Rightarrow> bool \<Rightarrow> auth_state \<Rightarrow> token \<times> auth_state" where
  "token_create now token_str ttl attributes match_origin parent session_id single_use s =
     (let c = (case parent of TokenCred _ t \<Rightarrow> root_credentials t | _ \<Rightarrow> parent);
          i = as_next_oid s;
          t = Token i token_str ttl attributes match_origin c single_use
      in (t, s\<lparr>as_next_oid := Suc i,
               as_store := set_token i (\<lambda>_. \<lparr>tk_last_used_at = now, tk_session_ids = {session_id}\<rparr>) (as_store s),
               as_tokens := AList.update token_str t (as_tokens s)\<rparr>))"

definition token_get :: "seconds \<Rightarrow> string \<Rightarrow> origin option \<Rightarrow> auth_state \<Rightarrow> token option \<times> auth_state" where
  "token_get now token_str org s =
     (case map_of (as_tokens s) token_str of
        None \<Rightarrow> (None, s)
      | Some t \<Rightarrow>
          if \<not> token_is_valid (as_store s) now t then
            (None, s\<lparr>as_tokens := AList.delete (token_string t) (as_tokens s)\<rparr>)
          else (case token_match_origin t of
                  None \<Rightarrow> (Some t, s)
                | Some m \<Rightarrow>
                    (case org of
                       None \<Rightarrow> (None, s)
                     | Some og \<Rightarrow> if origin_match m og then (Some t, s) else (None, s))))"

definition destroy_token :: "token \<Rightarrow> auth_state \<Rightarrow> auth_state" where
  "destroy_token t s = s\<lparr>as_tokens := destroy t (as_tokens s)\<rparr>"

definition destroy_by_session_id :: "string \<Rightarrow> auth_state \<Rightarrow> auth_state" where
  "destroy_by_session_id session_id s =
     s\<lparr>as_tokens := filter (\<lambda>(k, t). session_id \<notin> tk_session_ids (st_tokens (as_store s) (token_oid t))) (as_tokens s)\<rparr>"

section \<open>The session manager\<close>

definition is_internal_session :: "string \<Rightarrow> auth_state \<Rightarrow> bool" where
  "is_internal_session i s \<longleftrightarrow>
     (case ap_origin (as_apps s i) of None \<Rightarrow> False | Some og \<Rightarrow> is_unix_family og \<and> uid og = Some 0) \<or>
     ap_credentials (as_apps s i) = Some TruenasNodeCred"

text \<open>
  \<open>SessionManager.login\<close>. For a session that is authenticated already, the answer of PAM
  is not looked at.
\<close>

definition manager_login ::
  "seconds \<Rightarrow> auth_answer \<Rightarrow> string \<Rightarrow> cred \<Rightarrow> auth_state \<Rightarrow> auth_error option \<times> auth_state" where
  "manager_login now ans i c s =
     (case cred_login ans c (as_store s) of
        (resp, st) \<Rightarrow>
          (let s1 = s\<lparr>as_store := st\<rparr> in
           if authenticated (as_apps s i) then
             (case map_of (as_sessions s1) i of
                None \<Rightarrow> (Some (SessionKeyError i), s1)
              | Some ss \<Rightarrow>
                  (None, log_audit_message ''AUTHENTICATION'' i None True
                     (set_credentials i (Some c)
                       (s1\<lparr>as_sessions := AList.update i (ss\<lparr>ss_credentials := c\<rparr>) (as_sessions s1)\<rparr>))))
           else if resp_code resp \<noteq> PAM_SUCCESS then
             (Some (AuthCallError (''Login with credentials failed: '' @ str_of_opt (resp_reason resp)) EFAULT), s1)
           else
             (let s2 = set_credentials i (Some c)
                    (s1\<lparr>as_sessions := AList.update i \<lparr>ss_credentials = c, ss_created_at = now\<rparr> (as_sessions s1)\<rparr>)
              in (None, if is_internal_session i s2 then s2
                        else log_audit_message ''AUTHENTICATION'' i None True
                               (s2\<lparr>as_events := as_events s2 @ [SessionAdded i]\<rparr>)))))"

definition manager_logout :: "auth_resp \<Rightarrow> string \<Rightarrow> auth_state \<Rightarrow> auth_error option \<times> auth_state" where
  "manager_logout ans i s =
     (case map_of (as_sessions s) i of
        None \<Rightarrow> (None, set_credentials i None s)
      | Some ss \<Rightarrow>
          (let internal = is_internal_session i s;
               s1 = (if internal then s else log_audit_message ''LOGOUT'' i None True s);
               s2 = upd_app i (\<lambda>a. a\<lparr>ap_context := None, ap_credentials := None\<rparr>)
                      (s1\<lparr>as_sessions := AList.delete i (as_sessions s1)\<rparr>)
           in case cred_logout ans (ss_credentials ss) (as_store s2, as_tokens s2) of
                (resp, st, tokens) \<Rightarrow>
                  (let s3 = s2\<lparr>as_store := st, as_tokens := tokens\<rparr>
                   in case resp of
                        None \<Rightarrow> (Some (MissingAttribute ''logout''), s3)
                      | Some _ \<Rightarrow> (None, if internal then s3 else s3\<lparr>as_events := as_events s3 @ [SessionRemoved i]\<rparr>))))"

definition app_on_message :: "seconds \<Rightarrow> auth_resp \<Rightarrow> string \<Rightarrow> auth_state \<Rightarrow> auth_error option \<times> auth_state" where
  "app_on_message now ans i s =
     (case map_of (as_sessions s) i of
        None \<Rightarrow> (None, set_credentials i None s)
      | Some ss \<Rightarrow>
          if \<not> is_valid (as_store s) now (ss_credentials ss) then manager_logout ans i s
          else (None, s\<lparr>as_store := notify_used now (ss_credentials ss) (as_store s)\<rparr>))"

definition app_on_close :: "auth_resp \<Rightarrow> string \<Rightarrow> auth_state \<Rightarrow> auth_error option \<times> auth_state" where
  "app_on_close ans i s = manager_logout ans i s"

section \<open>The methods of the service\<close>

text \<open>Closing the web socket is left to the connection: the session id is noted.\<close>

definition terminate_session :: "string \<Rightarrow> auth_state \<Rightarrow> bool \<times> auth_state" where
  "terminate_session i s =
     (case map_of (as_sessions s) i of
        None \<Rightarrow> (False, s)
      | Some _ \<Rightarrow>
          (let s1 = destroy_by_session_id i s in (True, s1\<lparr>as_closing := as_closing s1 @ [i]\<rparr>)))"

fun terminate_sessions :: "string \<Rightarrow> string list \<Rightarrow> auth_state \<Rightarrow> auth_state" where
  "terminate_sessions current [] s = s"
| "terminate_sessions current (i # is) s =
     terminate_sessions current is
       (if i = current \<or> is_internal_session i s then s else snd (terminate_session i s))"

definition terminate_other_sessions :: "string \<Rightarrow> auth_state \<Rightarrow> auth_state" where
  "terminate_other_sessions current s = terminate_sessions current (dict_keys (as_sessions s)) s"

record otpw_user =
  ou_uid :: int
  ou_password_disabled :: bool
  ou_locked :: bool

definition generate_onetime_password ::
  "(string \<Rightarrow> otpw_user option) \<Rightarrow> (string \<Rightarrow> string) \<Rightarrow> string \<Rightarrow> seconds \<Rightarrow> string \<Rightarrow> string \<Rightarrow> auth_state \<Rightarrow>
     (auth_error + string) \<times> auth_state" where
  "generate_onetime_password user_query sha512_crypt p now i username s =
     (case ap_credentials (as_apps s i) of
        None \<Rightarrow> (Inl (MissingAttribute ''is_user_session''), s)
      | Some c \<Rightarrow>
          (let account_admin = (if is_user_session c then has_role (as_store s) c ''ACCOUNT_WRITE'' else True);
               field = ''auth.generate_onetime_password.username''
           in case user_query username of
                None \<Rightarrow> (Inl (AuthValidation [\<lparr>ve_attribute = Some field, ve_errmsg = username @ '': user does not exist.'', ve_errno = EINVAL\<rparr>]), s)
              | Some u \<Rightarrow>
                  (let v1 = (if ou_password_disabled u
                             then verrors_add field (username @ '': password authentication is disabled for account.'') EINVAL [] else []);
                       v2 = (if ou_locked u then verrors_add field (username @ '': account is locked.'') EINVAL v1 else v1)
                   in case verrors_check v2 of
                        Inl es \<Rightarrow> (Inl (AuthValidation es), s)
                      | Inr _ \<Rightarrow>
                          (case generate_for_uid sha512_crypt p now (ou_uid u) account_admin (as_otpw s) of
                             (pw, m) \<Rightarrow> (Inr pw, s\<lparr>as_otpw := m\<rparr>)))))"

definition DEFAULT_TOKEN_TTL :: int where
  "DEFAULT_TOKEN_TTL = 600"

definition attr_job :: "pyval \<Rightarrow> pyval option" where
  "attr_job attrs = (case attrs of PDict d \<Rightarrow> (case map_of d ''job'' of Some PNone \<Rightarrow> None | r \<Rightarrow> r) | _ \<Rightarrow> None)"

text \<open>\<open>str(v)\<close> of a job id as clients send it, a number or a string.\<close>

definition val_str :: "pyval \<Rightarrow> string" where
  "val_str v = (case v of PInt n \<Rightarrow> (if n < 0 then ''-'' else []) @ py_str (nat \<bar>n\<bar>) | PStr x \<Rightarrow> x | _ \<Rightarrow> [])"

text \<open>The check of a download token: its job must exist, be accessible and have an output pipe.\<close>

definition job_token_error :: "auth_state \<Rightarrow> jobs_queue \<Rightarrow> cred \<Rightarrow> pyval \<Rightarrow> auth_error option" where
  "job_token_error s q c attrs =
     (case attr_job attrs of
        None \<Rightarrow> None
      | Some v \<Rightarrow>
          (case (case v of PInt n \<Rightarrow> if n < 0 then None else map_of (q_dict q) (nat n) | _ \<Rightarrow> None) of
             None \<Rightarrow> Some (AuthCallError (val_str v @ '': job does not exist.'') EFAULT)
           | Some j \<Rightarrow>
               (case credential_access_error (as_store s) (\<lambda>i. ap_credentials (as_apps s i)) (q_jobs q j) (Some c) None of
                  Some e \<Rightarrow> Some (AuthCallError (val_str v @ '': '' @ e) EFAULT)
                | None \<Rightarrow>
                    if ''output'' \<notin> set (jb_open_pipes (q_jobs q j))
                    then Some (AuthCallError (val_str v @ '': job is not suitable for download token'') EFAULT) else None)))"

definition generate_token ::
  "seconds \<Rightarrow> string \<Rightarrow> jobs_queue \<Rightarrow> string \<Rightarrow> int option \<Rightarrow> pyval \<Rightarrow> bool \<Rightarrow> bool \<Rightarrow> auth_state \<Rightarrow>
     (auth_error + string) \<times> auth_state" where
  "generate_token now token_str q i ttl attrs match_origin single_use s =
     (if \<not> single_use \<and> as_level s \<noteq> AA_LEVEL1 then
        (Inl (AuthCallError ''Multi-use authentication tokens are not supported at current authenticator level.'' EOPNOTSUPP), s)
      else (case ap_credentials (as_apps s i) of
         None \<Rightarrow> (Inl (MissingAttribute ''may_create_auth_token''), s)
       | Some c \<Rightarrow>
           if \<not> may_create_auth_token c then
             (Inl (AuthCallError (class_name c @ '': the current session type does not support creation of authentication tokens.'') EOPNOTSUPP), s)
           else (case job_token_error s q c attrs of
              Some e \<Rightarrow> (Inl e, s)
            | None \<Rightarrow>
                (case token_create now token_str (case ttl of None \<Rightarrow> DEFAULT_TOKEN_TTL | Some n \<Rightarrow> n) attrs
                        (if match_origin then ap_origin (as_apps s i) else None) c i single_use s of
                   (t, s1) \<Rightarrow> (Inr (token_string t), s1)))))"

definition multi_use_error :: auth_error where
  "multi_use_error = AuthCallError ''Multi-use API tokens are not supported at the current security level'' EOPNOTSUPP"

definition get_token :: "seconds \<Rightarrow> string \<Rightarrow> origin option \<Rightarrow> auth_state \<Rightarrow> (auth_error + pyval option) \<times> auth_state" where
  "get_token now token_id org s =
     (case token_get now token_id org s of
        (None, s1) \<Rightarrow> (Inr None, s1)
      | (Some t, s1) \<Rightarrow>
          if token_single_use t then (Inr (Some (token_attributes t)), destroy_token t s1)
          else if as_level s1 \<noteq> AA_LEVEL1 then (Inl multi_use_error, s1)
          else (Inr (Some (token_attributes t)), s1))"

text \<open>The user a token session is opened for.\<close>

definition token_username :: "store \<Rightarrow> token \<Rightarrow> string" where
  "token_username st t =
     (case cred_user (root_credentials t) of None \<Rightarrow> ''root'' | Some u \<Rightarrow> u_username (st_users st u))"

text \<open>A token session: its credentials, and the PAM authentication of its account.\<close>

definition open_token_cred ::
  "seconds \<Rightarrow> auth_env \<Rightarrow> token \<Rightarrow> authenticator \<Rightarrow> auth_state \<Rightarrow> ((auth_error + pam_resp) \<times> cred \<times> authenticator \<times> auth_state)" where
  "open_token_cred today env t hdl s =
     (let c = as_next_oid s;
          (cr, st) = init_token_cred c t today (as_store s);
          s1 = s\<lparr>as_next_oid := Suc c, as_store := st\<rparr>
      in case internal_authenticate env (token_username st t) (hdl, as_otpw s1) of
           None \<Rightarrow> (Inl NotEnded, cr, hdl, s1)
         | Some (Inl e, hdl1, m) \<Rightarrow> (Inl (AuthException e), cr, hdl1, s1\<lparr>as_otpw := m\<rparr>)
         | Some (Inr r, hdl1, m) \<Rightarrow>
             (case pam_authenticate \<lparr>resp_stage = AUTH_stage, resp_code = pr_code r, resp_reason = pr_reason r\<rparr> c st of
                (_, st1) \<Rightarrow> (Inr r, cr, hdl1, s1\<lparr>as_otpw := m, as_store := st1\<rparr>)))"

definition get_token_for_action ::
  "seconds \<Rightarrow> seconds \<Rightarrow> auth_env \<Rightarrow> string \<Rightarrow> string \<Rightarrow> origin option \<Rightarrow> string \<Rightarrow> string \<Rightarrow> auth_state \<Rightarrow>
     (auth_error + cred option) \<times> auth_state" where
  "get_token_for_action now today env i token_id org meth resource s =
     (case token_get now token_id org s of
        (None, s1) \<Rightarrow> (Inr None, s1)
      | (Some t, s1) \<Rightarrow>
          if truthy (token_attributes t) then (Inr None, s1)
          else if \<not> cred_authorize (as_store s1) now (token_parent t) meth resource then (Inr None, s1)
          else (case ap_context (as_apps s1 i) of
             None \<Rightarrow> (Inl (AuthCallError ''Authentication context was not initialized'' EFAULT), s1)
           | Some ctx \<Rightarrow>
               if ac_pam_hdl ctx \<noteq> None then (Inl (AuthCallError ''Unexpected existing authenticator'' EFAULT), s1)
               else
                 (let hdl = new_token_authenticator (token_username (as_store s1) t);
                      s2 = upd_app i (\<lambda>a. a\<lparr>ap_context := Some (ctx\<lparr>ac_pam_hdl := Some hdl\<rparr>)\<rparr>) s1
                  in if \<not> token_single_use t \<and> as_level s2 \<noteq> AA_LEVEL1 then (Inl multi_use_error, s2)
                     else
                       (let s3 = (if token_single_use t then destroy_token t s2 else s2)
                        in case open_token_cred today env t hdl s3 of
                             (r, cr, hdl1, s4) \<Rightarrow>
                               (let s5 = upd_app i (\<lambda>a. a\<lparr>ap_context := Some (ctx\<lparr>ac_pam_hdl := Some hdl1\<rparr>)\<rparr>) s4
                                in case r of
                                     Inl e \<Rightarrow> (Inl e, s5)
                                   | Inr resp \<Rightarrow>
                                       if pr_code resp \<noteq> PAM_SUCCESS then
                                         (Inl (AuthCallError (''Failed to get token for action: '' @ str_of_opt (pr_reason resp)) EFAULT), s5)
                                       else (Inr (Some cr), s5))))))"

definition get_token_for_shell_application ::
  "seconds \<Rightarrow> string \<Rightarrow> origin option \<Rightarrow> auth_state \<Rightarrow> string option \<times> auth_state" where
  "get_token_for_shell_application now token_id org s =
     (case token_get now token_id org s of
        (None, s1) \<Rightarrow> (None, s1)
      | (Some t, s1) \<Rightarrow>
          if truthy (token_attributes t) then (None, s1)
          else (case root_credentials t of
                  UserCred _ _ _ u \<Rightarrow>
                    if \<not> pv_web_shell (u_privilege (st_users (as_store s1) u)) then (None, s1)
                    else (Some (u_username (st_users (as_store s1) u)),
                          if token_single_use t then destroy_token t s1 else s1)
                | _ \<Rightarrow> (None, s1)))"

definition set_authenticator_assurance_level :: "string \<Rightarrow> auth_state \<Rightarrow> auth_error option \<times> auth_state" where
  "set_authenticator_assurance_level level s =
     (if level = ''LEVEL_1'' then (None, s\<lparr>as_level := AA_LEVEL1\<rparr>)
      else if level = ''LEVEL_2'' then (None, s\<lparr>as_level := AA_LEVEL2\<rparr>)
      else if level = ''LEVEL_3'' then (None, s\<lparr>as_level := AA_LEVEL3\<rparr>)
      else (Some (AuthCallError (level @ '': unknown authenticator assurance level'') EFAULT), s))"

definition get_authenticator_assurance_level :: "auth_state \<Rightarrow> auth_error + string" where
  "get_authenticator_assurance_level s =
     (if as_level s = AA_LEVEL1 then Inr ''LEVEL_1'' else if as_level s = AA_LEVEL2 then Inr ''LEVEL_2''
      else if as_level s = AA_LEVEL3 then Inr ''LEVEL_3''
      else Inl (AuthCallError ''unknown authenticator assurance level'' EFAULT))"

definition mech_name :: "AuthMech \<Rightarrow> string" where
  "mech_name m =
     (case m of API_KEY_PLAIN \<Rightarrow> ''API_KEY_PLAIN'' | PASSWORD_PLAIN \<Rightarrow> ''PASSWORD_PLAIN''
      | TOKEN_PLAIN \<Rightarrow> ''TOKEN_PLAIN'' | OTP_TOKEN \<Rightarrow> ''OTP_TOKEN'' | SCRAM \<Rightarrow> ''SCRAM'')"

definition mechanism_choices :: "string option \<Rightarrow> auth_state \<Rightarrow> string list" where
  "mechanism_choices app s =
     (let cred_allows_token =
            (case app of
               None \<Rightarrow> True
             | Some i \<Rightarrow> (case ap_credentials (as_apps s i) of None \<Rightarrow> True | Some c \<Rightarrow> may_create_auth_token c));
          choices = map mech_name (mechanisms (as_level s))
      in if \<not> cred_allows_token \<and> mech_name TOKEN_PLAIN \<in> set choices then remove1 (mech_name TOKEN_PLAIN) choices else choices)"

text \<open>
  \<open>check_auth_mechanism\<close>: an attempt that waits for another mechanism is abandoned, and
  that is audited when it waited for the second factor.
\<close>

definition check_auth_mechanism :: "string \<Rightarrow> AuthMech \<Rightarrow> auth_context \<Rightarrow> aal \<Rightarrow> auth_state \<Rightarrow> auth_error option \<times> auth_context \<times> auth_state" where
  "check_auth_mechanism i mechanism ctx level s =
     (let (ctx1, s1) =
        (case ac_next_mech ctx of
           None \<Rightarrow> (ctx, s)
         | Some next_mech \<Rightarrow>
             if mechanism = next_mech then (ctx, s)
             else
               (ctx\<lparr>ac_next_mech := None, ac_auth_data := None\<rparr>,
                if next_mech = OTP_TOKEN then
                  log_audit_message ''AUTHENTICATION'' i
                    (Some ''Abandoning login attempt after being presented with requirement for second factor for authentication.'') False s
                else s))
      in if ac_next_mech ctx1 = None \<and> mechanism = OTP_TOKEN then
           (Some (AuthCallError ''OTP_TOKEN: no authentication in progress'' EINVAL), ctx1, s1)
         else if aal_auth_mechanism_check (mech_name mechanism) level = Some True then (None, ctx1, s1)
         else (Some (AuthCallError (mech_name mechanism @ '': mechanism is not supported at current authenticator level.'') EOPNOTSUPP), ctx1, s1))"

end
