(* ===== verification/Login.thy ===== *)
theory Login
  imports Sessions
begin

text \<open>
  Logging in: the mechanisms of \<^verbatim>\<open>middlewared/plugins/auth_/login_ex_impl.py\<close> and
  \<open>auth.login_ex\<close>, \<open>auth.login\<close>, \<open>auth.login_with_api_key\<close>,
  \<open>auth.login_with_token\<close>, \<open>auth.logout\<close> and the hooks that authenticate local and
  HA connections, \<^verbatim>\<open>middlewared/plugins/auth.py\<close> and
  \<^verbatim>\<open>middlewared/plugins/failover.py\<close>. Delays after a failure are not modelled.
\<close>

section \<open>What a login reads\<close>

record api_key =
  ak_id :: int
  ak_name :: string
  ak_expires_at :: "seconds option"
  ak_revoked :: bool

text \<open>
  The name service and PAM, the configuration of users and privileges, the files PAM needs (after
  an attempt to generate them), the API keys, the clock, the answer of PAM to opening the
  session, the SCRAM parser, the other node, and the preferences of the user.
\<close>

record login_env =
  le_auth :: auth_env
  le_user_query :: "string \<Rightarrow> db_user option"
  le_convert_unixids :: "int list \<Rightarrow> string list option"
  le_privileges :: "privilege_entry list"
  le_depth :: nat
  le_roles :: role_manager
  le_stig :: bool
  le_service_file :: "TruenasPamFile \<Rightarrow> bool"
  le_oath_file :: bool
  le_api_keys :: "int \<Rightarrow> api_key option"
  le_today :: seconds
  le_answer :: auth_answer
  le_parse_scram :: "string \<Rightarrow> string + (string \<times> int)"
  le_failover_licensed :: bool
  le_failover_status :: string
  le_remote_status :: "string option"
  le_token_string :: string
  le_preferences :: "(string \<times> pyval) list option"
  le_jobs :: jobs_queue

definition le_now :: "login_env \<Rightarrow> seconds" where
  "le_now env = ae_now (le_auth env)"

definition lookup_user :: "login_env \<Rightarrow> passwd_entry \<Rightarrow> role_error + user_info option" where
  "lookup_user env = authenticate_user (le_user_query env) (le_convert_unixids env) (le_privileges env)
     (le_depth env) (le_roles env) (le_stig env)"

text \<open>A new user dictionary and new credentials for it.\<close>

definition new_user_cred :: "login_env \<Rightarrow> user_kind \<Rightarrow> aal option \<Rightarrow> user_info \<Rightarrow> auth_state \<Rightarrow> cred \<times> auth_state" where
  "new_user_cred env kind level info s =
     (let u = as_next_oid s; c = Suc u;
          (cr, st) = init_user_cred c kind level u (le_now env) (le_today env) (set_user u (\<lambda>_. info) (as_store s))
      in (cr, s\<lparr>as_next_oid := Suc c, as_store := st\<rparr>))"

definition resp_of :: "pam_code \<Rightarrow> string \<Rightarrow> pam_resp" where
  "resp_of code reason = \<lparr>pr_code = code, pr_reason = Some reason, pr_user_info = None\<rparr>"

definition precheck_failed :: pam_resp where
  "precheck_failed = resp_of PAM_ABORT ''Failed authentication configuration precheck''"

definition lacks_api_access :: pam_resp where
  "lacks_api_access = resp_of PAM_PERM_DENIED ''User lacks API access.''"

text \<open>\<open>_auth_ctx_check\<close>: whether the files PAM needs are there; if not, that is audited.\<close>

definition auth_ctx_check :: "login_env \<Rightarrow> string \<Rightarrow> authenticator \<Rightarrow> bool \<Rightarrow> auth_state \<Rightarrow> bool \<times> auth_state" where
  "auth_ctx_check env i hdl oath_file_check s =
     (if \<not> le_service_file env (au_state_service hdl) then
        (False, log_audit_message ''AUTHENTICATION'' i (Some ''Unable to generate PAM service file for middleware. Denying access.'') False s)
      else if oath_file_check \<and> \<not> le_oath_file env then
        (False, log_audit_message ''AUTHENTICATION'' i (Some ''Unable to generate OATH users file. Denying access.'') False s)
      else (True, s))"

text \<open>Constructing an authenticator encodes the origin, which must be there and of a known family.\<close>

definition origin_for_pam :: "app \<Rightarrow> auth_error + origin" where
  "origin_for_pam a =
     (case ap_origin a of
        None \<Rightarrow> Inl (MissingAttribute ''family'')
      | Some og \<Rightarrow> if get_pam_session_info og = None then Inl (MissingAttribute ''session_data'') else Inr og)"

text \<open>What a mechanism returns: PAM's answer and the credentials, with the context it leaves.\<close>

type_synonym mech_result = "(auth_error + pam_resp \<times> cred option) \<times> auth_context \<times> auth_state"

section \<open>The mechanisms\<close>

subsection \<open>Password\<close>

text \<open>The part after PAM has answered.\<close>

definition password_result ::
  "login_env \<Rightarrow> string \<Rightarrow> string \<Rightarrow> pam_resp \<Rightarrow> auth_context \<Rightarrow> auth_state \<Rightarrow> mech_result" where
  "password_result env i username resp0 ctx s =
     (let otpw = pr_code resp0 = PAM_SUCCESS \<and>
            (case pr_user_info resp0 of None \<Rightarrow> False | Some pw \<Rightarrow> ''OTPW'' \<in> set (pw_account_attributes pw));
          resp = (if pr_code resp0 = PAM_SUCCESS \<and> otp_mandatory (as_level s) \<and> \<not> otpw
                  then resp_of PAM_AUTH_ERR ''User does not have two factor authentication enabled.'' else resp0)
      in if pr_code resp = PAM_SUCCESS then
           (case pr_user_info resp of
              None \<Rightarrow> (Inl (MissingAttribute ''user_info''), ctx, s)
            | Some pw \<Rightarrow>
                (case lookup_user env pw of
                   Inl e \<Rightarrow> (Inl (RoleFailure e), ctx, s)
                 | Inr None \<Rightarrow>
                     (Inr (lacks_api_access, None), ctx,
                      log_audit_message ''AUTHENTICATION'' i (pr_reason lacks_api_access) False s)
                 | Inr (Some info) \<Rightarrow>
                     (case new_user_cred env (if otpw then LoginOnetimePassword else LoginPassword) (Some (as_level s)) info s of
                        (cr, s1) \<Rightarrow> (Inr (resp, Some cr), ctx, s1))))
         else if pr_code resp = PAM_CONV_AGAIN then
           (Inr (resp, None), ctx\<lparr>ac_next_mech := Some OTP_TOKEN, ac_auth_data := Some username\<rparr>, s)
         else (Inr (resp, None), ctx, log_audit_message ''AUTHENTICATION'' i (pr_reason resp) False s))"

definition login_ex_password_plain ::
  "login_env \<Rightarrow> string \<Rightarrow> string \<Rightarrow> string \<Rightarrow> auth_context \<Rightarrow> auth_state \<Rightarrow> mech_result" where
  "login_ex_password_plain env i username password ctx s =
     (case origin_for_pam (as_apps s i) of
        Inl e \<Rightarrow> (Inl e, ctx, s)
      | Inr og \<Rightarrow>
          (let hdl = new_user_authenticator username;
               ctx1 = ctx\<lparr>ac_pam_hdl := Some hdl\<rparr>
           in case auth_ctx_check env i hdl True s of
                (False, s1) \<Rightarrow> (Inr (precheck_failed, None), ctx1, s1)
              | (True, s1) \<Rightarrow>
                  (case user_authenticate (le_auth env) username password (hdl, as_otpw s1) of
                     None \<Rightarrow> (Inl NotEnded, ctx1, s1)
                   | Some (Inl e, hdl1, m) \<Rightarrow> (Inl (AuthException e), ctx1\<lparr>ac_pam_hdl := Some hdl1\<rparr>, s1\<lparr>as_otpw := m\<rparr>)
                   | Some (Inr resp, hdl1, m) \<Rightarrow>
                       password_result env i username resp (ctx1\<lparr>ac_pam_hdl := Some hdl1\<rparr>) (s1\<lparr>as_otpw := m\<rparr>))))"

subsection \<open>API key\<close>

text \<open>The id of the key, \<open>int(api_key.split("-")[0])\<close>, and its row.\<close>

definition find_api_key :: "login_env \<Rightarrow> string \<Rightarrow> api_key option" where
  "find_api_key env key =
     (case py_parse_int (hd (py_split CHR ''-'' key)) of
        None \<Rightarrow> None
      | Some n \<Rightarrow> le_api_keys env n)"

definition api_key_failure :: "api_key option \<Rightarrow> pam_resp \<Rightarrow> pam_resp" where
  "api_key_failure key resp =
     (case key of
        Some k \<Rightarrow>
          if pr_code resp = PAM_AUTHINFO_UNAVAIL then
            if ak_expires_at k \<noteq> None then resp_of PAM_CRED_EXPIRED ''Api key is expired''
            else if ak_revoked k then resp_of PAM_AUTH_ERR ''API key is revoked''
            else resp
          else resp
      | None \<Rightarrow> resp)"

text \<open>
  The part after PAM has answered. A key that was used over an insecure transport is to be
  revoked: its id is the last component. A key PAM accepts has a numeric id and a row. If the row
  cannot be read, the code makes credentials whose key is \<open>None\<close> and that cannot be dumped; the
  model has no such credentials and reports the missing key.
\<close>

definition api_key_result ::
  "login_env \<Rightarrow> string \<Rightarrow> origin \<Rightarrow> string \<Rightarrow> pam_resp \<Rightarrow> auth_context \<Rightarrow> auth_state \<Rightarrow> mech_result \<times> int option" where
  "api_key_result env i og key_str resp0 ctx s =
     (let key = find_api_key env key_str;
          key_id = py_parse_int (hd (py_split CHR ''-'' key_str));
          resp = api_key_failure key resp0;
          fail = (\<lambda>r. ((Inr (r, None), ctx, log_audit_message ''AUTHENTICATION'' i (pr_reason r) False s)))
      in if pr_code resp \<noteq> PAM_SUCCESS then (fail resp, None)
         else if \<not> secure_transport og then
           (case key_id of
              None \<Rightarrow> ((Inl (MissingAttribute ''key_id''), ctx, s), None)
            | Some n \<Rightarrow> (fail (resp_of PAM_CRED_EXPIRED ''API key revoked due to insecure transport''), Some n))
         else (case pr_user_info resp of
            None \<Rightarrow> ((Inl (MissingAttribute ''user_info''), ctx, s), None)
          | Some pw \<Rightarrow>
              (case lookup_user env pw of
                 Inl e \<Rightarrow> ((Inl (RoleFailure e), ctx, s), None)
               | Inr None \<Rightarrow> (fail lacks_api_access, None)
               | Inr (Some info) \<Rightarrow>
                   (case key of
                      None \<Rightarrow> ((Inl (MissingAttribute ''api_key''), ctx, s), None)
                    | Some k \<Rightarrow>
                        (case new_user_cred env (ApiKey (ak_id k) (ak_name k)) (Some (as_level s)) info s of
                           (cr, s1) \<Rightarrow> ((Inr (resp, Some cr), ctx, s1), None))))))"

definition login_ex_api_key_plain ::
  "login_env \<Rightarrow> string \<Rightarrow> string \<Rightarrow> string \<Rightarrow> auth_context \<Rightarrow> auth_state \<Rightarrow> mech_result \<times> int option" where
  "login_ex_api_key_plain env i username key_str ctx s =
     (case origin_for_pam (as_apps s i) of
        Inl e \<Rightarrow> ((Inl e, ctx, s), None)
      | Inr og \<Rightarrow>
          (case new_api_key_authenticator username og of
             Inl e \<Rightarrow> ((Inl (AuthException e), ctx, s), None)
           | Inr hdl \<Rightarrow>
               (let ctx1 = ctx\<lparr>ac_pam_hdl := Some hdl\<rparr>
                in case auth_ctx_check env i hdl False s of
                     (False, s1) \<Rightarrow> ((Inr (precheck_failed, None), ctx1, s1), None)
                   | (True, s1) \<Rightarrow>
                       (case api_key_authenticate (le_auth env) username key_str (hdl, as_otpw s1) of
                          None \<Rightarrow> ((Inl NotEnded, ctx1, s1), None)
                        | Some (Inl e, hdl1, m) \<Rightarrow> ((Inl (AuthException e), ctx1\<lparr>ac_pam_hdl := Some hdl1\<rparr>, s1\<lparr>as_otpw := m\<rparr>), None)
                        | Some (Inr resp, hdl1, m) \<Rightarrow>
                            api_key_result env i og key_str resp (ctx1\<lparr>ac_pam_hdl := Some hdl1\<rparr>) (s1\<lparr>as_otpw := m\<rparr>)))))"

subsection \<open>Second factor\<close>

definition login_ex_oath_token ::
  "login_env \<Rightarrow> string \<Rightarrow> string \<Rightarrow> auth_context \<Rightarrow> auth_state \<Rightarrow> mech_result" where
  "login_ex_oath_token env i otp_token ctx s =
     (case ac_pam_hdl ctx of
        None \<Rightarrow> (Inl (MissingAttribute ''pam_hdl''), ctx, s)
      | Some hdl \<Rightarrow>
          (case auth_ctx_check env i hdl True s of
             (False, s1) \<Rightarrow> (Inr (precheck_failed, None), ctx, s1)
           | (True, s1) \<Rightarrow>
               (case authenticate_oath (ae_pam (le_auth env)) otp_token hdl of
                  (Inl e, hdl1) \<Rightarrow> (Inl (AuthException e), ctx\<lparr>ac_pam_hdl := Some hdl1\<rparr>, s1)
                | (Inr resp, hdl1) \<Rightarrow>
                    (let ctx1 = ctx\<lparr>ac_pam_hdl := Some hdl1, ac_auth_data := None, ac_next_mech := None\<rparr>
                     in if ac_auth_data ctx = None then
                          (Inl (AuthCallError ''No authentication context data available for OTP validation'' EFAULT), ctx1, s1)
                        else if pr_code resp \<noteq> PAM_SUCCESS then
                          (Inr (resp, None), ctx1, log_audit_message ''AUTHENTICATION'' i
                             (Some (''One-time token validation failed: '' @ str_of_opt (pr_reason resp))) False s1)
                        else (case pr_user_info resp of
                           None \<Rightarrow> (Inl (MissingAttribute ''user_info''), ctx1, s1)
                         | Some pw \<Rightarrow>
                             (case lookup_user env pw of
                                Inl e \<Rightarrow> (Inl (RoleFailure e), ctx1, s1)
                              | Inr None \<Rightarrow>
                                  (Inr (lacks_api_access, None), ctx1,
                                   log_audit_message ''AUTHENTICATION'' i (pr_reason lacks_api_access) False s1)
                              | Inr (Some info) \<Rightarrow>
                                  (case new_user_cred env LoginTwofactor (Some (as_level s1)) info s1 of
                                     (cr, s2) \<Rightarrow> (Inr (resp, Some cr), ctx1, s2))))))))"

subsection \<open>Token\<close>

text \<open>
  The mechanism runs in a thread: it looks up the token, waits for PAM, and then removes a
  single-use token. The two parts are separate definitions.
\<close>

definition token_lookup :: "login_env \<Rightarrow> string \<Rightarrow> string \<Rightarrow> auth_state \<Rightarrow> (pam_resp + token) \<times> auth_state" where
  "token_lookup env i token_str s =
     (let audit = (\<lambda>reason. log_audit_message ''AUTHENTICATION'' i (Some reason) False)
      in case token_get (le_now env) token_str (ap_origin (as_apps s i)) s of
           (None, s1) \<Rightarrow> (Inl (resp_of PAM_AUTH_ERR ''Invalid token''), audit ''Invalid token'' s1)
         | (Some t, s1) \<Rightarrow>
             if truthy (token_attributes t) then (Inl (resp_of PAM_AUTH_ERR ''Bad token''), audit ''Bad token'' s1)
             else (Inr t, s1))"

definition token_finish :: "login_env \<Rightarrow> string \<Rightarrow> token \<Rightarrow> auth_context \<Rightarrow> auth_state \<Rightarrow> mech_result" where
  "token_finish env i t ctx s =
     (case origin_for_pam (as_apps s i) of
        Inl e \<Rightarrow> (Inl e, ctx, s)
      | Inr og \<Rightarrow>
          (case open_token_cred (le_today env) (le_auth env) t (new_token_authenticator (token_username (as_store s) t)) s of
             (r, cr, hdl, s1) \<Rightarrow>
               (let ctx1 = ctx\<lparr>ac_pam_hdl := Some hdl\<rparr>
                in case r of
                     Inl e \<Rightarrow> (Inl e, ctx1, s1)
                   | Inr resp \<Rightarrow>
                       if pr_code resp = PAM_SUCCESS then
                         (Inr (resp, Some cr), ctx1, if token_single_use t then destroy_token t s1 else s1)
                       else (Inr (resp, Some cr), ctx1, log_audit_message ''AUTHENTICATION'' i (pr_reason resp) False s1))))"

definition login_ex_token_plain :: "login_env \<Rightarrow> string \<Rightarrow> string \<Rightarrow> auth_context \<Rightarrow> auth_state \<Rightarrow> mech_result" where
  "login_ex_token_plain env i token_str ctx s =
     (case token_lookup env i token_str s of
        (Inl resp, s1) \<Rightarrow> (Inr (resp, None), ctx, s1)
      | (Inr t, s1) \<Rightarrow> token_finish env i t ctx s1)"

subsection \<open>SCRAM\<close>

datatype scram_type = CLIENT_FIRST_MESSAGE | CLIENT_FINAL_MESSAGE | OTHER_SCRAM string

definition scram_first :: "login_env \<Rightarrow> string \<Rightarrow> string \<Rightarrow> auth_context \<Rightarrow> auth_state \<Rightarrow> mech_result" where
  "scram_first env i rfc ctx s =
     (case origin_for_pam (as_apps s i) of
        Inl e \<Rightarrow> (Inl e, ctx, s)
      | Inr og \<Rightarrow>
          (case new_scram_authenticator (le_parse_scram env) rfc og of
             Inl e \<Rightarrow> (Inl (AuthException e), ctx, s)
           | Inr hdl \<Rightarrow>
               (let ctx1 = ctx\<lparr>ac_pam_hdl := Some hdl\<rparr>
                in case auth_ctx_check env i hdl False s of
                     (False, s1) \<Rightarrow> (Inr (precheck_failed, None), ctx1, s1)
                   | (True, s1) \<Rightarrow>
                       (case handle_first_message (ae_nss (le_auth env)) (ae_pam (le_auth env)) hdl of
                          (Inl e, hdl1) \<Rightarrow> (Inl (AuthException e), ctx1\<lparr>ac_pam_hdl := Some hdl1\<rparr>, s1)
                        | (Inr resp, hdl1) \<Rightarrow>
                            (let ctx2 = ctx1\<lparr>ac_pam_hdl := Some hdl1\<rparr>
                             in if pr_code resp = PAM_CONV_AGAIN then (Inr (resp, None), ctx2\<lparr>ac_next_mech := Some SCRAM\<rparr>, s1)
                                else (Inr (resp, None), ctx2, log_audit_message ''AUTHENTICATION'' i (pr_reason resp) False s1))))))"

text \<open>
  The final message. The user information is not checked before it is used: for an account
  without API access it is \<open>None\<close>, whose subscription is a \<open>TypeError\<close>.
\<close>

definition scram_final :: "login_env \<Rightarrow> string \<Rightarrow> string \<Rightarrow> auth_context \<Rightarrow> auth_state \<Rightarrow> mech_result" where
  "scram_final env i rfc ctx s =
     (case ac_pam_hdl ctx of
        None \<Rightarrow> (Inl (MissingAttribute ''pam_hdl''), ctx, s)
      | Some hdl \<Rightarrow>
          (case auth_ctx_check env i hdl False s of
             (False, s1) \<Rightarrow> (Inr (precheck_failed, None), ctx, s1)
           | (True, s1) \<Rightarrow>
               if ac_next_mech ctx \<noteq> Some SCRAM then
                 (Inl (AuthCallError ''SCRAM authentication is not in progress'' EFAULT), ctx, s1)
               else if au_kind hdl \<noteq> ScramHdl then (Inl (MissingAttribute ''ScramPamAuthenticator''), ctx, s1)
               else
                 (case handle_final_message (ae_pam (le_auth env)) rfc hdl of
                    (Inl e, hdl1) \<Rightarrow> (Inl (AuthException e), ctx\<lparr>ac_pam_hdl := Some hdl1, ac_next_mech := None\<rparr>, s1)
                  | (Inr resp, hdl1) \<Rightarrow>
                      (let ctx1 = ctx\<lparr>ac_pam_hdl := Some hdl1, ac_next_mech := None\<rparr>
                       in if pr_code resp \<noteq> PAM_SUCCESS then
                            (Inr (resp, None), ctx1, log_audit_message ''AUTHENTICATION'' i (pr_reason resp) False s1)
                          else (case pr_user_info resp of
                             None \<Rightarrow> (Inl (MissingAttribute ''user_info''), ctx1, s1)
                           | Some pw \<Rightarrow>
                               (case lookup_user env pw of
                                  Inl e \<Rightarrow> (Inl (RoleFailure e), ctx1, s1)
                                | Inr None \<Rightarrow> (Inl (MissingAttribute ''privilege''), ctx1, s1)
                                | Inr (Some info) \<Rightarrow>
                                    (if au_api_key_id hdl1 \<noteq> 0 then
                                       (case le_api_keys env (au_api_key_id hdl1) of
                                          None \<Rightarrow> (Inl (MissingAttribute ''api_key''), ctx1, s1)
                                        | Some k \<Rightarrow>
                                            (case new_user_cred env (ApiKey (ak_id k) (ak_name k)) (Some (as_level s1)) info s1 of
                                               (cr, s2) \<Rightarrow> (Inr (resp, Some cr), ctx1, s2)))
                                     else
                                       (case new_user_cred env PlainUser (Some (as_level s1)) info s1 of
                                          (cr, s2) \<Rightarrow> (Inr (resp, Some cr), ctx1, s2)))))))))"

definition login_ex_scram :: "login_env \<Rightarrow> string \<Rightarrow> scram_type \<Rightarrow> string \<Rightarrow> auth_context \<Rightarrow> auth_state \<Rightarrow> mech_result" where
  "login_ex_scram env i kind rfc ctx s =
     (case kind of
        CLIENT_FIRST_MESSAGE \<Rightarrow> scram_first env i rfc ctx s
      | CLIENT_FINAL_MESSAGE \<Rightarrow> scram_final env i rfc ctx s
      | OTHER_SCRAM k \<Rightarrow> (Inl (AuthCallError (k @ '': invalid SCRAM type'') EFAULT), ctx, s))"

section \<open>\<open>auth.login_ex\<close>\<close>

record login_options =
  lo_user_info :: bool
  lo_reconnect_token :: bool

datatype login_data =
    PasswordData string string login_options
  | ApiKeyData string string login_options
  | OtpData string login_options
  | TokenData string login_options
  | ScramData scram_type string

datatype AuthResp = AR_SUCCESS | AR_AUTH_ERR | AR_EXPIRED | AR_OTP_REQUIRED | AR_REDIRECT | AR_SCRAM_RESPONSE | AR_DENIED

record login_response =
  lr_type :: AuthResp
  lr_username :: "string option"
  lr_rfc_str :: "string option"
  lr_reconnect_token :: "string option"

fun data_mech :: "login_data \<Rightarrow> AuthMech" where
  "data_mech (PasswordData _ _ _) = PASSWORD_PLAIN"
| "data_mech (ApiKeyData _ _ _) = API_KEY_PLAIN"
| "data_mech (OtpData _ _) = OTP_TOKEN"
| "data_mech (TokenData _ _) = TOKEN_PLAIN"
| "data_mech (ScramData _ _) = SCRAM"

fun data_options :: "login_data \<Rightarrow> login_options" where
  "data_options (PasswordData _ _ opts) = opts"
| "data_options (ApiKeyData _ _ opts) = opts"
| "data_options (OtpData _ opts) = opts"
| "data_options (TokenData _ opts) = opts"
| "data_options (ScramData _ _) = \<lparr>lo_user_info = False, lo_reconnect_token = False\<rparr>"

definition response :: "AuthResp \<Rightarrow> login_response" where
  "response t = \<lparr>lr_type = t, lr_username = None, lr_rfc_str = None, lr_reconnect_token = None\<rparr>"

text \<open>On the standby node of an HA pair, clients are sent to the active one.\<close>

definition redirects :: "login_env \<Rightarrow> bool" where
  "redirects env \<longleftrightarrow> le_failover_licensed env \<and> le_failover_status env = ''BACKUP'' \<and> le_remote_status env = Some ''MASTER''"

definition MIN_RECONNECT_TOKEN_TTL :: int where
  "MIN_RECONNECT_TOKEN_TTL = 60"

text \<open>The time to live of a reconnect token, from the preferences of the user.\<close>

definition reconnect_ttl :: "(string \<times> pyval) list option \<Rightarrow> aal \<Rightarrow> int" where
  "reconnect_ttl preferences level =
     (let ui_ttl = (case preferences of
                      None \<Rightarrow> None
                    | Some d \<Rightarrow> (case map_of d ''lifetime'' of None \<Rightarrow> Some DEFAULT_TOKEN_TTL
                                 | Some (PInt n) \<Rightarrow> Some n
                                 | Some (PBool b) \<Rightarrow> Some (if b then 1 else 0)
                                 | Some _ \<Rightarrow> None));
          ttl = (case ui_ttl of
                   None \<Rightarrow> DEFAULT_TOKEN_TTL
                 | Some n \<Rightarrow> if n \<ge> MIN_RECONNECT_TOKEN_TTL then n else DEFAULT_TOKEN_TTL)
      in min ttl (max_session_age level))"

text \<open>\<open>auth.me\<close> as far as it matters here: it is refused unless the session is a user's.\<close>

definition me_error :: "cred option \<Rightarrow> auth_error option" where
  "me_error c =
     (case map_option root_of_cred c of
        Some (UserCred _ _ _ _) \<Rightarrow> None
      | Some r \<Rightarrow> Some (AuthCallError (''You are logged in using '' @ class_name r) EFAULT)
      | None \<Rightarrow> Some (MissingAttribute ''class_name''))"

definition set_context :: "string \<Rightarrow> auth_context option \<Rightarrow> auth_state \<Rightarrow> auth_state" where
  "set_context i ctx = upd_app i (\<lambda>a. a\<lparr>ap_context := ctx\<rparr>)"

definition drop_pam_hdl :: "string \<Rightarrow> auth_state \<Rightarrow> auth_state" where
  "drop_pam_hdl i = upd_app i (\<lambda>a. a\<lparr>ap_context := map_option (\<lambda>ctx. ctx\<lparr>ac_pam_hdl := None\<rparr>) (ap_context a)\<rparr>)"

text \<open>After PAM has accepted: open the session, report, and issue a reconnect token.\<close>

definition login_success ::
  "login_env \<Rightarrow> string \<Rightarrow> login_options \<Rightarrow> cred \<Rightarrow> auth_state \<Rightarrow> (auth_error + login_response) \<times> auth_state" where
  "login_success env i opts c s =
     (case manager_login (le_now env) (le_answer env) i c s of
        (Some e, s1) \<Rightarrow> (Inl e, s1)
      | (None, s1) \<Rightarrow>
          (case (if lo_user_info opts then me_error (ap_credentials (as_apps s1 i)) else None) of
             Some e \<Rightarrow> (Inl e, s1)
           | None \<Rightarrow>
               (case get_authenticator_assurance_level s1 of
                  Inl e \<Rightarrow> (Inl e, s1)
                | Inr _ \<Rightarrow>
                    (let s2 = drop_pam_hdl i s1
                     in if \<not> (lo_reconnect_token opts \<and> may_create_auth_token c) then (Inr (response AR_SUCCESS), s2)
                        else (case me_error (ap_credentials (as_apps s2 i)) of
                           Some e \<Rightarrow> (Inl e, s2)
                         | None \<Rightarrow>
                             (case generate_token (le_now env) (le_token_string env) (le_jobs env) i
                                     (Some (reconnect_ttl (le_preferences env) (as_level s2))) (PDict []) True True s2 of
                                (Inl e, s3) \<Rightarrow> (Inl e, s3)
                              | (Inr tok, s3) \<Rightarrow> (Inr ((response AR_SUCCESS)\<lparr>lr_reconnect_token := Some tok\<rparr>), s3)))))))"

text \<open>The response for the answer of PAM.\<close>

definition login_outcome ::
  "login_env \<Rightarrow> string \<Rightarrow> login_options \<Rightarrow> pam_resp \<times> cred option \<Rightarrow> auth_state \<Rightarrow> (auth_error + login_response) \<times> auth_state" where
  "login_outcome env i opts r s =
     (case r of (resp, c) \<Rightarrow>
        if pr_code resp = PAM_SUCCESS then
          (case c of
             None \<Rightarrow> (Inl (MissingAttribute ''login''), s)
           | Some cr \<Rightarrow> login_success env i opts cr s)
        else if pr_code resp = PAM_PERM_DENIED then (Inr (response AR_DENIED), s)
        else if pr_code resp \<in> {PAM_ACCT_EXPIRED, PAM_NEW_AUTHTOK_REQD, PAM_CRED_EXPIRED} then (Inr (response AR_EXPIRED), s)
        else (Inr (response AR_AUTH_ERR), s))"

definition scram_outcome ::
  "login_env \<Rightarrow> string \<Rightarrow> scram_type \<Rightarrow> pam_resp \<times> cred option \<Rightarrow> auth_state \<Rightarrow> (auth_error + login_response) \<times> auth_state" where
  "scram_outcome env i kind r s =
     (case r of (resp, c) \<Rightarrow>
        (case kind of
           CLIENT_FIRST_MESSAGE \<Rightarrow>
             if pr_code resp = PAM_CONV_AGAIN then
               (Inr ((response AR_SCRAM_RESPONSE)\<lparr>lr_rfc_str := pr_reason resp\<rparr>), s)
             else login_outcome env i (data_options (ScramData kind [])) r s
         | CLIENT_FINAL_MESSAGE \<Rightarrow>
             if pr_code resp \<noteq> PAM_SUCCESS then (Inr (response AR_AUTH_ERR), s)
             else (case c of
                None \<Rightarrow> (Inl (MissingAttribute ''login''), s)
              | Some cr \<Rightarrow>
                  (case manager_login (le_now env) (le_answer env) i cr s of
                     (Some e, s1) \<Rightarrow> (Inl e, s1)
                   | (None, s1) \<Rightarrow>
                       (case me_error (ap_credentials (as_apps s1 i)) of
                          Some e \<Rightarrow> (Inl e, s1)
                        | None \<Rightarrow> (Inr ((response AR_SCRAM_RESPONSE)\<lparr>lr_rfc_str := pr_reason resp\<rparr>), drop_pam_hdl i s1))))
         | OTHER_SCRAM k \<Rightarrow> (Inl (AuthCallError (k @ '': invalid SCRAM type'') EFAULT), s)))"

text \<open>The mechanism is run with the context of the application, which it changes.\<close>

definition run_mechanism ::
  "login_env \<Rightarrow> string \<Rightarrow> login_data \<Rightarrow> auth_context \<Rightarrow> auth_state \<Rightarrow> mech_result \<times> int option" where
  "run_mechanism env i d ctx s =
     (case d of
        PasswordData username password _ \<Rightarrow> (login_ex_password_plain env i username password ctx s, None)
      | ApiKeyData username key _ \<Rightarrow> login_ex_api_key_plain env i username key ctx s
      | OtpData otp_token _ \<Rightarrow> (login_ex_oath_token env i otp_token ctx s, None)
      | TokenData token_str _ \<Rightarrow> (login_ex_token_plain env i token_str ctx s, None)
      | ScramData kind rfc \<Rightarrow> (login_ex_scram env i kind rfc ctx s, None))"

text \<open>
  \<open>login_ex\<close>: the response, the id of an API key that is revoked on the way, and the state.
\<close>

definition login_ex ::
  "login_env \<Rightarrow> string \<Rightarrow> login_data \<Rightarrow> auth_state \<Rightarrow> (auth_error + login_response) \<times> int option \<times> auth_state" where
  "login_ex env i d s =
     (if redirects env then (Inr (response AR_REDIRECT), None, s)
      else
        (let ctx = (case ap_context (as_apps s i) of None \<Rightarrow> new_context | Some c \<Rightarrow> c)
         in case check_auth_mechanism i (data_mech d) ctx (as_level s) s of
              (Some e, ctx1, s1) \<Rightarrow> (Inl e, None, set_context i (Some ctx1) s1)
            | (None, ctx1, s1) \<Rightarrow>
                (case run_mechanism env i d ctx1 s1 of
                   ((Inl e, ctx2, s2), revoked) \<Rightarrow> (Inl e, revoked, set_context i (Some ctx2) s2)
                 | ((Inr r, ctx2, s2), revoked) \<Rightarrow>
                     (let s3 = set_context i (Some ctx2) s2
                      in case d of
                           PasswordData username _ opts \<Rightarrow>
                             if pr_code (fst r) = PAM_CONV_AGAIN then
                               (Inr ((response AR_OTP_REQUIRED)\<lparr>lr_username := Some username\<rparr>), revoked, s3)
                             else (case login_outcome env i opts r s3 of (out, s4) \<Rightarrow> (out, revoked, s4))
                         | ScramData kind _ \<Rightarrow> (case scram_outcome env i kind r s3 of (out, s4) \<Rightarrow> (out, revoked, s4))
                         | _ \<Rightarrow> (case login_outcome env i (data_options d) r s3 of (out, s4) \<Rightarrow> (out, revoked, s4))))))"

section \<open>The other ways in and out\<close>

definition plain_options :: login_options where
  "plain_options = \<lparr>lo_user_info = False, lo_reconnect_token = False\<rparr>"

text \<open>The default options of the API model, which apply to the second step of \<open>auth.login\<close>.\<close>

definition default_options :: login_options where
  "default_options = \<lparr>lo_user_info = True, lo_reconnect_token = False\<rparr>"

definition is_success :: "auth_error + login_response \<Rightarrow> auth_error + bool" where
  "is_success r = map_sum id (\<lambda>x. lr_type x = AR_SUCCESS) r"

text \<open>\<open>auth.login\<close>; the environment of the second step is separate.\<close>

definition auth_login ::
  "login_env \<Rightarrow> login_env \<Rightarrow> string \<Rightarrow> string \<Rightarrow> string \<Rightarrow> string option \<Rightarrow> auth_state \<Rightarrow> (auth_error + bool) \<times> auth_state" where
  "auth_login env env2 i username password otp_token s =
     (case login_ex env i (PasswordData username password plain_options) s of
        (Inl e, _, s1) \<Rightarrow> (Inl e, s1)
      | (Inr r, _, s1) \<Rightarrow>
          if lr_type r = AR_SUCCESS then (Inr True, s1)
          else if lr_type r = AR_OTP_REQUIRED then
            (case otp_token of
               None \<Rightarrow> (Inr False, s1)
             | Some tok \<Rightarrow>
                 (case login_ex env2 i (OtpData tok default_options) s1 of
                    (r2, _, s2) \<Rightarrow> (is_success r2, s2)))
          else (Inr False, s1))"

text \<open>\<open>key_user\<close> is the user name of the row of \<open>api_key.query\<close> with the given id.\<close>

definition login_with_api_key ::
  "login_env \<Rightarrow> (int \<Rightarrow> string option) \<Rightarrow> string \<Rightarrow> string \<Rightarrow> auth_state \<Rightarrow> (auth_error + bool) \<times> int option \<times> auth_state" where
  "login_with_api_key env key_user i key_str s =
     (case Option.bind (py_parse_int (hd (py_split CHR ''-'' key_str))) key_user of
        None \<Rightarrow> (Inr False, None, log_audit_message ''AUTHENTICATION'' i (Some ''Invalid API key'') False s)
      | Some username \<Rightarrow>
          (case login_ex env i (ApiKeyData username key_str plain_options) s of
             (r, revoked, s1) \<Rightarrow> (is_success r, revoked, s1)))"

definition login_with_token :: "login_env \<Rightarrow> string \<Rightarrow> string \<Rightarrow> auth_state \<Rightarrow> (auth_error + bool) \<times> auth_state" where
  "login_with_token env i token_str s =
     (case login_ex env i (TokenData token_str plain_options) s of (r, _, s1) \<Rightarrow> (is_success r, s1))"

text \<open>\<open>auth.logout\<close>; the event subscriptions it cancels are not part of this state.\<close>

definition auth_logout :: "auth_resp \<Rightarrow> string \<Rightarrow> auth_state \<Rightarrow> auth_error option \<times> auth_state" where
  "auth_logout ans i s = manager_logout ans i s"

text \<open>
  The hook for new connections: sessions of local processes. For root sessions that are not
  interactive the answer of PAM is only logged.
\<close>

definition check_permission ::
  "login_env \<Rightarrow> (int option \<Rightarrow> string option) \<Rightarrow> string \<Rightarrow> auth_state \<Rightarrow> auth_error option \<times> auth_state" where
  "check_permission env user_of_uid i s =
     (case ap_origin (as_apps s i) of
        None \<Rightarrow> (None, s)
      | Some og \<Rightarrow>
          if \<not> is_unix_family og then (None, s)
          else
            (let name = (if uid og = Some 0 \<and> \<not> session_is_interactive og then Some ''root'' else user_of_uid (uid og))
             in case name of
                  None \<Rightarrow> (None, s)
                | Some n \<Rightarrow>
                    (case user_authenticate (le_auth env) n [] (new_authenticator UnixHdl UNIX_file n, as_otpw s) of
                       None \<Rightarrow> (Some NotEnded, s)
                     | Some (Inl e, _, m) \<Rightarrow> (Some (AuthException e), s\<lparr>as_otpw := m\<rparr>)
                     | Some (Inr resp, _, m) \<Rightarrow>
                         (let s1 = s\<lparr>as_otpw := m\<rparr>;
                              user = (if uid og = Some 0 \<and> \<not> session_is_interactive og then Inr (Some authenticate_root)
                                      else if pr_code resp \<noteq> PAM_SUCCESS then Inr None
                                      else (case pr_user_info resp of
                                              None \<Rightarrow> Inl (MissingAttribute ''user_info'')
                                            | Some pw \<Rightarrow> map_sum RoleFailure id (lookup_user env pw)))
                          in case user of
                               Inl e \<Rightarrow> (Some e, s1)
                             | Inr None \<Rightarrow> (None, s1)
                             | Inr (Some info) \<Rightarrow>
                                 (case new_user_cred env UnixSocket None info s1 of
                                    (cr, s2) \<Rightarrow> manager_login (le_now env) (le_answer env) i cr s2)))))"

text \<open>The hook for connections of the other node.\<close>

definition ha_permission :: "seconds \<Rightarrow> auth_answer \<Rightarrow> string \<Rightarrow> auth_state \<Rightarrow> auth_error option \<times> auth_state" where
  "ha_permission now ans i s =
     (if authenticated (as_apps s i) then (None, s)
      else (case ap_origin (as_apps s i) of
              None \<Rightarrow> (Some (MissingAttribute ''is_ha_connection''), s)
            | Some og \<Rightarrow> if is_ha_connection og then manager_login now ans i TruenasNodeCred s else (None, s)))"

end
