(* ===== verification/Session_Properties.thy ===== *)
theory Session_Properties
  imports Login
begin

text \<open>
  The sessions as a state machine: what every state satisfies that logins, logouts, messages and
  token operations can reach, and what follows for logins and tokens.
\<close>

section \<open>The invariant\<close>

text \<open>
  An application has credentials exactly when it has a session, with the same credentials; a
  token is stored under its string, and its parent is never itself a token session.
\<close>

definition sessions_ok :: "auth_state \<Rightarrow> bool" where
  "sessions_ok s \<longleftrightarrow> (\<forall>i. map_option ss_credentials (map_of (as_sessions s) i) = ap_credentials (as_apps s i))"

definition tokens_ok :: "auth_state \<Rightarrow> bool" where
  "tokens_ok s \<longleftrightarrow> dict_wf (as_tokens s) \<and>
     (\<forall>k t. map_of (as_tokens s) k = Some t \<longrightarrow> token_string t = k \<and> root_of_cred (token_parent t) = token_parent t)"

definition auth_inv :: "auth_state \<Rightarrow> bool" where
  "auth_inv s \<longleftrightarrow> sessions_ok s \<and> tokens_ok s"

text \<open>Steps that change no credentials and no session, and at most remove tokens.\<close>

definition quiet :: "auth_state \<Rightarrow> auth_state \<Rightarrow> bool" where
  "quiet s s' \<longleftrightarrow> as_sessions s' = as_sessions s \<and>
     (\<forall>i. ap_credentials (as_apps s' i) = ap_credentials (as_apps s i)) \<and> as_level s' = as_level s \<and>
     (dict_wf (as_tokens s) \<longrightarrow> dict_wf (as_tokens s') \<and> map_of (as_tokens s') \<subseteq>\<^sub>m map_of (as_tokens s))"

lemma quiet_refl [simp, intro]: "quiet s s"
  by (simp add: quiet_def)

lemma quiet_trans [trans]: "quiet s s1 \<Longrightarrow> quiet s1 s2 \<Longrightarrow> quiet s s2"
  by (auto simp: quiet_def intro: map_le_trans)

lemma quiet_inv: "quiet s s' \<Longrightarrow> auth_inv s \<Longrightarrow> auth_inv s'"
  by (auto simp: quiet_def auth_inv_def sessions_ok_def tokens_ok_def map_le_def dom_def)

lemma quiet_fields [simp]:
  "quiet s (s\<lparr>as_store := st\<rparr>)" "quiet s (s\<lparr>as_otpw := m\<rparr>)" "quiet s (s\<lparr>as_next_oid := n\<rparr>)"
  "quiet s (s\<lparr>as_events := e\<rparr>)" "quiet s (s\<lparr>as_closing := c\<rparr>)" "quiet s (log_audit_message ev i err ok s)"
  "quiet s (s\<lparr>as_next_oid := n, as_store := st\<rparr>)" "quiet s (s\<lparr>as_otpw := m, as_store := st\<rparr>)"
  by (simp_all add: quiet_def log_audit_message_def)

lemma quiet_upd_app [simp]:
  "(\<And>a. ap_credentials (f a) = ap_credentials a) \<Longrightarrow> quiet s (upd_app i f s)"
  by (simp add: quiet_def upd_app_def)

lemma quiet_context [simp]: "quiet s (set_context i ctx s)" "quiet s (drop_pam_hdl i s)"
  by (simp_all add: set_context_def drop_pam_hdl_def)

lemma map_of_filter_le: "dict_wf d \<Longrightarrow> dict_wf (filter P d) \<and> map_of (filter P d) \<subseteq>\<^sub>m map_of d"
proof (induction d)
  case (Cons x d)
  then have "fst x \<notin> dom (map_of (filter P d))" by (auto simp: dict_wf_def dom_map_of_conv_image_fst)
  then show ?case using Cons by (cases x) (auto simp: dict_wf_def map_le_def dom_def split: if_splits)
qed (simp add: dict_wf_def)

lemma delete_le: "dict_wf d \<Longrightarrow> dict_wf (AList.delete k d) \<and> map_of (AList.delete k d) \<subseteq>\<^sub>m map_of d"
  unfolding AList.delete_eq by (rule map_of_filter_le)

lemma quiet_delete [simp]: "quiet s (s\<lparr>as_tokens := AList.delete k (as_tokens s)\<rparr>)"
  by (simp add: quiet_def delete_le)

lemma quiet_destroy [simp]: "quiet s (destroy_token t s)"
  by (simp add: quiet_def destroy_token_def destroy_def delete_le)

lemma quiet_destroy_by_session [simp]: "quiet s (destroy_by_session_id i s)"
  by (simp add: quiet_def destroy_by_session_id_def map_of_filter_le)

lemma quiet_token_get: "token_get now k org s = (r, s') \<Longrightarrow> quiet s s'"
  by (auto simp: token_get_def split: option.splits if_splits)

lemma token_create_inv:
  assumes "auth_inv s"
  shows "auth_inv (snd (token_create now k ttl attrs org parent i single s))"
  using assms by (cases parent) (auto simp: token_create_def Let_def auth_inv_def sessions_ok_def tokens_ok_def
    root_credentials_def update_conv' dict_laws)

lemma manager_login_inv:
  assumes "auth_inv s"
  shows "auth_inv (snd (manager_login now ans i c s))"
proof -
  obtain resp st where l: "cred_login ans c (as_store s) = (resp, st)" by (cases "cred_login ans c (as_store s)")
  have ev: "auth_inv (s2\<lparr>as_events := e\<rparr>) = auth_inv s2" "auth_inv (log_audit_message a b d e' s2) = auth_inv s2" for s2 e a b d e'
    by (simp_all add: auth_inv_def sessions_ok_def tokens_ok_def log_audit_message_def)
  show ?thesis
    using assms unfolding manager_login_def l
    by (auto simp: Let_def ev split: option.split)
       (auto simp: auth_inv_def sessions_ok_def tokens_ok_def set_credentials_def upd_app_def update_conv')
qed

lemma cred_logout_tokens:
  assumes "cred_logout ans c (st, tokens) = (r, st', tokens')" and "dict_wf tokens"
  shows "dict_wf tokens' \<and> map_of tokens' \<subseteq>\<^sub>m map_of tokens"
  using assms by (cases c) (auto simp: destroy_def delete_le split: if_splits)

lemma no_session_no_credentials: "auth_inv s \<Longrightarrow> map_of (as_sessions s) i = None \<Longrightarrow> ap_credentials (as_apps s i) = None"
  by (metis auth_inv_def sessions_ok_def option.map_disc_iff)

lemma no_session_inv: "auth_inv s \<Longrightarrow> map_of (as_sessions s) i = None \<Longrightarrow> auth_inv (set_credentials i None s)"
  by (rule quiet_inv [of s]) (simp_all add: quiet_def set_credentials_def upd_app_def no_session_no_credentials)

lemma manager_logout_inv:
  assumes "auth_inv s"
  shows "auth_inv (snd (manager_logout ans i s))"
proof (cases "map_of (as_sessions s) i")
  case None
  then show ?thesis using assms no_session_inv by (simp add: manager_logout_def)
next
  case (Some ss)
  let ?s1 = "if is_internal_session i s then s else log_audit_message ''LOGOUT'' i None True s"
  let ?s2 = "upd_app i (\<lambda>a. a\<lparr>ap_context := None, ap_credentials := None\<rparr>) (?s1\<lparr>as_sessions := AList.delete i (as_sessions ?s1)\<rparr>)"
  have i2: "auth_inv ?s2" using assms
    by (auto simp: auth_inv_def sessions_ok_def tokens_ok_def upd_app_def delete_conv' log_audit_message_def)
  obtain r st tk where l: "cred_logout ans (ss_credentials ss) (as_store ?s2, as_tokens ?s2) = (r, st, tk)"
    by (cases "cred_logout ans (ss_credentials ss) (as_store ?s2, as_tokens ?s2)")
  have "dict_wf (as_tokens ?s2)" using i2 by (simp add: auth_inv_def tokens_ok_def)
  from cred_logout_tokens [OF l this] have "quiet ?s2 (?s2\<lparr>as_store := st, as_tokens := tk\<rparr>)" by (simp add: quiet_def)
  from quiet_inv [OF this i2] have i3: "auth_inv (?s2\<lparr>as_store := st, as_tokens := tk\<rparr>)" .
  then show ?thesis
    unfolding manager_logout_def Some option.case Let_def l prod.case
    by (cases r) (auto intro: quiet_inv [OF quiet_fields(4)])
qed

lemma app_on_message_inv: "auth_inv s \<Longrightarrow> auth_inv (snd (app_on_message now ans i s))"
  by (auto simp: app_on_message_def manager_logout_inv no_session_inv quiet_inv [OF quiet_fields(1)] split: option.split)

section \<open>Mechanisms change no session\<close>

text \<open>What the mechanisms leave alone, apart from removing tokens.\<close>

definition view :: "auth_state \<Rightarrow> (string, session) py_dict \<times> (string \<Rightarrow> cred option) \<times> aal \<times> token_dict" where
  "view s = (as_sessions s, \<lambda>i. ap_credentials (as_apps s i), as_level s, as_tokens s)"

lemma view_quiet: "view s' = view s \<Longrightarrow> quiet s s'"
  by (auto simp: view_def quiet_def fun_eq_iff)

lemma view_fields [simp]:
  "view (s\<lparr>as_store := st\<rparr>) = view s" "view (s\<lparr>as_otpw := m\<rparr>) = view s" "view (s\<lparr>as_next_oid := n\<rparr>) = view s"
  "view (s\<lparr>as_next_oid := n, as_store := st\<rparr>) = view s" "view (log_audit_message ev i err ok s) = view s"
  by (simp_all add: view_def log_audit_message_def)

lemma view_new_user_cred: "new_user_cred env k l info s = (cr, s') \<Longrightarrow> view s' = view s"
  by (auto simp: new_user_cred_def Let_def init_user_cred_def)

lemma view_auth_ctx_check: "auth_ctx_check env i hdl b s = (ok, s') \<Longrightarrow> view s' = view s"
  by (auto simp: auth_ctx_check_def split: if_splits)

lemma view_password_result: "password_result env i u resp ctx s = (r, ctx', s') \<Longrightarrow> view s' = view s"
  by (auto simp: password_result_def Let_def view_new_user_cred split: if_splits option.splits sum.splits prod.splits)

lemma view_password: "login_ex_password_plain env i u p ctx s = (r, ctx', s') \<Longrightarrow> view s' = view s"
  by (auto simp: login_ex_password_plain_def Let_def view_auth_ctx_check
      split: sum.splits prod.splits bool.splits option.splits dest!: view_password_result)

lemma view_api_key_result: "api_key_result env i og key resp ctx s = ((r, ctx', s'), rvk) \<Longrightarrow> view s' = view s"
  by (auto simp: api_key_result_def Let_def view_new_user_cred split: if_splits option.splits sum.splits prod.splits)

lemma view_api_key: "login_ex_api_key_plain env i u key ctx s = ((r, ctx', s'), rvk) \<Longrightarrow> view s' = view s"
  by (auto simp: login_ex_api_key_plain_def Let_def view_auth_ctx_check
      split: sum.splits prod.splits bool.splits option.splits dest!: view_api_key_result)

lemma view_oath: "login_ex_oath_token env i tok ctx s = (r, ctx', s') \<Longrightarrow> view s' = view s"
  by (auto simp: login_ex_oath_token_def Let_def view_auth_ctx_check view_new_user_cred
      split: if_splits sum.splits prod.splits bool.splits option.splits)

lemma view_scram_first: "scram_first env i rfc ctx s = (r, ctx', s') \<Longrightarrow> view s' = view s"
  by (auto simp: scram_first_def Let_def view_auth_ctx_check split: if_splits sum.splits prod.splits bool.splits)

lemma view_scram_final: "scram_final env i rfc ctx s = (r, ctx', s') \<Longrightarrow> view s' = view s"
  by (auto simp: scram_final_def Let_def view_auth_ctx_check view_new_user_cred
      split: if_splits sum.splits prod.splits bool.splits option.splits)

lemma view_open_token_cred: "open_token_cred today env t hdl s = (r, cr, hdl', s') \<Longrightarrow> view s' = view s"
  by (auto simp: open_token_cred_def Let_def view_def split: option.splits sum.splits prod.splits)

lemma quiet_check_auth_mechanism: "check_auth_mechanism i m ctx l s = (r, ctx', s') \<Longrightarrow> quiet s s'"
  by (auto simp: check_auth_mechanism_def Let_def split: option.splits if_splits)

lemma quiet_token_lookup: "token_lookup env i tok s = (r, s') \<Longrightarrow> quiet s s'"
  by (auto simp: token_lookup_def Let_def split: prod.splits option.splits if_splits
      dest!: quiet_token_get intro: quiet_trans quiet_fields)

lemma quiet_token_finish:
  assumes "token_finish env i t ctx s = (r, ctx', s')"
  shows "quiet s s'"
proof (cases "origin_for_pam (as_apps s i)")
  case (Inr og)
  obtain r1 cr hdl s1 where o: "open_token_cred (le_today env) (le_auth env) t
      (new_token_authenticator (token_username (as_store s) t)) s = (r1, cr, hdl, s1)"
    by (metis prod_cases4)
  have "quiet s s1" by (rule view_quiet [OF view_open_token_cred [OF o]])
  then show ?thesis using assms
    by (auto simp: token_finish_def Inr o Let_def split: sum.splits if_splits intro: quiet_trans quiet_fields quiet_destroy)
qed (use assms in \<open>simp add: token_finish_def\<close>)

lemma quiet_token: "login_ex_token_plain env i tok ctx s = (r, ctx', s') \<Longrightarrow> quiet s s'"
  by (auto simp: login_ex_token_plain_def split: prod.splits sum.splits
      dest!: quiet_token_lookup quiet_token_finish intro: quiet_trans)

lemma quiet_run_mechanism: "run_mechanism env i d ctx s = ((r, ctx', s'), rvk) \<Longrightarrow> quiet s s'"
  by (auto simp: run_mechanism_def login_ex_scram_def split: login_data.splits scram_type.splits prod.splits
      dest!: view_password view_api_key view_oath view_scram_first view_scram_final quiet_token intro: view_quiet)

section \<open>Logins keep the invariant\<close>

lemma generate_token_inv: "auth_inv s \<Longrightarrow> auth_inv (snd (generate_token now tok q i ttl attrs m single s))"
  using token_create_inv [of s now tok]
  by (simp add: generate_token_def case_prod_beta split: option.split)

lemma manager_login_inv_eq: "manager_login now ans i c s = (r, s') \<Longrightarrow> auth_inv s \<Longrightarrow> auth_inv s'"
  using manager_login_inv [of s now ans i c] by simp

lemma context_inv [simp]: "auth_inv s \<Longrightarrow> auth_inv (set_context i ctx s)" "auth_inv s \<Longrightarrow> auth_inv (drop_pam_hdl i s)"
  using quiet_inv quiet_context by blast+

lemma login_success_inv:
  assumes "auth_inv s"
  shows "auth_inv (snd (login_success env i opts c s))"
proof -
  obtain r s1 where l: "manager_login (le_now env) (le_answer env) i c s = (r, s1)" by fastforce
  then have "auth_inv s1" using assms manager_login_inv_eq by blast
  then have "auth_inv (snd (generate_token now tok q i ttl attrs m single (drop_pam_hdl i s1)))" for now tok q ttl attrs m single
    by (rule generate_token_inv [OF context_inv(2)])
  then show ?thesis using \<open>auth_inv s1\<close> l
    by (auto simp: login_success_def Let_def split: option.split sum.split prod.split) (metis snd_conv)+
qed

lemma login_outcome_inv: "auth_inv s \<Longrightarrow> auth_inv (snd (login_outcome env i opts r s))"
  by (auto simp: login_outcome_def login_success_inv split: prod.split option.split)

lemma scram_outcome_inv: "auth_inv s \<Longrightarrow> auth_inv (snd (scram_outcome env i kind r s))"
  by (auto simp: scram_outcome_def login_outcome_inv split: prod.split option.split scram_type.split
      intro: manager_login_inv_eq intro!: context_inv)

lemma login_ex_inv:
  assumes "auth_inv s" and "login_ex env i d s = (r, rvk, s')"
  shows "auth_inv s'"
proof (cases "redirects env")
  case False
  let ?ctx = "case ap_context (as_apps s i) of None \<Rightarrow> new_context | Some c \<Rightarrow> c"
  obtain e ctx1 s1 where c: "check_auth_mechanism i (data_mech d) ?ctx (as_level s) s = (e, ctx1, s1)"
    by (metis prod_cases3)
  have i1: "auth_inv s1" using quiet_inv [OF quiet_check_auth_mechanism [OF c] assms(1)] .
  obtain m ctx2 s2 rk where run: "run_mechanism env i d ctx1 s1 = ((m, ctx2, s2), rk)" by (metis prod.exhaust)
  have i3: "auth_inv (set_context i (Some ctx2) s2)" using quiet_inv [OF quiet_run_mechanism [OF run] i1] by simp
  note outs = login_outcome_inv [OF i3, of env i] scram_outcome_inv [OF i3, of env i]
  show ?thesis using assms(2) False i1 i3
    by (auto simp: login_ex_def c run Let_def split: option.splits sum.splits login_data.splits if_splits prod.splits)
       (metis outs snd_conv)+
qed (use assms in \<open>simp add: login_ex_def\<close>)

section \<open>The state machine\<close>

text \<open>The steps: a connection, the handlers of its messages, the hooks and the methods.\<close>

inductive auth_step :: "auth_state \<Rightarrow> auth_state \<Rightarrow> bool" where
  connect: "map_of (as_sessions s) i = None \<Longrightarrow> auth_step s (upd_app i (\<lambda>_. new_app og) s)"
| on_message: "auth_step s (snd (app_on_message now ans i s))"
| on_close: "auth_step s (snd (app_on_close ans i s))"
| log_in: "login_ex env i d s = (r, rvk, s') \<Longrightarrow> auth_step s s'"
| log_in_password: "auth_step s (snd (auth_login env env2 i username password otp_token s))"
| log_in_api_key: "auth_step s (snd (snd (login_with_api_key env key_user i key s)))"
| log_in_token: "auth_step s (snd (login_with_token env i tok s))"
| log_out: "auth_step s (snd (auth_logout ans i s))"
| local_connection: "auth_step s (snd (check_permission env users i s))"
| ha_connection: "auth_step s (snd (ha_permission now answer i s))"
| terminate: "auth_step s (snd (terminate_session i s))"
| terminate_others: "auth_step s (terminate_other_sessions i s)"
| new_token: "auth_step s (snd (generate_token now tok q i ttl attrs m single s))"
| use_token: "auth_step s (snd (get_token now tok og s))"
| use_token_for_action: "auth_step s (snd (get_token_for_action now today aenv i tok og meth resource s))"
| use_token_for_shell: "auth_step s (snd (get_token_for_shell_application now tok og s))"
| new_onetime_password: "auth_step s (snd (generate_onetime_password uq crypt p now i username s))"
| set_level: "auth_step s (snd (set_authenticator_assurance_level level s))"

definition auth_init :: "auth_state \<Rightarrow> bool" where
  "auth_init s \<longleftrightarrow> as_sessions s = [] \<and> as_tokens s = [] \<and> (\<forall>i. ap_credentials (as_apps s i) = None)"

lemma connect_inv: "auth_inv s \<Longrightarrow> map_of (as_sessions s) i = None \<Longrightarrow> auth_inv (upd_app i (\<lambda>_. new_app og) s)"
  by (rule quiet_inv [of s]) (simp_all add: quiet_def upd_app_def new_app_def no_session_no_credentials)

lemma auth_login_inv: "auth_inv s \<Longrightarrow> auth_inv (snd (auth_login env env2 i username password otp_token s))"
  by (auto simp: auth_login_def split: prod.split sum.split option.split intro: login_ex_inv)

lemma login_with_api_key_inv: "auth_inv s \<Longrightarrow> auth_inv (snd (snd (login_with_api_key env key_user i key s)))"
  by (auto simp: login_with_api_key_def split: prod.split option.split
      intro: login_ex_inv quiet_inv [OF quiet_fields(6)])

lemma login_with_token_inv: "auth_inv s \<Longrightarrow> auth_inv (snd (login_with_token env i tok s))"
  by (auto simp: login_with_token_def split: prod.split intro: login_ex_inv)

lemma check_permission_inv:
  assumes "auth_inv s"
  shows "auth_inv (snd (check_permission env users i s))"
proof -
  have "auth_inv (s\<lparr>as_otpw := m\<rparr>)" for m by (rule quiet_inv [OF quiet_fields(2) assms])
  moreover have "auth_inv (snd (manager_login now ans i cr s2))" if "new_user_cred env k l info (s\<lparr>as_otpw := m\<rparr>) = (cr, s2)"
    for now ans k l info m cr s2
    by (rule manager_login_inv [OF quiet_inv [OF view_quiet [OF view_new_user_cred [OF that]] calculation]])
  ultimately show ?thesis using assms
    by (auto simp: check_permission_def Let_def split: option.split sum.split prod.split)
qed

lemma ha_permission_inv: "auth_inv s \<Longrightarrow> auth_inv (snd (ha_permission now answer i s))"
  by (auto simp: ha_permission_def manager_login_inv split: option.split)

lemma quiet_terminate: "quiet s (snd (terminate_session i s))"
  by (auto simp: terminate_session_def Let_def split: option.split intro: quiet_trans quiet_destroy_by_session quiet_fields)

lemma quiet_terminate_sessions: "quiet s (terminate_sessions i js s)"
  by (induction js arbitrary: s) (auto intro: quiet_trans quiet_terminate)

lemma quiet_get_token: "quiet s (snd (get_token now tok og s))"
  by (auto simp: get_token_def split: prod.split option.split dest: quiet_token_get intro: quiet_trans quiet_destroy)

lemma quiet_get_token_for_shell: "quiet s (snd (get_token_for_shell_application now tok og s))"
  by (auto simp: get_token_for_shell_application_def split: prod.split option.split cred.split
      dest: quiet_token_get intro: quiet_trans quiet_destroy)

lemma quiet_open_token_cred:
  "quiet s s3 \<Longrightarrow> quiet s (upd_app i (\<lambda>a. a\<lparr>ap_context := c\<rparr>) (snd (snd (snd (open_token_cred today env t hdl s3)))))"
  by (cases "open_token_cred today env t hdl s3")
     (auto intro: quiet_trans [OF quiet_trans [OF _ view_quiet [OF view_open_token_cred]] quiet_upd_app])

lemma quiet_get_token_for_action: "quiet s (snd (get_token_for_action now today aenv i tok og meth resource s))"
proof -
  obtain r s1 where g: "token_get now tok og s = (r, s1)" by fastforce
  have q1: "quiet s s1" by (rule quiet_token_get [OF g])
  have q2: "quiet s (upd_app i (\<lambda>a. a\<lparr>ap_context := c\<rparr>) s1)" for c by (rule quiet_trans [OF q1]) simp
  have q3: "quiet s (destroy_token t (upd_app i (\<lambda>a. a\<lparr>ap_context := c\<rparr>) s1))" for c t by (rule quiet_trans [OF q2 quiet_destroy])
  show ?thesis unfolding get_token_for_action_def g prod.case Let_def
    by (simp add: case_prod_beta q1 q2 q3 quiet_open_token_cred split: option.split sum.split)
qed

lemma quiet_generate_onetime_password: "quiet s (snd (generate_onetime_password uq crypt p now i username s))"
  by (auto simp: generate_onetime_password_def Let_def split: option.split sum.split prod.split)

lemma set_level_inv: "auth_inv s \<Longrightarrow> auth_inv (snd (set_authenticator_assurance_level level s))"
  by (auto simp: set_authenticator_assurance_level_def auth_inv_def sessions_ok_def tokens_ok_def)

lemmas step_invs = connect_inv app_on_message_inv manager_logout_inv login_ex_inv auth_login_inv login_with_api_key_inv
  login_with_token_inv check_permission_inv ha_permission_inv generate_token_inv set_level_inv

lemmas quiet_steps = quiet_terminate quiet_terminate_sessions quiet_get_token quiet_get_token_for_shell
  quiet_get_token_for_action quiet_generate_onetime_password

interpretation auth: invariant_system auth_init auth_step auth_inv
proof
  fix s assume "auth_init s"
  then show "auth_inv s" by (simp add: auth_init_def auth_inv_def sessions_ok_def tokens_ok_def dict_wf_def)
next
  fix s t assume "auth_step s t" "auth_inv s"
  then show "auth_inv t"
    by (cases rule: auth_step.cases)
       (auto simp: app_on_close_def auth_logout_def terminate_other_sessions_def step_invs intro: quiet_inv quiet_steps login_ex_inv)
qed

end
