(* ===== verification/Login_Properties.thy ===== *)
theory Login_Properties
  imports Session_Properties Job_Invariants
begin

text \<open>
  What logins guarantee: who ends up with which credentials, what a message needs, and how
  often a token can be used.
\<close>

section \<open>What a login changes\<close>

lemma manager_login_credentials:
  assumes "manager_login now ans i c s = (r, s')"
  shows "ap_credentials (as_apps s' j) = ap_credentials (as_apps s j) \<or> (j = i \<and> ap_credentials (as_apps s' j) = Some c)"
  using assms
  by (auto simp: manager_login_def Let_def log_audit_message_def set_credentials_def upd_app_def split: prod.splits option.splits if_splits)

lemma manager_login_tokens: "manager_login now ans i c s = (r, s') \<Longrightarrow> as_tokens s' = as_tokens s"
  by (auto simp: manager_login_def Let_def log_audit_message_def set_credentials_def upd_app_def split: prod.splits option.splits if_splits)

lemma generate_token_frame:
  assumes "generate_token now tok q i ttl attrs m single s = (r, s')"
  shows "as_apps s' = as_apps s" and "k \<noteq> tok \<Longrightarrow> map_of (as_tokens s') k = map_of (as_tokens s) k"
  using assms
  by (auto simp: generate_token_def token_create_def Let_def update_conv' split: prod.splits option.splits if_splits)

lemma context_frame [simp]:
  "ap_credentials (as_apps (set_context i ctx s) j) = ap_credentials (as_apps s j)" "as_tokens (set_context i ctx s) = as_tokens s"
  "ap_credentials (as_apps (drop_pam_hdl i s) j) = ap_credentials (as_apps s j)" "as_tokens (drop_pam_hdl i s) = as_tokens s"
  by (simp_all add: set_context_def drop_pam_hdl_def upd_app_def)

lemma login_success_frame:
  assumes "login_success env i opts c s = (r, s')"
  shows "(ap_credentials (as_apps s' j) = ap_credentials (as_apps s j) \<or> (j = i \<and> ap_credentials (as_apps s' j) = Some c)) \<and>
    (k \<noteq> le_token_string env \<longrightarrow> map_of (as_tokens s') k = map_of (as_tokens s) k)"
proof -
  obtain e s1 where l: "manager_login (le_now env) (le_answer env) i c s = (e, s1)" by fastforce
  note fr = manager_login_credentials [OF l, of j] manager_login_tokens [OF l]
  show ?thesis using assms fr
    by (auto simp: login_success_def l Let_def split: option.splits sum.splits if_splits prod.splits dest: generate_token_frame)
qed

lemma login_outcome_frame:
  assumes "login_outcome env i opts (resp, co) s = (r, s')"
  shows "ap_credentials (as_apps s' j) = ap_credentials (as_apps s j) \<or>
    (j = i \<and> pr_code resp = PAM_SUCCESS \<and> (\<exists>c. co = Some c \<and> ap_credentials (as_apps s' j) = Some c))"
  using assms
  by (auto simp: login_outcome_def split: option.splits if_splits dest: login_success_frame [where j = j])

lemma scram_outcome_frame:
  assumes "scram_outcome env i kind (resp, co) s = (r, s')"
  shows "ap_credentials (as_apps s' j) = ap_credentials (as_apps s j) \<or>
    (j = i \<and> pr_code resp = PAM_SUCCESS \<and> (\<exists>c. co = Some c \<and> ap_credentials (as_apps s' j) = Some c))"
  using assms
  by (auto simp: scram_outcome_def split: option.splits if_splits scram_type.splits prod.splits
      dest: login_outcome_frame [where j = j] manager_login_credentials [where j = j])

text \<open>
  Credentials change only for the connection that logs in, after the mechanism was permitted and
  has answered with success, and then to what the mechanism returned.
\<close>

lemma login_ex_credentials:
  assumes "login_ex env i d s = (r, rvk, s')" and "ap_credentials (as_apps s' j) \<noteq> ap_credentials (as_apps s j)"
  obtains ctx ctx1 s1 resp c ctx2 s2 rk where "j = i"
    and "check_auth_mechanism i (data_mech d) ctx (as_level s) s = (None, ctx1, s1)"
    and "run_mechanism env i d ctx1 s1 = ((Inr (resp, Some c), ctx2, s2), rk)"
    and "pr_code resp = PAM_SUCCESS" and "ap_credentials (as_apps s' i) = Some c"
proof -
  let ?ctx = "case ap_context (as_apps s i) of None \<Rightarrow> new_context | Some c \<Rightarrow> c"
  have nr: "\<not> redirects env" using assms by (auto simp: login_ex_def)
  obtain e ctx1 s1 where c: "check_auth_mechanism i (data_mech d) ?ctx (as_level s) s = (e, ctx1, s1)"
    by (metis prod_cases3)
  obtain m ctx2 s2 rk where run: "run_mechanism env i d ctx1 s1 = ((m, ctx2, s2), rk)" by (metis prod.exhaust)
  have same: "ap_credentials (as_apps s2 k) = ap_credentials (as_apps s k)" "ap_credentials (as_apps s1 k) = ap_credentials (as_apps s k)" for k
    using quiet_check_auth_mechanism [OF c] quiet_run_mechanism [OF run] by (simp_all add: quiet_def)
  have e: "e = None" using assms nr by (cases e) (auto simp: login_ex_def c same)
  obtain resp co where m: "m = Inr (resp, co)"
    using assms nr by (cases m) (auto simp: login_ex_def c run e same)
  have "ap_credentials (as_apps s' j) = ap_credentials (as_apps s2 j) \<or>
      (j = i \<and> pr_code resp = PAM_SUCCESS \<and> (\<exists>c. co = Some c \<and> ap_credentials (as_apps s' j) = Some c))"
    using assms(1) nr
    by (auto simp: login_ex_def c run e m Let_def split: login_data.splits if_splits prod.splits
        dest: login_outcome_frame [where j = j] scram_outcome_frame [where j = j])
  then have "j = i \<and> pr_code resp = PAM_SUCCESS \<and> (\<exists>c. co = Some c \<and> ap_credentials (as_apps s' j) = Some c)"
    using assms(2) same(1) [of j] by metis
  then show ?thesis using that c run e m by blast
qed

section \<open>An example\<close>

text \<open>An administrator with a password and possibly a second factor; PAM accepts local sessions.\<close>

definition example_origin :: origin where
  "example_origin = \<lparr>family = AF_INET, loc_addr = Some ''10.0.0.1'', loc_port = Some 443, rem_addr = Some ''10.0.0.2'',
     rem_port = Some 50000, pid = None, uid = None, gid = None, loginuid = None, ssl = True\<rparr>"

definition login_pam :: "bool \<Rightarrow> pam" where
  "login_pam second_factor h =
     (case last h of
        AuthInit UNIX_file _ \<Rightarrow> \<lparr>ps_code = PAM_SUCCESS, ps_messages = [], ps_reason = None, ps_user = Some ''ann'', ps_context = []\<rparr>
      | _ \<Rightarrow> example_pam second_factor True h)"

definition example_login :: "bool \<Rightarrow> login_env" where
  "example_login second_factor =
     \<lparr>le_auth = (example_env second_factor True)\<lparr>ae_pam := login_pam second_factor\<rparr>,
      le_user_query = (\<lambda>_. Some \<lparr>du_uid = 3000, du_local = True\<rparr>), le_convert_unixids = (\<lambda>_. None),
      le_privileges = [\<lparr>pe_name = ''Admins'', pe_builtin_name = None, pe_local_groups = [Gid 3000], pe_ds_groups = [],
        pe_roles = [], pe_web_shell = True\<rparr>],
      le_depth = 8, le_roles = new_role_manager [], le_stig = False, le_service_file = (\<lambda>_. True), le_oath_file = True,
      le_api_keys = (\<lambda>_. None), le_today = 0,
      le_answer = \<lparr>ans_resp = DEFAULT_LOGIN_SUCCESS, ans_login_at = 0, ans_session_uuid = Some ''u''\<rparr>,
      le_parse_scram = (\<lambda>x. Inl x), le_failover_licensed = False, le_failover_status = ''SINGLE'', le_remote_status = None,
      le_token_string = ''reconnect'', le_preferences = None, le_jobs = example_start\<rparr>"

definition example_auth :: "aal \<Rightarrow> auth_state" where
  "example_auth level =
     \<lparr>as_store = example_store, as_tokens = [], as_sessions = [], as_apps = (\<lambda>_. new_app (Some example_origin)), as_level = level,
      as_next_oid = 1, as_otpw = no_otpw, as_closing = [], as_events = [], as_audit = []\<rparr>"

lemma example_origin_facts [simp]:
  "ap_origin a = Some example_origin \<Longrightarrow> origin_for_pam a = Inr example_origin" "is_unix_family example_origin = False"
  "origin_match example_origin example_origin"
  by (simp_all add: origin_for_pam_def get_pam_session_info_def is_tcp_ip_family_def is_unix_family_def origin_match_def
      example_origin_def Let_def)

lemma example_auth_reachable: "reach auth_init auth_step (example_auth level)"
  by (rule reach_init) (simp add: auth_init_def example_auth_def new_app_def)

lemma example_privilege:
  "lookup_user (example_login second_factor) \<lparr>pw_name = n, pw_uid = 3000, pw_local = True, pw_source = src', pw_grouplist = [3000],
     pw_account_attributes = attrs\<rparr> =
   Inr (Some \<lparr>u_username = n, u_account_attributes = attrs,
     u_privilege = \<lparr>pv_roles = {}, pv_allowlist = [], pv_web_shell = True, pv_webui_access = False\<rparr>\<rparr>)"
  by (simp add: lookup_user_def example_login_def authenticate_user_def privileges_for_groups_def entry_groups_def
      compose_privilege_def system_security_config_to_stig_type_def)

lemma login_pam_simps [simp]:
  "login_pam f (h @ [AuthContinue rs]) = example_pam f True (h @ [AuthContinue rs])"
  "login_pam f (h @ [AccountManagement]) = example_pam f True (h @ [AccountManagement])"
  "login_pam f (h @ [AuthInit DEFAULT_file n]) = example_pam f True (h @ [AuthInit DEFAULT_file n])"
  "login_pam f [AuthInit DEFAULT_file n] = example_pam f True [AuthInit DEFAULT_file n]"
  by (simp_all add: login_pam_def)

lemmas login_evals = example_auth_def new_app_def new_context_def redirects_def
  check_auth_mechanism_def aal_auth_mechanism_check_def mech_of_name_def mech_name_def run_mechanism_def
  login_ex_def auth_ctx_check_def plain_options_def
  login_outcome_def login_success_def manager_login_def authenticated_def response_def
  login_ex_password_plain_def password_result_def new_user_cred_def init_user_cred_def set_context_def drop_pam_hdl_def
  set_credentials_def log_audit_message_def upd_app_def is_internal_session_def
  get_authenticator_assurance_level_def le_now_def DEFAULT_LOGIN_SUCCESS_def record_login_def set_cred_def set_user_def
  AA_LEVEL1_def AA_LEVEL2_def AA_LEVEL3_def resp_of_def Let_def eval_nat_numeral

lemma example_password:
  "\<exists>a. user_authenticate (le_auth (example_login False)) ''ann'' ''secret'' (new_user_authenticator ''ann'', no_otpw) =
    Some (Inr \<lparr>pr_code = PAM_SUCCESS, pr_reason = None, pr_user_info = Some \<lparr>pw_name = ''ann'', pw_uid = 3000, pw_local = True,
      pw_source = ''LOCAL'', pw_grouplist = [3000], pw_account_attributes = [''LOCAL'']\<rparr>\<rparr>, a, no_otpw)"
  by (simp add: example_login_def authenticator_evals)

lemma example_login_fields [simp]:
  "le_failover_licensed (example_login f) = False" "le_service_file (example_login f) x = True" "le_oath_file (example_login f) = True"
  "le_answer (example_login f) = \<lparr>ans_resp = DEFAULT_LOGIN_SUCCESS, ans_login_at = 0, ans_session_uuid = Some ''u''\<rparr>"
  "ae_now (le_auth (example_login f)) = 0" "le_today (example_login f) = 0" "le_token_string (example_login f) = ''reconnect''"
  by (simp_all add: example_login_def example_env_def)

lemma example_login_password:
  "\<exists>s'. login_ex (example_login False) ''a'' (PasswordData ''ann'' ''secret'' plain_options) (example_auth AA_LEVEL1) =
     (Inr (response AR_SUCCESS), None, s') \<and>
     ap_credentials (as_apps s' ''a'') = Some (UserCred 2 LoginPassword (Some AA_LEVEL1) 1) \<and>
     \<not> is_valid (as_store s') 2592001 (UserCred 2 LoginPassword (Some AA_LEVEL1) 1)"
proof -
  obtain a where "user_authenticate (le_auth (example_login False)) ''ann'' ''secret'' (new_user_authenticator ''ann'', no_otpw) =
    Some (Inr \<lparr>pr_code = PAM_SUCCESS, pr_reason = None, pr_user_info = Some \<lparr>pw_name = ''ann'', pw_uid = 3000, pw_local = True,
      pw_source = ''LOCAL'', pw_grouplist = [3000], pw_account_attributes = [''LOCAL'']\<rparr>\<rparr>, a, no_otpw)"
    using example_password by blast
  then show ?thesis
    by (simp add: login_evals example_privilege user_cred_is_valid_def)
qed

lemma example_second_factor:
  "\<exists>r s1 s2. login_ex (example_login True) ''a'' (PasswordData ''ann'' ''secret'' plain_options) (example_auth AA_LEVEL2) = (Inr r, None, s1) \<and>
     lr_type r = AR_OTP_REQUIRED \<and> as_level s1 = AA_LEVEL2 \<and> ap_credentials (as_apps s1 ''a'') = None \<and>
     login_ex (example_login True) ''a'' (OtpData ''123456'' plain_options) s1 = (Inr (response AR_SUCCESS), None, s2) \<and>
     ap_credentials (as_apps s2 ''a'') = Some (UserCred 2 LoginTwofactor (Some AA_LEVEL2) 1)"
proof -
  obtain r a where u: "user_authenticate (le_auth (example_login True)) ''ann'' ''secret'' (new_user_authenticator ''ann'', no_otpw) =
      Some (Inr r, a, no_otpw)" and r: "pr_code r = PAM_CONV_AGAIN" and a: "au_twofactor_user a"
    "au_passwd a = Some \<lparr>pw_name = ''ann'', pw_uid = 3000, pw_local = True, pw_source = ''LOCAL'', pw_grouplist = [3000],
      pw_account_attributes = [''LOCAL'']\<rparr>"
    by (simp add: example_login_def authenticator_evals)
  have o: "\<exists>a'. authenticate_oath (ae_pam (le_auth (example_login True))) ''123456'' a =
     (Inr \<lparr>pr_code = PAM_SUCCESS, pr_reason = None, pr_user_info = au_passwd a\<rparr>, a')"
    using a by (simp add: authenticate_oath_def call_pam_simps example_login_def example_env_def example_pam_def with_user_info_def Let_def)
  show ?thesis using u r a o
    by (auto simp: login_evals login_ex_oath_token_def example_privilege)
qed

lemma example_internal:
  "\<exists>a r. internal_authenticate (le_auth (example_login False)) ''ann'' (new_token_authenticator ''ann'', no_otpw) = Some (Inr r, a, no_otpw) \<and>
     pr_code r = PAM_SUCCESS"
  by (simp add: internal_authenticate_def example_login_def authenticator_evals new_token_authenticator_def login_pam_def)

lemma example_token_finish:
  assumes "t = Token n ''tok'' 600 (PDict []) (Some example_origin) (UserCred c k l u) True"
    and "ap_origin (as_apps s i) = Some example_origin" and "u_username (st_users (as_store s) u) = ''ann''" and "as_otpw s = no_otpw"
  shows "\<exists>resp cr ctx' s'. token_finish (example_login False) i t ctx s = (Inr (resp, Some cr), ctx', s') \<and> pr_code resp = PAM_SUCCESS \<and>
    as_apps s' = as_apps s \<and> as_sessions s' = as_sessions s \<and> as_otpw s' = no_otpw \<and> as_level s' = as_level s \<and>
    st_users (as_store s') = st_users (as_store s)"
  using example_internal assms
  by (auto simp: token_finish_def open_token_cred_def init_token_cred_def
      token_username_def root_credentials_def pam_authenticate_def set_cred_def set_token_def destroy_token_def Let_def)

text \<open>The administrator logs in and creates a single-use token.\<close>

lemma example_token:
  "\<exists>s1 t s2 c k l u. login_ex (example_login False) ''a'' (PasswordData ''ann'' ''secret'' plain_options) (example_auth AA_LEVEL1) =
     (Inr (response AR_SUCCESS), None, s1) \<and>
     generate_token 0 ''tok'' example_start ''a'' None (PDict []) True True s1 = (Inr ''tok'', s2) \<and>
     map_of (as_tokens s2) ''tok'' = Some t \<and> t = Token 3 ''tok'' 600 (PDict []) (Some example_origin) (UserCred c k l u) True \<and>
     u_username (st_users (as_store s2) u) = ''ann'' \<and> as_otpw s2 = no_otpw \<and>
     as_apps s2 ''b'' = new_app (Some example_origin) \<and> as_apps s2 ''c'' = new_app (Some example_origin) \<and> as_level s2 = AA_LEVEL1 \<and>
     token_is_valid (as_store s2) 0 t"
  using example_password
  by (auto simp: login_evals example_privilege generate_token_def attr_job_def job_token_error_def token_create_def
      token_is_valid_def DEFAULT_TOKEN_TTL_def set_token_def)

lemma example_token_login:
  assumes "map_of (as_tokens s) ''tok'' = Some t" and "t = Token n ''tok'' 600 (PDict []) (Some example_origin) (UserCred c k l u) True"
    and "token_is_valid (as_store s) 0 t" and "as_apps s i = new_app (Some example_origin)"
    and "u_username (st_users (as_store s) u) = ''ann''" and "as_otpw s = no_otpw" and "as_level s = AA_LEVEL1"
  shows "token_lookup (example_login False) i ''tok'' s = (Inr t, s) \<and>
    (\<exists>s'. login_ex (example_login False) i (TokenData ''tok'' plain_options) s = (Inr (response AR_SUCCESS), None, s'))"
proof -
  have lk: "token_lookup (example_login False) i ''tok'' s = (Inr t, s)"
    using assms by (simp add: token_lookup_def token_get_def le_now_def new_app_def)
  obtain resp cr ctx' s' where f: "token_finish (example_login False) i t new_context s = (Inr (resp, Some cr), ctx', s')"
    "pr_code resp = PAM_SUCCESS" "as_apps s' = as_apps s" "as_level s' = as_level s"
    using example_token_finish [OF assms(2) _ assms(5,6), of i new_context] assms(4) by (auto simp: new_app_def)
  have "\<exists>c. cr = TokenCred c t"
    using f(1) by (auto simp: token_finish_def open_token_cred_def init_token_cred_def Let_def split: sum.splits prod.splits option.splits if_splits)
  then show ?thesis using lk f assms(4,7)
    by (auto simp: login_evals login_ex_token_plain_def)
qed

section \<open>Which credentials the mechanisms return\<close>

lemma new_user_cred_kind: "new_user_cred env k l info s = (cr, s') \<Longrightarrow> \<exists>c u. cr = UserCred c k l u"
  by (auto simp: new_user_cred_def Let_def init_user_cred_def)

lemma password_kind:
  assumes "login_ex_password_plain env i u p ctx s = (Inr (resp, Some cr), ctx', s')" and "otp_mandatory (as_level s)"
  shows "\<exists>c l u. cr = UserCred c LoginOnetimePassword l u"
proof -
  obtain ctx1 m s1 resp0 where pr: "password_result env i u resp0 ctx1 (s1\<lparr>as_otpw := m\<rparr>) = (Inr (resp, Some cr), ctx', s')"
    and "as_level s1 = as_level s"
    using assms(1)
    by (auto simp: login_ex_password_plain_def Let_def auth_ctx_check_def log_audit_message_def
        split: sum.splits prod.splits bool.splits option.splits if_splits)
  with assms(2) show ?thesis
    by (auto simp: password_result_def Let_def resp_of_def split: if_splits option.splits sum.splits prod.splits dest: new_user_cred_kind)
qed

lemma oath_kind: "login_ex_oath_token env i tok ctx s = (Inr (resp, Some cr), ctx', s') \<Longrightarrow> \<exists>c l u. cr = UserCred c LoginTwofactor l u"
  by (auto simp: login_ex_oath_token_def Let_def split: if_splits sum.splits prod.splits bool.splits option.splits
      dest: new_user_cred_kind)

lemma scram_kind:
  assumes "login_ex_scram env i kind rfc ctx s = (Inr (resp, Some cr), ctx', s')"
  shows "\<exists>c k l u. cr = UserCred c k l u"
proof -
  have "scram_final env i rfc ctx s = (Inr (resp, Some cr), ctx', s')"
    using assms by (auto simp: login_ex_scram_def scram_first_def Let_def split: scram_type.splits sum.splits prod.splits bool.splits if_splits)
  then show ?thesis
    by (auto simp: scram_final_def Let_def split: if_splits sum.splits prod.splits bool.splits option.splits dest!: new_user_cred_kind)
qed

lemma permitted_mechanism:
  assumes "check_auth_mechanism i m ctx level s = (None, ctx1, s1)"
  shows "m = OTP_TOKEN \<or> m \<in> set (mechanisms level)"
  using assms by (cases m) (auto simp: check_auth_mechanism_def Let_def aal_auth_mechanism_check_def mech_of_name_def mech_name_def
    split: option.splits if_splits)

text \<open>
  C4: at the assurance levels that demand a second factor, a login gives a connection new
  credentials only for a password with a second factor, for a one-time password, or for a SCRAM
  exchange; tokens and API keys over plain text do not work.
\<close>

theorem second_factor_demanded:
  assumes "login_ex env i d s = (r, rvk, s')" and "as_level s = AA_LEVEL2 \<or> as_level s = AA_LEVEL3"
    and "ap_credentials (as_apps s' j) \<noteq> ap_credentials (as_apps s j)"
  shows "j = i \<and> (\<exists>c k l u. ap_credentials (as_apps s' i) = Some (UserCred c k l u) \<and>
    (k = LoginTwofactor \<or> k = LoginOnetimePassword \<or> (as_level s = AA_LEVEL2 \<and> data_mech d = SCRAM)))"
proof -
  obtain ctx ctx1 s1 resp c ctx2 s2 rk where j: "j = i"
    and ck: "check_auth_mechanism i (data_mech d) ctx (as_level s) s = (None, ctx1, s1)"
    and run: "run_mechanism env i d ctx1 s1 = ((Inr (resp, Some c), ctx2, s2), rk)"
    and c: "ap_credentials (as_apps s' i) = Some c"
    using login_ex_credentials [OF assms(1,3)] by metis
  have lv: "otp_mandatory (as_level s1)"
    using quiet_check_auth_mechanism [OF ck] assms(2) by (auto simp: quiet_def AA_LEVEL2_def AA_LEVEL3_def)
  have "data_mech d = OTP_TOKEN \<or> data_mech d = PASSWORD_PLAIN \<or> (as_level s = AA_LEVEL2 \<and> data_mech d = SCRAM)"
    using permitted_mechanism [OF ck] assms(2) by (auto simp: AA_LEVEL2_def AA_LEVEL3_def)
  then show ?thesis using run j c lv
    by (cases d) (auto simp: run_mechanism_def dest: password_kind oath_kind scram_kind)
qed

theorem second_factor_demanded_witness:
  "\<exists>r s1 s2. login_ex (example_login True) ''a'' (PasswordData ''ann'' ''secret'' plain_options) (example_auth AA_LEVEL2) = (Inr r, None, s1) \<and>
     login_ex (example_login True) ''a'' (OtpData ''123456'' plain_options) s1 = (Inr (response AR_SUCCESS), None, s2) \<and>
     (\<exists>c l u. ap_credentials (as_apps s2 ''a'') = Some (UserCred c LoginTwofactor l u))"
proof -
  obtain r s1 s2 where l: "login_ex (example_login True) ''a'' (PasswordData ''ann'' ''secret'' plain_options) (example_auth AA_LEVEL2) = (Inr r, None, s1)"
      "login_ex (example_login True) ''a'' (OtpData ''123456'' plain_options) s1 = (Inr (response AR_SUCCESS), None, s2)"
    and s: "as_level s1 = AA_LEVEL2" "ap_credentials (as_apps s1 ''a'') = None"
      "ap_credentials (as_apps s2 ''a'') = Some (UserCred 2 LoginTwofactor (Some AA_LEVEL2) 1)"
    using example_second_factor by blast
  have "ap_credentials (as_apps s2 ''a'') \<noteq> ap_credentials (as_apps s1 ''a'')" using s by simp
  from second_factor_demanded [OF l(2) _ this] s l show ?thesis by auto
qed

section \<open>Messages\<close>



section \<open>Tokens\<close>

lemma token_lookup_result:
  assumes "token_lookup env i tok s = (r, s')"
  shows "(case r of Inl resp \<Rightarrow> pr_code resp = PAM_AUTH_ERR | Inr t \<Rightarrow> map_of (as_tokens s) tok = Some t \<and> s' = s)"
  using assms
  by (auto simp: token_lookup_def token_get_def Let_def resp_of_def split: prod.splits option.splits if_splits)

lemma open_token_cred_tokens: "open_token_cred today env t hdl s = (r, cr, hdl', s') \<Longrightarrow> as_tokens s' = as_tokens s"
  using view_open_token_cred [of today env t hdl s r cr hdl' s'] by (simp add: view_def)

lemma token_finish_success:
  assumes "token_finish env i t ctx s = (Inr (resp, c), ctx', s')" and "pr_code resp = PAM_SUCCESS" and "token_single_use t"
  shows "as_tokens s' = AList.delete (token_string t) (as_tokens s)"
  using assms
  by (auto simp: token_finish_def Let_def destroy_token_def destroy_def split: sum.splits prod.splits if_splits dest!: open_token_cred_tokens)




text \<open>
  C33: but the mechanism looks a token up and only removes it after PAM has answered. Another
  connection that looks the same single-use token up in between gets exactly the result it would
  get if the token were still there: both log in.
\<close>

theorem single_use_token_race:
  assumes "token_lookup env i tok s = (Inr t, s1)" and "token_lookup env' j tok s1 = (Inr t', s2)"
    and "token_finish env i t ctx s2 = (r, ctx1, s3)"
  shows "t' = t \<and> fst (token_finish env' j t' ctx' s3) = fst (token_finish env' j t (ctx'\<lparr>ac_pam_hdl := h\<rparr>) (s3\<lparr>as_tokens := as_tokens s\<rparr>))"
proof -
  have "t' = t" using token_lookup_result [OF assms(1)] token_lookup_result [OF assms(2)] by simp
  then show ?thesis
    by (auto simp: token_finish_def open_token_cred_def Let_def split: sum.splits prod.splits option.splits)
qed

theorem single_use_token_race_witness:
  "\<exists>s t ctx r s1 r' resp resp'. token_lookup (example_login False) ''b'' ''tok'' s = (Inr t, s) \<and> token_single_use t \<and>
     token_lookup (example_login False) ''c'' ''tok'' s = (Inr t, s) \<and>
     token_finish (example_login False) ''b'' t new_context s = (Inr (resp, r), ctx, s1) \<and> pr_code resp = PAM_SUCCESS \<and>
     map_of (as_tokens s1) ''tok'' = None \<and>
     fst (token_finish (example_login False) ''c'' t new_context s1) = Inr (resp', r') \<and> pr_code resp' = PAM_SUCCESS"
proof -
  obtain s :: auth_state and t c k l u where t: "map_of (as_tokens s) ''tok'' = Some t" "t = Token 3 ''tok'' 600 (PDict []) (Some example_origin) (UserCred c k l u) True"
    and s: "token_is_valid (as_store s) 0 t" "as_apps s ''b'' = new_app (Some example_origin)"
      "as_apps s ''c'' = new_app (Some example_origin)" "u_username (st_users (as_store s) u) = ''ann''"
      "as_otpw s = no_otpw" "as_level s = AA_LEVEL1"
    using example_token by auto
  have o: "ap_origin (as_apps s ''b'') = Some example_origin" "ap_origin (as_apps s ''c'') = Some example_origin"
    using s(2,3) by (simp_all add: new_app_def)
  have b: "token_lookup (example_login False) ''b'' ''tok'' s = (Inr t, s)" and c: "token_lookup (example_login False) ''c'' ''tok'' s = (Inr t, s)"
    using example_token_login [OF t s(1) _ s(4,5,6)] s(2,3) by simp_all
  obtain resp cr ctx s1 where f: "token_finish (example_login False) ''b'' t new_context s = (Inr (resp, Some cr), ctx, s1)"
    and ok: "pr_code resp = PAM_SUCCESS" and s1: "as_apps s1 = as_apps s" "as_otpw s1 = no_otpw" "st_users (as_store s1) = st_users (as_store s)"
    using example_token_finish [OF t(2) o(1) s(4,5), of new_context] by auto
  have "map_of (as_tokens s1) ''tok'' = None" using token_finish_success [OF f ok] t(2) by (simp add: delete_conv')
  moreover obtain resp' cr' where "fst (token_finish (example_login False) ''c'' t new_context (s1\<lparr>as_tokens := as_tokens s\<rparr>)) = Inr (resp', Some cr')"
      "pr_code resp' = PAM_SUCCESS"
    using example_token_finish [OF t(2), of "s1\<lparr>as_tokens := as_tokens s\<rparr>" "''c''" new_context] o(2) s(4) s1 by auto
  moreover have "fst (token_finish (example_login False) ''c'' t new_context s1) =
      fst (token_finish (example_login False) ''c'' t new_context (s1\<lparr>as_tokens := as_tokens s\<rparr>))"
    using single_use_token_race [OF b c f, of new_context None] by (simp add: new_context_def)
  moreover have "token_single_use t" using t(2) by simp
  ultimately show ?thesis using b c f ok by (intro exI [of _ s] exI [of _ t]) auto
qed

text \<open>
  C34: when a connection that is logged in authenticates again, its credentials are replaced even
  if PAM refuses to open the new session.
\<close>

theorem relogin_ignores_pam_answer:
  assumes "reach auth_init auth_step s" and "authenticated (as_apps s i)"
  shows "fst (manager_login now answer i c s) = None \<and>
    ap_credentials (as_apps (snd (manager_login now answer i c s)) i) = Some c"
proof -
  have "map_option ss_credentials (map_of (as_sessions s) i) = ap_credentials (as_apps s i)"
    using auth.reach_inv [OF assms(1)] by (simp add: auth_inv_def sessions_ok_def)
  with assms(2) show ?thesis
    by (auto simp: manager_login_def authenticated_def Let_def log_audit_message_def set_credentials_def upd_app_def split: prod.split option.split)
qed

theorem relogin_ignores_pam_answer_witness:
  "\<exists>s. authenticated (as_apps s ''a'') \<and>
     (let refuse = \<lparr>ans_resp = DEFAULT_LOGIN_FAIL, ans_login_at = 0, ans_session_uuid = None\<rparr>; c = UserCred 9 LoginPassword None 9
      in resp_code (fst (cred_login refuse c (as_store s))) \<noteq> PAM_SUCCESS \<and>
         ap_credentials (as_apps (snd (manager_login 1 refuse ''a'' c s)) ''a'') = Some c)"
proof -
  obtain s c where l: "login_ex (example_login False) ''a'' (PasswordData ''ann'' ''secret'' plain_options) (example_auth AA_LEVEL1) =
      (Inr (response AR_SUCCESS), None, s)" and c: "ap_credentials (as_apps s ''a'') = Some c"
    using example_login_password by blast
  have "reach auth_init auth_step s" using example_auth_reachable log_in [OF l] by (rule reach_step)
  moreover have a: "authenticated (as_apps s ''a'')" using c by (simp add: authenticated_def)
  ultimately show ?thesis
    using relogin_ignores_pam_answer [of s "''a''" 1 "\<lparr>ans_resp = DEFAULT_LOGIN_FAIL, ans_login_at = 0, ans_session_uuid = None\<rparr>"
      "UserCred 9 LoginPassword None 9"]
    by (auto simp: Let_def DEFAULT_LOGIN_FAIL_def)
qed

end
