(* ===== verification/Alert_Base.thy ===== *)
theory Alert_Base
  imports Prelude
begin

text \<open>
  Alert classes, alerts and schedules: \<^verbatim>\<open>middlewared/alert/base.py\<close> and
  \<^verbatim>\<open>middlewared/alert/schedule.py\<close>.

  The many alert classes of \<^verbatim>\<open>middlewared/alert/source\<close> are a table from names to their
  configuration and the methods they override, which is an argument of the operations. Points in
  time are seconds in UTC.
\<close>

section \<open>JSON\<close>

text \<open>
  \<open>json.dumps(v, sort_keys=True)\<close>; the printed form of a float is an argument.
\<close>

definition hex_digit :: "nat \<Rightarrow> char" where
  "hex_digit d = (if d < 10 then char_of (48 + d) else char_of (87 + d))"

definition json_char :: "char \<Rightarrow> string" where
  "json_char c =
     (let n = (of_char c :: nat) in
      if n = 34 then [char_of (92 :: nat), c]
      else if n = 92 then [c, c]
      else if n = 10 then [char_of (92 :: nat), CHR ''n'']
      else if n = 13 then [char_of (92 :: nat), CHR ''r'']
      else if n = 9 then [char_of (92 :: nat), CHR ''t'']
      else if n = 8 then [char_of (92 :: nat), CHR ''b'']
      else if n = 12 then [char_of (92 :: nat), CHR ''f'']
      else if n < 32 \<or> n > 126 then char_of (92 :: nat) # ''u00'' @ [hex_digit (n div 16), hex_digit (n mod 16)]
      else [c])"

definition json_str :: "string \<Rightarrow> string" where
  "json_str s = [char_of (34 :: nat)] @ concat (map json_char s) @ [char_of (34 :: nat)]"

fun json_dumps :: "(real \<Rightarrow> string) \<Rightarrow> pyval \<Rightarrow> string" where
  "json_dumps fr PNone = ''null''"
| "json_dumps fr (PBool b) = (if b then ''true'' else ''false'')"
| "json_dumps fr (PInt n) = (if n < 0 then ''-'' else []) @ py_str (nat \<bar>n\<bar>)"
| "json_dumps fr (PFloat r) = fr r"
| "json_dumps fr (PStr s) = json_str s"
| "json_dumps fr (PList vs) = ''['' @ py_join '', '' (map (json_dumps fr) vs) @ '']''"
| "json_dumps fr (PDict d) =
     ''{'' @ py_join '', '' (map (\<lambda>(k, s). json_str k @ '': '' @ s)
        (sort_key fst (map (\<lambda>(k, v). (k, json_dumps fr v)) d))) @ ''}''"

section \<open>Categories and levels\<close>

datatype AlertCategory =
    APPLICATIONS | AUDIT | CERTIFICATES | CLUSTERING | DIRECTORY_SERVICE | HA | HARDWARE | KMIP | PLUGINS | NETWORK
  | REPORTING | SECURITY | SHARING | STORAGE | SYSTEM | TASKS | TRUENAS_CONNECT | UPS

text \<open>The members in the order of the class, with the display names.\<close>

definition alert_category_names :: "(AlertCategory \<times> string) list" where
  "alert_category_names =
     [(APPLICATIONS, ''Applications''), (AUDIT, ''Audit''), (CERTIFICATES, ''Certificates''), (CLUSTERING, ''Clustering''),
      (DIRECTORY_SERVICE, ''Directory Service''), (HA, ''High-Availability''), (HARDWARE, ''Hardware''),
      (KMIP, ''Key Management Interoperability Protocol (KMIP)''), (PLUGINS, ''Plugins''), (NETWORK, ''Network''),
      (REPORTING, ''Reporting''), (SECURITY, ''Security''), (SHARING, ''Sharing''), (STORAGE, ''Storage''),
      (SYSTEM, ''System''), (TASKS, ''Tasks''), (TRUENAS_CONNECT, ''TrueNAS Connect Service''), (UPS, ''UPS'')]"

datatype AlertLevel = INFO | NOTICE | WARNING | ERROR | CRITICAL | ALERT | EMERGENCY

fun level_value :: "AlertLevel \<Rightarrow> nat" where
  "level_value INFO = 1"
| "level_value NOTICE = 2"
| "level_value WARNING = 3"
| "level_value ERROR = 4"
| "level_value CRITICAL = 5"
| "level_value ALERT = 6"
| "level_value EMERGENCY = 7"

section \<open>Alerts\<close>

text \<open>
  An alert. Its instance is given by the name of its class and its arguments. Fields that
  \<open>Alert.__init__\<close> leaves \<open>None\<close> until the service fills them in are optional.
\<close>

record alert =
  al_class :: string
  al_args :: pyval
  al_datetime :: "seconds option"
  al_last_occurrence :: "seconds option"
  al_node :: "string option"
  al_dismissed :: "bool option"
  al_mail :: "pyval option"
  al_uuid :: "string option"
  al_source :: "string option"
  al_key :: string
  al_text :: string

text \<open>
  The configuration of a class, its base classes and the methods it may override:
  \<open>key_from_args\<close>, and \<open>delete\<close>, \<open>load\<close> and \<open>dismiss\<close> on the alerts of the class.
\<close>

record alert_class =
  kl_category :: AlertCategory
  kl_level :: AlertLevel
  kl_title :: string
  kl_text :: "string option"
  kl_exclude_from_list :: bool
  kl_products :: "string list"
  kl_proactive_support :: bool
  kl_proactive_support_notify_gone :: bool
  kl_deleted_automatically :: bool
  kl_expires_after :: "seconds option"
  kl_keys :: "string list option"
  kl_one_shot :: bool
  kl_dismissable :: bool
  kl_key_from_args :: "pyval \<Rightarrow> pyval"
  kl_delete :: "(alert list \<Rightarrow> pyval \<Rightarrow> alert list option) option"
  kl_load :: "alert list \<Rightarrow> alert list"
  kl_dismiss :: "alert list \<Rightarrow> alert \<Rightarrow> alert list"

type_synonym alert_classes = "(string, alert_class) py_dict"

text \<open>\<open>AlertClass.format\<close>; Python's \<open>%\<close> operator on the text is an argument.\<close>

definition class_format :: "(string \<Rightarrow> pyval \<Rightarrow> string option) \<Rightarrow> alert_class \<Rightarrow> pyval \<Rightarrow> string option" where
  "class_format percent k args =
     (case kl_text k of
        None \<Rightarrow> Some (kl_title k)
      | Some t \<Rightarrow> if args = PNone then Some t else percent t args)"

text \<open>\<open>Alert.formatted\<close>: any exception of the formatting gives the plain text.\<close>

definition formatted :: "(string \<Rightarrow> pyval \<Rightarrow> string option) \<Rightarrow> alert_classes \<Rightarrow> alert \<Rightarrow> string" where
  "formatted percent classes a =
     (case Option.bind (map_of classes (al_class a)) (\<lambda>k. class_format percent k (al_args a)) of
        None \<Rightarrow> al_text a
      | Some s \<Rightarrow> s)"

definition opt_or :: "'a option \<Rightarrow> 'a option \<Rightarrow> 'a option" where
  "opt_or x y = (case x of None \<Rightarrow> y | Some _ \<Rightarrow> x)"

text \<open>\<open>a or b\<close> on optional strings: the empty string counts as missing.\<close>

definition str_or :: "string option \<Rightarrow> string \<Rightarrow> string" where
  "str_or x y = (case x of None \<Rightarrow> y | Some s \<Rightarrow> if s = [] then y else s)"

text \<open>\<open>Alert.__init__\<close> with the keyword arguments the code uses.\<close>

record alert_init =
  ai_datetime :: "seconds option"
  ai_last_occurrence :: "seconds option"
  ai_node :: "string option"
  ai_dismissed :: "bool option"
  ai_mail :: "pyval option"
  ai_uuid :: "string option"
  ai_source :: "string option"
  ai_key :: "string option"
  ai_text :: "string option"

definition no_init :: alert_init where
  "no_init = \<lparr>ai_datetime = None, ai_last_occurrence = None, ai_node = None, ai_dismissed = None, ai_mail = None,
     ai_uuid = None, ai_source = None, ai_key = None, ai_text = None\<rparr>"

definition new_alert :: "(real \<Rightarrow> string) \<Rightarrow> alert_class \<Rightarrow> string \<Rightarrow> pyval \<Rightarrow> alert_init \<Rightarrow> alert" where
  "new_alert fr k name args i =
     \<lparr>al_class = name, al_args = args, al_datetime = ai_datetime i,
      al_last_occurrence = opt_or (ai_last_occurrence i) (ai_datetime i), al_node = ai_node i,
      al_dismissed = ai_dismissed i, al_mail = ai_mail i, al_uuid = ai_uuid i, al_source = ai_source i,
      al_key = (case ai_key i of None \<Rightarrow> json_dumps fr (kl_key_from_args k args) | Some s \<Rightarrow> s),
      al_text = str_or (ai_text i) (str_or (kl_text k) (kl_title k))\<rparr>"

section \<open>One-shot alerts\<close>

text \<open>
  \<open>getattr(alert.instance, k)\<close> and \<open>query[k]\<close>: a field of the arguments; \<open>None\<close> is the
  exception for a missing one.
\<close>

definition get_field :: "pyval \<Rightarrow> string \<Rightarrow> pyval option" where
  "get_field v k = (case v of PDict d \<Rightarrow> map_of d k | _ \<Rightarrow> None)"

fun keys_differ :: "pyval \<Rightarrow> pyval \<Rightarrow> string list \<Rightarrow> bool option" where
  "keys_differ args query [] = Some False"
| "keys_differ args query (k # ks) =
     (case (get_field args k, get_field query k) of
        (Some a, Some b) \<Rightarrow> if a \<noteq> b then Some True else keys_differ args query ks
      | _ \<Rightarrow> None)"

fun filter_option :: "('a \<Rightarrow> bool option) \<Rightarrow> 'a list \<Rightarrow> 'a list option" where
  "filter_option p [] = Some []"
| "filter_option p (x # xs) =
     (case p x of
        None \<Rightarrow> None
      | Some b \<Rightarrow> map_option (\<lambda>ys. if b then x # ys else ys) (filter_option p xs))"

text \<open>\<open>OneShotAlertClass.delete\<close>: the alerts that stay.\<close>

definition one_shot_delete :: "alert_class \<Rightarrow> alert list \<Rightarrow> pyval \<Rightarrow> alert list option" where
  "one_shot_delete k alerts query =
     (case kl_keys k of
        Some ks \<Rightarrow>
          if query = PNone then Some []
          else filter_option (\<lambda>a. keys_differ (al_args a) query ks) alerts
      | None \<Rightarrow> Some (filter (\<lambda>a. kl_key_from_args k (al_args a) \<noteq> query) alerts))"

definition class_delete :: "alert_class \<Rightarrow> alert list \<Rightarrow> pyval \<Rightarrow> alert list option" where
  "class_delete k = (case kl_delete k of None \<Rightarrow> one_shot_delete k | Some f \<Rightarrow> f)"

section \<open>Schedules\<close>

text \<open>
  The time of the last run; \<open>None\<close> is \<open>datetime.min\<close>, the value for a source that never ran.
  The offset of the local time zone is an argument.
\<close>

datatype schedule = IntervalSchedule seconds | CrontabSchedule int

definition hour_of :: "seconds \<Rightarrow> int" where
  "hour_of t = \<lfloor>t / 3600\<rfloor> mod 24"

definition date_of :: "seconds \<Rightarrow> int" where
  "date_of t = \<lfloor>t / 86400\<rfloor>"

fun should_run :: "(seconds \<Rightarrow> seconds) \<Rightarrow> schedule \<Rightarrow> seconds \<Rightarrow> seconds option \<Rightarrow> bool" where
  "should_run utcoffset (IntervalSchedule interval) now last_run \<longleftrightarrow>
     (case last_run of None \<Rightarrow> True | Some t \<Rightarrow> now \<ge> t + interval)"
| "should_run utcoffset (CrontabSchedule hour) now last_run \<longleftrightarrow>
     (case last_run of
        None \<Rightarrow> True
      | Some t \<Rightarrow>
          hour_of (now + utcoffset now) = hour \<and> date_of (t + utcoffset t) \<noteq> date_of (now + utcoffset now))"

section \<open>Messages\<close>

text \<open>\<open>format_alert\<close> and \<open>format_alerts\<close>; \<open>None\<close> is the \<open>KeyError\<close> of a node that is not in the map.\<close>

definition format_alert :: "(alert \<Rightarrow> string) \<Rightarrow> (string \<times> string) list option \<Rightarrow> alert \<Rightarrow> string option" where
  "format_alert fmt node_map a =
     (case node_map of
        None \<Rightarrow> Some (fmt a)
      | Some m \<Rightarrow>
          if m = [] then Some (fmt a)
          else map_option (\<lambda>n. n @ '' - '' @ fmt a) (Option.bind (al_node a) (map_of m)))"

definition br :: string where
  "br = ''<br><br>''"

definition newline :: string where
  "newline = [char_of (10 :: nat)]"

fun items :: "(alert \<Rightarrow> string option) \<Rightarrow> alert list \<Rightarrow> string option" where
  "items f [] = Some []"
| "items f (a # as) =
     (case (f a, items f as) of
        (Some s, Some t) \<Rightarrow> Some (''<li>'' @ s @ ''</li>'' @ newline @ t)
      | _ \<Rightarrow> None)"

definition format_alerts ::
  "(alert \<Rightarrow> string) \<Rightarrow> string \<Rightarrow> string \<Rightarrow> (string \<times> string) list option \<Rightarrow> alert list \<Rightarrow> alert list \<Rightarrow> alert list \<Rightarrow> string option" where
  "format_alerts fmt product hostname node_map alerts gone new =
     (let start = product @ '' @ '' @ hostname @ br;
          part = (\<lambda>title tail xs. if xs = [] then Some []
                    else map_option (\<lambda>s. title @ '':'' @ newline @ ''<ul>'' @ s @ ''</ul>'' @ tail) (items (format_alert fmt node_map) xs))
      in if length alerts = 1 \<and> gone = [] \<and> length new = 1 \<and> al_class (hd new) = ''Test'' then Some (start @ ''This is a test alert'')
         else (case (part (if length gone = 1 then ''New alert'' else ''New alerts'') [] new,
                     part (if length gone = 1 then ''The following alert has been cleared'' else ''These alerts have been cleared'') newline gone,
                     part ''Current alerts'' newline alerts) of
                 (Some a, Some b, Some c) \<Rightarrow> Some (start @ a @ b @ c)
               | _ \<Rightarrow> None))"

end
