(* ===== verification/Alerts.thy ===== *)
theory Alerts
  imports Alert_Base Service_Exception "HOL-Library.Product_Lexorder"
begin

text \<open>
  The alert service, \<^verbatim>\<open>middlewared/plugins/alert/alert.py\<close>.

  Alerts are objects that the list of alerts and the policies share: dismissing an alert through
  the list is seen by a policy that holds the same object, and not by one that holds an older
  object for the same alert. So the state has a heap of alerts, and lists and dictionaries hold
  references.

  The operations are atomic steps; each reads the clock once. What they ask other services is
  collected in an environment. The jobs \<open>send_alerts\<close> and \<open>oneshot_create\<close> that an operation
  submits under the lock it holds run later: they are noted in the state.
\<close>

section \<open>The state\<close>

type_synonym aref = nat

datatype pkey = AtTime seconds | InHour int | OnDay int

datatype policy_kind = IMMEDIATELY | HOURLY | DAILY | NEVER

text \<open>\<open>AlertPolicy\<close>; the key function is given by its kind, \<open>None\<close> is Python's \<open>None\<close>.\<close>

record alert_policy =
  po_kind :: policy_kind
  po_last_key_value :: "pkey option"
  po_last_key_value_alerts :: "(string option, aref) py_dict"

record alert_source_desc =
  so_products :: "string list"
  so_schedule :: schedule
  so_failover_related :: bool
  so_run_on_backup_node :: bool
  so_require_stable_peer :: bool

record source_lock =
  sl_source_name :: string
  sl_expires_at :: seconds

record run_times =
  rt_last :: "seconds list"
  rt_max :: seconds
  rt_total_count :: nat
  rt_total_time :: seconds

datatype alert_event = AlertAdded string | AlertChanged string | AlertRemoved string

text \<open>A call of \<open>send\<close> of an alert service: the alerts as they were at that moment.\<close>

record notification =
  no_service :: string
  no_policy :: policy_kind
  no_alerts :: "alert list"
  no_gone :: "alert list"
  no_new :: "alert list"

record alert_state =
  av_heap :: "aref \<Rightarrow> alert"
  av_next :: nat
  av_next_uuid :: nat
  av_node :: string
  av_alerts :: "aref list"
  av_source_errors :: "string set"
  av_last_run :: "(string, seconds) py_dict"
  av_policies :: "alert_policy list"
  av_blocked :: "string \<Rightarrow> string set"
  av_locks :: "(string, source_lock) py_dict"
  av_failover_until :: seconds
  av_run_times :: "string \<Rightarrow> run_times"
  av_send_on_ready :: bool
  av_send_submitted :: bool
  av_created :: "(string \<times> pyval) list"
  av_db :: "alert list"
  av_events :: "alert_event list"
  av_sent :: "notification list"
  av_mails :: "pyval list"
  av_tickets :: "string list"

section \<open>The environment\<close>

record class_setting =
  cs_level :: "AlertLevel option"
  cs_policy :: "policy_kind option"
  cs_proactive_support :: "bool option"

datatype check_result = CheckUnavailable | CheckFailed string | Checked "alert list"

record remote_alert =
  ra_class :: string
  ra_args :: pyval
  ra_datetime :: "seconds option"
  ra_last_occurrence :: "seconds option"
  ra_dismissed :: "bool option"
  ra_mail :: "pyval option"
  ra_source :: string
  ra_key :: string

datatype remote_result = RemoteAlerts "remote_alert list" | RemoteCallError int string | RemoteReserveFD | RemoteFailed string

record system_status =
  sy_ready :: bool
  sy_licensed :: bool
  sy_failover_status :: string
  sy_in_progress :: bool

text \<open>
  \<open>en_uuid n\<close> is the n-th string \<open>uuid.uuid4()\<close> returns. The answers of the other node are
  \<open>None\<close> when the call raises. The error number \<open>EALERTCHECKERUNAVAILABLE\<close> is defined by
  the client library.
\<close>

record alert_env =
  en_now :: seconds
  en_monotonic :: seconds
  en_uuid :: "nat \<Rightarrow> string"
  en_float_repr :: "real \<Rightarrow> string"
  en_percent :: "string \<Rightarrow> pyval \<Rightarrow> string option"
  en_html2text :: "string \<Rightarrow> string"
  en_utcoffset :: "seconds \<Rightarrow> seconds"
  en_classes :: alert_classes
  en_settings :: "string \<Rightarrow> class_setting"
  en_product_type :: string
  en_sources :: "(string, alert_source_desc) py_dict"
  en_services :: "(string \<times> AlertLevel) list"
  en_EALERTCHECKERUNAVAILABLE :: int
  en_check :: "string \<Rightarrow> check_result"
  en_run_time :: "string \<Rightarrow> seconds"
  en_remote :: "string \<Rightarrow> remote_result"
  en_before :: system_status
  en_after :: system_status
  en_failover_node :: string
  en_enterprise :: bool
  en_same_version :: "bool option"
  en_remote_state :: "string option"
  en_remote_status :: "string option"
  en_remote_uptime :: "int option"
  en_support :: bool
  en_support_fields :: "(string \<times> string) list"
  en_serial :: string
  en_ticket_error :: "string option"

datatype alert_error = AlertCallError string int | AlertKeyError string | AlertException

section \<open>Policies\<close>

definition policy_key :: "policy_kind \<Rightarrow> seconds \<Rightarrow> pkey option" where
  "policy_key k now =
     (case k of
        IMMEDIATELY \<Rightarrow> Some (AtTime now)
      | HOURLY \<Rightarrow> Some (InHour \<lfloor>now / 3600\<rfloor>)
      | DAILY \<Rightarrow> Some (OnDay \<lfloor>now / 86400\<rfloor>)
      | NEVER \<Rightarrow> None)"

definition new_policy :: "policy_kind \<Rightarrow> alert_policy" where
  "new_policy k = \<lparr>po_kind = k, po_last_key_value = None, po_last_key_value_alerts = []\<rparr>"

fun by_uuid :: "(aref \<Rightarrow> alert) \<Rightarrow> aref list \<Rightarrow> (string option, aref) py_dict \<Rightarrow> (string option, aref) py_dict" where
  "by_uuid h [] d = d"
| "by_uuid h (r # rs) d = by_uuid h rs (AList.update (al_uuid (h r)) r d)"

text \<open>\<open>receive_alerts\<close>: the alerts that are gone and the new ones since the key last changed.\<close>

definition receive_alerts ::
  "(aref \<Rightarrow> alert) \<Rightarrow> seconds \<Rightarrow> aref list \<Rightarrow> alert_policy \<Rightarrow> (aref list \<times> aref list) \<times> alert_policy" where
  "receive_alerts h now alerts p =
     (let alerts_by_uuid = by_uuid h alerts [];
          last = po_last_key_value_alerts p;
          key = policy_key (po_kind p) now
      in if key \<noteq> po_last_key_value p then
           ((filter (\<lambda>r. map_of alerts_by_uuid (al_uuid (h r)) = None) (dict_values last),
             filter (\<lambda>r. map_of last (al_uuid (h r)) = None) (dict_values alerts_by_uuid)),
            p\<lparr>po_last_key_value := key, po_last_key_value_alerts := alerts_by_uuid\<rparr>)
         else (([], []), p))"

definition delete_alert :: "string option \<Rightarrow> alert_policy \<Rightarrow> alert_policy" where
  "delete_alert u p = p\<lparr>po_last_key_value_alerts := AList.delete u (po_last_key_value_alerts p)\<rparr>"

section \<open>Classes and settings\<close>

definition class_of :: "alert_env \<Rightarrow> alert \<Rightarrow> alert_class option" where
  "class_of env a = map_of (en_classes env) (al_class a)"

text \<open>
  The alerts the service handles have a class of the table (see \<open>new_alert\<close>, \<open>initialize\<close> and
  the remote alerts), so the defaults of the following are not used for them.
\<close>

definition class_level :: "alert_env \<Rightarrow> alert \<Rightarrow> AlertLevel" where
  "class_level env a = (case class_of env a of None \<Rightarrow> CRITICAL | Some k \<Rightarrow> kl_level k)"

definition class_products :: "alert_env \<Rightarrow> alert \<Rightarrow> string list" where
  "class_products env a = (case class_of env a of None \<Rightarrow> [] | Some k \<Rightarrow> kl_products k)"

definition get_alert_level :: "alert_env \<Rightarrow> alert \<Rightarrow> AlertLevel" where
  "get_alert_level env a =
     (case cs_level (en_settings env (al_class a)) of None \<Rightarrow> class_level env a | Some l \<Rightarrow> l)"

definition get_alert_policy :: "alert_env \<Rightarrow> alert \<Rightarrow> policy_kind" where
  "get_alert_policy env a =
     (case cs_policy (en_settings env (al_class a)) of None \<Rightarrow> IMMEDIATELY | Some p \<Rightarrow> p)"

definition should_show_alert :: "alert_env \<Rightarrow> alert \<Rightarrow> bool" where
  "should_show_alert env a \<longleftrightarrow>
     en_product_type env \<in> set (class_products env a) \<and> cs_policy (en_settings env (al_class a)) \<noteq> Some NEVER"

text \<open>\<open>s.title()\<close> on a word in capital letters, such as the names of failover states.\<close>

definition py_lower_char :: "char \<Rightarrow> char" where
  "py_lower_char c = (let n = (of_char c :: nat) in if 65 \<le> n \<and> n \<le> 90 then char_of (n + 32) else c)"

definition py_title :: "string \<Rightarrow> string" where
  "py_title s = (case s of [] \<Rightarrow> [] | c # cs \<Rightarrow> c # map py_lower_char cs)"

text \<open>\<open>repr(s)\<close> of a name, which has neither quotes nor backslashes.\<close>

definition py_repr :: "string \<Rightarrow> string" where
  "py_repr s = [char_of (39 :: nat)] @ s @ [char_of (39 :: nat)]"

section \<open>Built-in classes\<close>

text \<open>The classes of the alerts that the service itself creates.\<close>

definition both_products :: "string list" where
  "both_products = [''COMMUNITY_EDITION'', ''ENTERPRISE'']"

definition AlertSourceRunFailedAlert :: alert_class where
  "AlertSourceRunFailedAlert =
     \<lparr>kl_category = SYSTEM, kl_level = CRITICAL, kl_title = ''Alert Check Failed'',
      kl_text = Some ''Failed to check for alert %(source_name)s: %(traceback)s'', kl_exclude_from_list = True,
      kl_products = both_products, kl_proactive_support = False, kl_proactive_support_notify_gone = False,
      kl_deleted_automatically = True, kl_expires_after = None, kl_keys = None, kl_one_shot = False, kl_dismissable = False,
      kl_key_from_args = (\<lambda>v. v), kl_delete = None, kl_load = (\<lambda>as. as), kl_dismiss = (\<lambda>as _. as)\<rparr>"

definition AlertSourceRunFailedOnBackupNodeAlert :: alert_class where
  "AlertSourceRunFailedOnBackupNodeAlert =
     AlertSourceRunFailedAlert\<lparr>kl_title := ''Alert Check Failed (Standby Controller)'',
       kl_text := Some ''Failed to check for alert %(source_name)s on standby controller: %(traceback)s''\<rparr>"

definition failed_args :: "string \<Rightarrow> string \<Rightarrow> pyval" where
  "failed_args name traceback = PDict [(''source_name'', PStr name), (''traceback'', PStr traceback)]"

section \<open>Objects\<close>

definition upd_alert :: "aref \<Rightarrow> (alert \<Rightarrow> alert) \<Rightarrow> alert_state \<Rightarrow> alert_state" where
  "upd_alert r f s = s\<lparr>av_heap := (av_heap s)(r := f (av_heap s r))\<rparr>"

fun alloc_all :: "alert list \<Rightarrow> alert_state \<Rightarrow> aref list \<times> alert_state" where
  "alloc_all [] s = ([], s)"
| "alloc_all (a # as) s =
     (let r = av_next s;
          (rs, s1) = alloc_all as (s\<lparr>av_heap := (av_heap s)(r := a), av_next := Suc r\<rparr>)
      in (r # rs, s1))"

text \<open>\<open>xs.remove(x)\<close> compares alerts by their fields.\<close>

fun remove_equal :: "(aref \<Rightarrow> alert) \<Rightarrow> aref \<Rightarrow> aref list \<Rightarrow> aref list option" where
  "remove_equal h r [] = None"
| "remove_equal h r (q # qs) = (if h q = h r then Some qs else map_option (Cons q) (remove_equal h r qs))"

definition send_event :: "alert_event \<Rightarrow> alert_state \<Rightarrow> alert_state" where
  "send_event e s = s\<lparr>av_events := av_events s @ [e]\<rparr>"

definition uuid_str :: "alert \<Rightarrow> string" where
  "uuid_str a = (case al_uuid a of None \<Rightarrow> ''None'' | Some u \<Rightarrow> u)"

definition submit_send :: "alert_state \<Rightarrow> alert_state" where
  "submit_send s = s\<lparr>av_send_submitted := True\<rparr>"

section \<open>Dismissing and restoring\<close>

definition alert_by_uuid :: "string \<Rightarrow> alert_state \<Rightarrow> aref option" where
  "alert_by_uuid u s = find (\<lambda>r. al_uuid (av_heap s r) = Some u) (av_alerts s)"

definition send_alert_changed_event :: "alert_env \<Rightarrow> aref \<Rightarrow> alert_state \<Rightarrow> alert_state" where
  "send_alert_changed_event env r s =
     (if should_show_alert env (av_heap s r) then send_event (AlertChanged (uuid_str (av_heap s r))) s else s)"

definition delete_on_dismiss :: "aref \<Rightarrow> alert_state \<Rightarrow> alert_state" where
  "delete_on_dismiss r s =
     (let a = av_heap s r;
          left = remove_equal (av_heap s) r (av_alerts s);
          s1 = (case left of None \<Rightarrow> s | Some rs \<Rightarrow> s\<lparr>av_alerts := rs\<rparr>);
          s2 = s1\<lparr>av_policies := map (delete_alert (al_uuid a)) (av_policies s1)\<rparr>
      in if left \<noteq> None then send_event (AlertRemoved (uuid_str a)) s2 else s2)"

fun delete_missing :: "alert list \<Rightarrow> aref list \<Rightarrow> alert_state \<Rightarrow> alert_state" where
  "delete_missing left [] s = s"
| "delete_missing left (r # rs) s =
     delete_missing left rs (if av_heap s r \<notin> set left then delete_on_dismiss r s else s)"

definition dismiss :: "alert_env \<Rightarrow> string \<Rightarrow> alert_state \<Rightarrow> alert_state" where
  "dismiss env u s =
     (case alert_by_uuid u s of
        None \<Rightarrow> s
      | Some r \<Rightarrow>
          (let a = av_heap s r;
               plain = send_alert_changed_event env r (upd_alert r (\<lambda>x. x\<lparr>al_dismissed := Some True\<rparr>) s)
           in case class_of env a of
                None \<Rightarrow> plain
              | Some k \<Rightarrow>
                  if kl_dismissable k then
                    (let related = filter (\<lambda>q. al_node (av_heap s q) = al_node a \<and> al_class (av_heap s q) = al_class a) (av_alerts s)
                     in delete_missing (kl_dismiss k (map (av_heap s) related) a) related s)
                  else if kl_one_shot k \<and> \<not> kl_deleted_automatically k then delete_on_dismiss r s
                  else plain))"

definition restore :: "alert_env \<Rightarrow> string \<Rightarrow> alert_state \<Rightarrow> alert_state" where
  "restore env u s =
     (case alert_by_uuid u s of
        None \<Rightarrow> s
      | Some r \<Rightarrow> send_alert_changed_event env r (upd_alert r (\<lambda>x. x\<lparr>al_dismissed := Some False\<rparr>) s))"

section \<open>Listing\<close>

definition node_map :: "alert_env \<Rightarrow> (string \<times> string) list" where
  "node_map env =
     (let st = en_before env; node = en_failover_node env
      in if \<not> sy_licensed st then [(''A'', ''Controller A''), (''B'', ''Controller B'')]
         else if sy_failover_status st = ''MASTER'' then
           if node = ''A'' then [(''A'', ''Active Controller (A)''), (''B'', ''Standby Controller (B)'')]
           else [(''A'', ''Standby Controller (A)''), (''B'', ''Active Controller (B)'')]
         else AList.update node (py_title (sy_failover_status st) @ '' Controller ('' @ node @ '')'')
                [(''A'', ''Controller A''), (''B'', ''Controller B'')])"

record alert_entry =
  ae_id :: string
  ae_uuid :: string
  ae_source :: "string option"
  ae_klass :: string
  ae_args :: pyval
  ae_node_name :: string
  ae_key :: string
  ae_datetime :: "seconds option"
  ae_last_occurrence :: "seconds option"
  ae_dismissed :: "bool option"
  ae_mail :: "pyval option"
  ae_text :: string
  ae_level :: AlertLevel
  ae_formatted :: string
  ae_one_shot :: bool

text \<open>\<open>AlertSerializer.serialize\<close>; \<open>None\<close> is the \<open>KeyError\<close> of an unknown node.\<close>

definition serialize :: "alert_env \<Rightarrow> alert \<Rightarrow> alert_entry option" where
  "serialize env a =
     map_option (\<lambda>n.
       \<lparr>ae_id = uuid_str a, ae_uuid = uuid_str a, ae_source = al_source a, ae_klass = al_class a, ae_args = al_args a, ae_node_name = n,
        ae_key = al_key a, ae_datetime = al_datetime a, ae_last_occurrence = al_last_occurrence a, ae_dismissed = al_dismissed a,
        ae_mail = al_mail a, ae_text = al_text a, ae_level = get_alert_level env a,
        ae_formatted = formatted (en_percent env) (en_classes env) a,
        ae_one_shot = (case class_of env a of None \<Rightarrow> False | Some k \<Rightarrow> kl_one_shot k \<and> \<not> kl_deleted_automatically k)\<rparr>)
       (Option.bind (al_node a) (map_of (node_map env)))"

definition class_title :: "alert_env \<Rightarrow> alert \<Rightarrow> string" where
  "class_title env a = (case class_of env a of None \<Rightarrow> [] | Some k \<Rightarrow> kl_title k)"

text \<open>\<open>alert.list\<close>: the shown alerts, by level, title and time.\<close>

definition list_alerts :: "alert_env \<Rightarrow> alert_state \<Rightarrow> alert_entry option list" where
  "list_alerts env s =
     map (serialize env)
       (filter (should_show_alert env)
         (sort_key (\<lambda>a. (- int (level_value (get_alert_level env a)), class_title env a, case al_datetime a of None \<Rightarrow> 0 | Some t \<Rightarrow> t))
           (map (av_heap s) (av_alerts s))))"

record class_entry =
  ce_id :: string
  ce_title :: string
  ce_level :: AlertLevel
  ce_product_types :: "string list"
  ce_proactive_support :: bool

definition class_entry_of :: "string \<times> alert_class \<Rightarrow> class_entry" where
  "class_entry_of nk =
     (case nk of (n, k) \<Rightarrow>
        \<lparr>ce_id = n, ce_title = kl_title k, ce_level = kl_level k, ce_product_types = kl_products k,
         ce_proactive_support = kl_proactive_support k\<rparr>)"

definition list_categories :: "alert_env \<Rightarrow> bool \<Rightarrow> bool \<Rightarrow> (AlertCategory \<times> string \<times> class_entry list) list" where
  "list_categories env include_all_products include_hidden =
     (let classes = filter (\<lambda>(n, k). (include_all_products \<or> en_product_type env \<in> set (kl_products k)) \<and>
                                    (include_hidden \<or> \<not> kl_exclude_from_list k)) (en_classes env)
      in map (\<lambda>(c, title). (c, title, sort_key ce_title (map class_entry_of (filter (\<lambda>(n, k). kl_category k = c) classes))))
           (filter (\<lambda>(c, _). list_ex (\<lambda>(n, k). kl_category k = c) classes) alert_category_names))"

section \<open>Running the sources\<close>

definition identity :: "alert \<Rightarrow> string option \<times> string option \<times> string \<times> string" where
  "identity a = (al_node a, al_source a, al_class a, al_key a)"

text \<open>
  \<open>__handle_alert\<close>: an alert that is there already keeps its uuid, its first time and whether
  it is dismissed. (A time with a zone is converted to UTC, which changes nothing here.)
\<close>

definition handle_alert :: "alert_env \<Rightarrow> aref \<Rightarrow> alert_state \<Rightarrow> alert_state" where
  "handle_alert env r s =
     (let a = av_heap s r
      in case find (\<lambda>q. identity (av_heap s q) = identity a) (av_alerts s) of
           None \<Rightarrow>
             upd_alert r (\<lambda>x. x\<lparr>al_uuid := Some (en_uuid env (av_next_uuid s)),
                 al_datetime := opt_or (al_datetime x) (Some (en_now env)), al_last_occurrence := Some (en_now env),
                 al_dismissed := Some False\<rparr>)
               (s\<lparr>av_next_uuid := Suc (av_next_uuid s)\<rparr>)
         | Some q \<Rightarrow>
             (let e = av_heap s q
              in upd_alert r (\<lambda>x. x\<lparr>al_uuid := al_uuid e, al_datetime := al_datetime e,
                   al_last_occurrence := Some (en_now env), al_dismissed := al_dismissed e\<rparr>) s))"

fun unique_keys :: "string set \<Rightarrow> alert list \<Rightarrow> alert list" where
  "unique_keys ks [] = []"
| "unique_keys ks (a # as) =
     (if al_key a \<in> ks then unique_keys ks as else a # unique_keys (insert (al_key a) ks) as)"

text \<open>
  \<open>__run_source\<close>: \<open>None\<close> is the exception \<open>UnavailableException\<close>. The statistics are
  updated in all cases. A new object is made for each alert the source returns.
\<close>

definition record_run :: "alert_env \<Rightarrow> string \<Rightarrow> alert_state \<Rightarrow> alert_state" where
  "record_run env name s =
     (let t = en_run_time env name; v = av_run_times s name
      in s\<lparr>av_run_times := (av_run_times s)(name :=
           \<lparr>rt_last = rev (take 9 (rev (rt_last v))) @ [t], rt_max = max (rt_max v) t,
            rt_total_count = Suc (rt_total_count v), rt_total_time = rt_total_time v + t\<rparr>)\<rparr>)"

definition source_result :: "alert_env \<Rightarrow> string \<Rightarrow> alert list option" where
  "source_result env name =
     map_option (\<lambda>as. map (\<lambda>a. a\<lparr>al_source := Some name\<rparr>) (unique_keys {} as))
       (case en_check env name of
          CheckUnavailable \<Rightarrow> None
        | CheckFailed e \<Rightarrow> Some [new_alert (en_float_repr env) AlertSourceRunFailedAlert ''AlertSourceRunFailed'' (failed_args name e) no_init]
        | Checked as \<Rightarrow> Some as)"

definition run_source :: "alert_env \<Rightarrow> string \<Rightarrow> alert_state \<Rightarrow> aref list option \<times> alert_state" where
  "run_source env name s =
     (let s1 = record_run env name s;
          s2 = s1\<lparr>av_source_errors :=
            (case en_check env name of
               CheckUnavailable \<Rightarrow> av_source_errors s1
             | CheckFailed _ \<Rightarrow> insert name (av_source_errors s1)
             | Checked _ \<Rightarrow> av_source_errors s1 - {name})\<rparr>
      in case source_result env name of
           None \<Rightarrow> (None, s2)
         | Some as \<Rightarrow> (case alloc_all as s2 of (rs, s3) \<Rightarrow> (Some rs, s3)))"

definition sources_stats :: "string list \<Rightarrow> alert_state \<Rightarrow> (string \<times> seconds \<times> run_times) list" where
  "sources_stats names s =
     map (\<lambda>n. let v = av_run_times s n in (n, if rt_total_count v \<noteq> 0 then rt_total_time v / rt_total_count v else 0, v)) (sort names)"

text \<open>\<open>errno\<close> values of \<open>NETWORK_ERRORS\<close>.\<close>

definition NETWORK_ERRORS :: "int list" where
  "NETWORK_ERRORS = [110, 103, 111, 104, 112, 113]"

text \<open>The alerts of the other node: objects built from what it sends.\<close>

definition remote_failed :: "alert_env \<Rightarrow> string \<Rightarrow> string \<Rightarrow> alert list" where
  "remote_failed env name e =
     [new_alert (en_float_repr env) AlertSourceRunFailedOnBackupNodeAlert ''AlertSourceRunFailedOnBackupNode'' (failed_args name e)
        (no_init\<lparr>ai_source := Some name\<rparr>)]"

fun remote_alerts :: "alert_env \<Rightarrow> remote_alert list \<Rightarrow> string + alert list" where
  "remote_alerts env [] = Inr []"
| "remote_alerts env (x # xs) =
     (case map_of (en_classes env) (ra_class x) of
        None \<Rightarrow> Inl (py_repr (ra_class x))
      | Some k \<Rightarrow>
          map_sum id (\<lambda>as. new_alert (en_float_repr env) k (ra_class x) (ra_args x)
             (no_init\<lparr>ai_datetime := ra_datetime x, ai_last_occurrence := ra_last_occurrence x, ai_dismissed := ra_dismissed x,
                ai_mail := ra_mail x, ai_source := Some (ra_source x), ai_key := Some (ra_key x)\<rparr>) # as)
            (remote_alerts env xs))"

definition run_other_node_alert_source :: "alert_env \<Rightarrow> string \<Rightarrow> alert list" where
  "run_other_node_alert_source env name =
     (case en_remote env name of
        RemoteAlerts xs \<Rightarrow> (case remote_alerts env xs of Inl e \<Rightarrow> remote_failed env name e | Inr as \<Rightarrow> as)
      | RemoteCallError n e \<Rightarrow> if n \<in> set NETWORK_ERRORS \<or> n = en_EALERTCHECKERUNAVAILABLE env then [] else remote_failed env name e
      | RemoteReserveFD \<Rightarrow> []
      | RemoteFailed e \<Rightarrow> remote_failed env name e)"

section \<open>Failover\<close>

definition should_run_or_send_alerts :: "system_status \<Rightarrow> bool" where
  "should_run_or_send_alerts st \<longleftrightarrow>
     sy_ready st \<and> \<not> (sy_licensed st \<and> (sy_failover_status st = ''BACKUP'' \<or> sy_in_progress st))"

record AlertFailoverInfo =
  fi_this_node :: string
  fi_other_node :: string
  fi_run_on_backup_node :: bool
  fi_run_failover_related :: bool

definition FAILOVER_ALERTS_BACKOFF_SECS :: int where
  "FAILOVER_ALERTS_BACKOFF_SECS = 900"

text \<open>A check of the other node that raises leaves the decision as it is.\<close>

definition recheck :: "bool option \<Rightarrow> bool \<Rightarrow> bool" where
  "recheck answer b = (if b then (case answer of None \<Rightarrow> True | Some x \<Rightarrow> x) else False)"

definition get_failover_info :: "alert_env \<Rightarrow> alert_state \<Rightarrow> AlertFailoverInfo" where
  "get_failover_info env s =
     (if \<not> sy_licensed (en_before env) then
        \<lparr>fi_this_node = ''A'', fi_other_node = ''B'', fi_run_on_backup_node = False, fi_run_failover_related = False\<rparr>
      else
        (let a = (en_failover_node env = ''A'');
             related = en_monotonic env > av_failover_until s;
             backup = (if \<not> related then False
               else recheck (map_option (\<lambda>u. u > FAILOVER_ALERTS_BACKOFF_SECS) (en_remote_uptime env))
                 (recheck (map_option (\<lambda>x. x = ''BACKUP'') (en_remote_status env))
                   (recheck (map_option (\<lambda>x. x = ''READY'') (en_remote_state env))
                     (en_same_version env = Some True))))
         in \<lparr>fi_this_node = (if a then ''A'' else ''B''), fi_other_node = (if a then ''B'' else ''A''),
             fi_run_on_backup_node = backup, fi_run_failover_related = related\<rparr>))"

definition block_failover_alerts :: "alert_env \<Rightarrow> alert_state \<Rightarrow> alert_state" where
  "block_failover_alerts env s = s\<lparr>av_failover_until := en_monotonic env + of_int FAILOVER_ALERTS_BACKOFF_SECS\<rparr>"

section \<open>Blocked sources\<close>

definition block_source :: "alert_env \<Rightarrow> string \<Rightarrow> seconds \<Rightarrow> alert_state \<Rightarrow> (alert_error + string) \<times> alert_state" where
  "block_source env name timeout s =
     (if map_of (en_sources env) name = None then (Inl (AlertCallError ''Invalid alert source'' EFAULT), s)
      else
        (let lock = en_uuid env (av_next_uuid s)
         in (Inr lock, s\<lparr>av_next_uuid := Suc (av_next_uuid s),
               av_blocked := (av_blocked s)(name := insert lock (av_blocked s name)),
               av_locks := AList.update lock \<lparr>sl_source_name = name, sl_expires_at = en_monotonic env + timeout\<rparr> (av_locks s)\<rparr>)))"

definition unblock_source :: "string \<Rightarrow> alert_state \<Rightarrow> alert_state" where
  "unblock_source lock s =
     (case map_of (av_locks s) lock of
        None \<Rightarrow> s
      | Some l \<Rightarrow> s\<lparr>av_locks := AList.delete lock (av_locks s),
            av_blocked := (av_blocked s)(sl_source_name l := av_blocked s (sl_source_name l) - {lock})\<rparr>)"

fun unblock_expired :: "seconds \<Rightarrow> (string \<times> source_lock) list \<Rightarrow> alert_state \<Rightarrow> alert_state" where
  "unblock_expired t [] s = s"
| "unblock_expired t ((k, l) # ls) s = unblock_expired t ls (if sl_expires_at l \<le> t then unblock_source k s else s)"

section \<open>Processing\<close>

definition of_source :: "string \<Rightarrow> alert_state \<Rightarrow> aref \<Rightarrow> bool" where
  "of_source name s r \<longleftrightarrow> al_source (av_heap s r) = Some name"

text \<open>The alerts of a source per node: those that are there if it is blocked, else the result of running it.\<close>

definition handle_locked_alert_source :: "string \<Rightarrow> string \<Rightarrow> string \<Rightarrow> alert_state \<Rightarrow> aref list \<times> aref list" where
  "handle_locked_alert_source name this_node other_node s =
     (let mine = filter (of_source name s) (av_alerts s)
      in (filter (\<lambda>r. al_node (av_heap s r) = Some this_node) mine,
          filter (\<lambda>r. al_node (av_heap s r) \<noteq> Some this_node \<and> al_node (av_heap s r) = Some other_node) mine))"

definition set_node_and_handle :: "alert_env \<Rightarrow> string \<Rightarrow> aref \<Rightarrow> alert_state \<Rightarrow> alert_state" where
  "set_node_and_handle env node r s = handle_alert env r (upd_alert r (\<lambda>x. x\<lparr>al_node := Some node\<rparr>) s)"

fun handle_pairs :: "alert_env \<Rightarrow> AlertFailoverInfo \<Rightarrow> aref list \<Rightarrow> aref list \<Rightarrow> alert_state \<Rightarrow> alert_state" where
  "handle_pairs env fi [] [] s = s"
| "handle_pairs env fi (t # ts) [] s = handle_pairs env fi ts [] (set_node_and_handle env (fi_this_node fi) t s)"
| "handle_pairs env fi [] (q # qs) s = handle_pairs env fi [] qs (set_node_and_handle env (fi_other_node fi) q s)"
| "handle_pairs env fi (t # ts) (q # qs) s =
     handle_pairs env fi ts qs (set_node_and_handle env (fi_other_node fi) q (set_node_and_handle env (fi_this_node fi) t s))"

definition run_unlocked :: "alert_env \<Rightarrow> AlertFailoverInfo \<Rightarrow> string \<Rightarrow> alert_source_desc \<Rightarrow> alert_state \<Rightarrow> aref list \<times> aref list \<times> alert_state" where
  "run_unlocked env fi name src s =
     (case run_source env name s of
        (res, s1) \<Rightarrow>
          (let this = (case res of None \<Rightarrow> [] | Some rs \<Rightarrow> rs)
           in if fi_run_on_backup_node fi \<and> so_run_on_backup_node src then
                (case alloc_all (run_other_node_alert_source env name) s1 of (other, s2) \<Rightarrow> (this, other, s2))
              else (this, [], s1)))"

definition skip_source :: "alert_env \<Rightarrow> AlertFailoverInfo \<Rightarrow> string \<Rightarrow> alert_source_desc \<Rightarrow> alert_state \<Rightarrow> bool" where
  "skip_source env fi name src s \<longleftrightarrow>
     en_product_type env \<notin> set (so_products src) \<or>
     so_failover_related src \<and> \<not> fi_run_failover_related fi \<or>
     so_require_stable_peer src \<and> \<not> fi_run_on_backup_node fi \<or>
     \<not> should_run (en_utcoffset env) (so_schedule src) (en_now env) (map_of (av_last_run s) name)"

definition run_one :: "alert_env \<Rightarrow> AlertFailoverInfo \<Rightarrow> string \<Rightarrow> alert_source_desc \<Rightarrow> alert_state \<Rightarrow> alert_state" where
  "run_one env fi name src s =
     (if skip_source env fi name src s then s
      else
        (let s1 = s\<lparr>av_last_run := AList.update name (en_now env) (av_last_run s)\<rparr>;
             (this, other, s2) =
               (if av_blocked s1 name \<noteq> {} then
                  (case handle_locked_alert_source name (fi_this_node fi) (fi_other_node fi) s1 of (t, q) \<Rightarrow> (t, q, s1))
                else run_unlocked env fi name src s1);
             s3 = handle_pairs env fi this other s2
         in s3\<lparr>av_alerts := filter (\<lambda>r. \<not> of_source name s3 r) (av_alerts s3) @ this @ other\<rparr>))"

fun run_sources :: "alert_env \<Rightarrow> AlertFailoverInfo \<Rightarrow> (string \<times> alert_source_desc) list \<Rightarrow> alert_state \<Rightarrow> alert_state" where
  "run_sources env fi [] s = s"
| "run_sources env fi ((name, src) # rest) s = run_sources env fi rest (run_one env fi name src s)"

definition run_alerts :: "alert_env \<Rightarrow> alert_state \<Rightarrow> alert_state" where
  "run_alerts env s =
     (let fi = get_failover_info env s
      in run_sources env fi (en_sources env) (unblock_expired (en_monotonic env) (av_locks s) s))"

definition should_expire_alert :: "alert_env \<Rightarrow> alert \<Rightarrow> bool" where
  "should_expire_alert env a \<longleftrightarrow>
     (case class_of env a of
        None \<Rightarrow> False
      | Some k \<Rightarrow>
          kl_one_shot k \<and>
          (case (kl_expires_after k, al_last_occurrence a) of
             (Some d, Some t) \<Rightarrow> t < en_now env - d
           | _ \<Rightarrow> False))"

definition expire_alerts :: "alert_env \<Rightarrow> alert_state \<Rightarrow> alert_state" where
  "expire_alerts env s = s\<lparr>av_alerts := filter (\<lambda>r. \<not> should_expire_alert env (av_heap s r)) (av_alerts s)\<rparr>"

text \<open>
  \<open>process_alerts\<close>. If the system has left the state in which alerts are run, the list is
  put back from the deep copy made before.
\<close>

definition process_alerts :: "alert_env \<Rightarrow> alert_state \<Rightarrow> alert_state" where
  "process_alerts env s =
     (if \<not> should_run_or_send_alerts (en_before env) then s
      else
        (let valid_alerts = map (av_heap s) (av_alerts s);
             s1 = expire_alerts env (run_alerts env s)
         in if \<not> should_run_or_send_alerts (en_after env) then
              (case alloc_all valid_alerts s1 of (rs, s2) \<Rightarrow> s2\<lparr>av_alerts := rs\<rparr>)
            else submit_send s1))"

definition alert_source_clear_run :: "alert_env \<Rightarrow> string \<Rightarrow> alert_state \<Rightarrow> alert_error option \<times> alert_state" where
  "alert_source_clear_run env name s =
     (if map_of (en_sources env) name = None then
        (Some (AlertCallError (''Alert source '' @ py_repr name @ '' not found.'') ENOENT), s)
      else (None, s\<lparr>av_last_run := AList.delete name (av_last_run s)\<rparr>))"

section \<open>Sending\<close>

definition for_service :: "alert_env \<Rightarrow> AlertLevel \<Rightarrow> (policy_kind \<Rightarrow> bool) \<Rightarrow> alert \<Rightarrow> bool" where
  "for_service env level policy_ok a \<longleftrightarrow>
     en_product_type env \<in> set (class_products env a) \<and>
     level_value (get_alert_level env a) \<ge> level_value level \<and> policy_ok (get_alert_policy env a)"

definition same_alert :: "alert \<Rightarrow> alert \<Rightarrow> bool" where
  "same_alert a b \<longleftrightarrow> al_class a = al_class b \<and> al_key a = al_key b"

text \<open>
  An alert that is gone and new at once is dropped from both lists. The loop runs over a copy
  of the first list.
\<close>

fun drop_recreated ::
  "(aref \<Rightarrow> alert) \<Rightarrow> aref list \<Rightarrow> aref list \<Rightarrow> aref list \<Rightarrow> aref list \<times> aref list" where
  "drop_recreated h [] gone new = (gone, new)"
| "drop_recreated h (g # gs) gone new =
     (case find (\<lambda>n. same_alert (h g) (h n)) new of
        None \<Rightarrow> drop_recreated h gs gone new
      | Some n \<Rightarrow>
          drop_recreated h gs (case remove_equal h g gone of None \<Rightarrow> gone | Some xs \<Rightarrow> xs)
            (case remove_equal h n new of None \<Rightarrow> new | Some xs \<Rightarrow> xs))"

definition not_dismissed :: "(aref \<Rightarrow> alert) \<Rightarrow> aref list \<Rightarrow> aref list" where
  "not_dismissed h = filter (\<lambda>r. al_dismissed (h r) \<noteq> Some True)"

text \<open>What one alert service is sent under one policy, if anything.\<close>

definition service_notification ::
  "alert_env \<Rightarrow> policy_kind \<Rightarrow> aref list \<Rightarrow> aref list \<Rightarrow> string \<times> AlertLevel \<Rightarrow> alert_state \<Rightarrow> notification option" where
  "service_notification env policy gone new svc s =
     (case svc of (name, level) \<Rightarrow>
        (let h = av_heap s;
             alerts = filter (\<lambda>r. for_service env level (\<lambda>p. p \<noteq> NEVER) (h r)) (av_alerts s);
             gone0 = filter (\<lambda>r. for_service env level (\<lambda>p. p = policy) (h r)) gone;
             new0 = filter (\<lambda>r. for_service env level (\<lambda>p. p = policy) (h r)) new;
             (gone1, new1) = drop_recreated h gone0 gone0 new0
         in if gone1 = [] \<and> new1 = [] then None
            else
              (let a = not_dismissed h alerts; g = not_dismissed h gone1; n = not_dismissed h new1
               in if a \<noteq> [] \<or> g \<noteq> [] \<or> n \<noteq> [] then
                    Some \<lparr>no_service = name, no_policy = policy, no_alerts = map h a, no_gone = map h g, no_new = map h n\<rparr>
                  else None)))"

definition shown_events :: "alert_env \<Rightarrow> (string \<Rightarrow> alert_event) \<Rightarrow> alert list \<Rightarrow> alert_event list" where
  "shown_events env ev as = map (\<lambda>a. ev (uuid_str a)) (filter (should_show_alert env) as)"

definition proactive :: "alert_env \<Rightarrow> bool \<Rightarrow> alert \<Rightarrow> bool" where
  "proactive env gone a \<longleftrightarrow>
     (case class_of env a of
        None \<Rightarrow> False
      | Some k \<Rightarrow>
          kl_proactive_support k \<and> cs_proactive_support (en_settings env (al_class a)) \<noteq> Some False \<and>
          (gone \<longrightarrow> kl_proactive_support_notify_gone k))"

definition ticket_body :: "alert_env \<Rightarrow> alert list \<Rightarrow> alert list \<Rightarrow> string" where
  "ticket_body env gone new =
     (let line = (\<lambda>a. ''* '' @ en_html2text env (formatted (en_percent env) (en_classes env) a));
          msg = (if gone = [] then [] else ''The following alerts were cleared:'' # map line gone) @
                (if new = [] then [] else ''The following new alerts appeared:'' # map line new) @
                concat (map (\<lambda>(name, v). if v = [] then [] else [[], name @ '': '' @ v]) (en_support_fields env))
      in py_join newline msg)"

text \<open>The ticket for proactive support; when it fails, an alert about that is submitted.\<close>

definition send_ticket :: "alert_env \<Rightarrow> alert list \<Rightarrow> alert list \<Rightarrow> alert_state \<Rightarrow> alert_state" where
  "send_ticket env gone new s =
     (let g = filter (proactive env True) gone; n = filter (proactive env False) new; body = ticket_body env g n
      in if \<not> en_enterprise env \<or> (g = [] \<and> n = []) \<or> \<not> en_support env then s
         else
           (let s1 = s\<lparr>av_tickets := av_tickets s @ [body]\<rparr>
            in case en_ticket_error env of
                 None \<Rightarrow> s1
               | Some e \<Rightarrow>
                   s1\<lparr>av_created := av_created s1 @
                     [(''AutomaticAlertFailed'',
                       PDict [(''serial'', PStr (en_serial env)), (''error'', PStr e), (''alert'', PStr body)])]\<rparr>))"

text \<open>What the policy \<open>IMMEDIATELY\<close> does in addition: events, mails (submitting one does not fail), tickets.\<close>

definition send_immediate :: "alert_env \<Rightarrow> aref list \<Rightarrow> aref list \<Rightarrow> alert_state \<Rightarrow> alert_state" where
  "send_immediate env gone new s =
     (let g = map (av_heap s) gone; n = map (av_heap s) new
      in send_ticket env g n
           (s\<lparr>av_events := av_events s @ shown_events env AlertRemoved g @ shown_events env AlertAdded n,
              av_mails := av_mails s @ concat (map (\<lambda>a. case al_mail a of None \<Rightarrow> [] | Some m \<Rightarrow> if truthy m then [m] else []) n)\<rparr>))"

definition notify_services :: "alert_env \<Rightarrow> policy_kind \<Rightarrow> aref list \<Rightarrow> aref list \<Rightarrow> alert_state \<Rightarrow> alert_state" where
  "notify_services env policy gone new s =
     s\<lparr>av_sent := av_sent s @ List.map_filter (\<lambda>svc. service_notification env policy gone new svc s) (en_services env)\<rparr>"

text \<open>The policies in their order; the first list collects the ones that are done.\<close>

fun send_policies :: "alert_env \<Rightarrow> alert_policy list \<Rightarrow> alert_policy list \<Rightarrow> alert_state \<Rightarrow> alert_state" where
  "send_policies env done [] s = s\<lparr>av_policies := done\<rparr>"
| "send_policies env done (p # ps) s =
     (case receive_alerts (av_heap s) (en_now env) (av_alerts s) p of
        ((gone, new), p1) \<Rightarrow>
          (let s1 = notify_services env (po_kind p) gone new s
           in send_policies env (done @ [p1]) ps
                (if po_kind p = IMMEDIATELY then send_immediate env gone new s1 else s1)))"

definition send_alerts :: "alert_env \<Rightarrow> alert_state \<Rightarrow> alert_state" where
  "send_alerts env s =
     (let s1 = s\<lparr>av_send_submitted := False\<rparr>
      in if \<not> sy_ready (en_before env) then s1\<lparr>av_send_on_ready := True\<rparr>
         else send_policies env [] (av_policies s1) s1)"

definition event_system_ready :: "alert_state \<Rightarrow> alert_state" where
  "event_system_ready s = (if av_send_on_ready s then submit_send s else s)"

section \<open>The database\<close>

definition flush_alerts :: "alert_env \<Rightarrow> alert_state \<Rightarrow> alert_state" where
  "flush_alerts env s =
     (if sy_licensed (en_before env) \<and> sy_failover_status (en_before env) = ''BACKUP'' then s
      else s\<lparr>av_db := map (\<lambda>r. (av_heap s r)\<lparr>al_mail := None\<rparr>) (av_alerts s)\<rparr>)"

text \<open>\<open>initialize\<close>: the rows whose source and class still exist, each uuid once, grouped by class.\<close>

fun load_rows :: "alert_env \<Rightarrow> string option set \<Rightarrow> alert list \<Rightarrow> alert list" where
  "load_rows env seen [] = []"
| "load_rows env seen (a # as) =
     (if (case al_source a of None \<Rightarrow> False | Some src \<Rightarrow> src \<noteq> [] \<and> map_of (en_sources env) src = None) then load_rows env seen as
      else if class_of env a = None then load_rows env seen as
      else if al_uuid a \<in> seen then load_rows env seen as
      else a # load_rows env (insert (al_uuid a) seen) as)"

definition row_alert :: "alert_env \<Rightarrow> alert \<Rightarrow> alert" where
  "row_alert env a =
     (case class_of env a of
        None \<Rightarrow> a
      | Some k \<Rightarrow>
          new_alert (en_float_repr env) k (al_class a) (al_args a)
            \<lparr>ai_datetime = al_datetime a, ai_last_occurrence = al_last_occurrence a, ai_node = al_node a,
             ai_dismissed = al_dismissed a, ai_mail = None, ai_uuid = al_uuid a, ai_source = al_source a,
             ai_key = Some (al_key a), ai_text = Some (al_text a)\<rparr>)"

definition load_class :: "alert_env \<Rightarrow> alert list \<Rightarrow> string \<Rightarrow> alert list" where
  "load_class env as name =
     (let mine = filter (\<lambda>a. al_class a = name) as
      in case map_of (en_classes env) name of
           None \<Rightarrow> mine
         | Some k \<Rightarrow> if kl_one_shot k then kl_load k mine else mine)"

definition loaded_alerts :: "alert_env \<Rightarrow> alert list \<Rightarrow> alert list" where
  "loaded_alerts env rows =
     (let as = map (row_alert env) (load_rows env {} rows)
      in concat (map (load_class env as) (rev (remdups (rev (map al_class as))))))"

definition initial_policies :: "alert_policy list" where
  "initial_policies = map new_policy [IMMEDIATELY, HOURLY, DAILY, NEVER]"

text \<open>\<open>AlertService.__init__\<close>; \<open>sources_run_times\<close> is a \<open>defaultdict\<close>. No object exists yet.\<close>

definition new_alert_service :: "alert list \<Rightarrow> alert_state" where
  "new_alert_service db =
     \<lparr>av_heap = (\<lambda>_. undefined), av_next = 0, av_next_uuid = 0, av_node = ''A'', av_alerts = [], av_source_errors = {}, av_last_run = [],
      av_policies = [], av_blocked = (\<lambda>_. {}), av_locks = [], av_failover_until = 0,
      av_run_times = (\<lambda>_. \<lparr>rt_last = [], rt_max = 0, rt_total_count = 0, rt_total_time = 0\<rparr>),
      av_send_on_ready = False, av_send_submitted = False, av_created = [], av_db = db, av_events = [], av_sent = [], av_mails = [],
      av_tickets = []\<rparr>"

definition initialize :: "alert_env \<Rightarrow> bool \<Rightarrow> alert_state \<Rightarrow> alert_state" where
  "initialize env load s =
     (let s1 = s\<lparr>av_node := (if en_enterprise env \<and> en_failover_node env = ''B'' then ''B'' else ''A''), av_alerts := []\<rparr>;
          s2 = (if load then (case alloc_all (loaded_alerts env (av_db s1)) s1 of (rs, s') \<Rightarrow> s'\<lparr>av_alerts := rs\<rparr>)
                else flush_alerts env s1)
      in s2\<lparr>av_last_run := [],
            av_policies := map (\<lambda>p. snd (receive_alerts (av_heap s2) (en_now env) (av_alerts s2) p)) initial_policies\<rparr>)"

section \<open>One-shot alerts\<close>

definition oneshot_create :: "alert_env \<Rightarrow> string \<Rightarrow> pyval \<Rightarrow> alert_state \<Rightarrow> alert_error option \<times> alert_state" where
  "oneshot_create env name args s =
     (case map_of (en_classes env) name of
        None \<Rightarrow> (Some (AlertKeyError name), s)
      | Some k \<Rightarrow>
          if \<not> kl_one_shot k then (Some (AlertCallError ''Alert is not a one-shot alert class'' EFAULT), s)
          else
            (let a = new_alert (en_float_repr env) k name args no_init;
                 r = av_next s;
                 s1 = snd (alloc_all [a\<lparr>al_source := Some [], al_node := Some (av_node s)\<rparr>] s);
                 s2 = handle_alert env r s1
             in (None, submit_send (s2\<lparr>av_alerts :=
                   filter (\<lambda>q. al_uuid (av_heap s2 q) \<noteq> al_uuid (av_heap s2 r)) (av_alerts s2) @ [r]\<rparr>))))"

text \<open>\<open>deleted_alert not in left_alerts\<close> and \<open>self.alerts.remove(deleted_alert)\<close>, with a note whether any was deleted.\<close>

fun remove_missing :: "alert list \<Rightarrow> aref list \<Rightarrow> bool \<times> alert_state \<Rightarrow> (bool \<times> alert_state) option" where
  "remove_missing left [] ds = Some ds"
| "remove_missing left (r # rs) ds =
     (case ds of (deleted, s) \<Rightarrow>
        if av_heap s r \<in> set left then remove_missing left rs ds
        else (case remove_equal (av_heap s) r (av_alerts s) of
                None \<Rightarrow> None
              | Some qs \<Rightarrow> remove_missing left rs (True, s\<lparr>av_alerts := qs\<rparr>)))"

fun delete_klasses :: "alert_env \<Rightarrow> pyval \<Rightarrow> string list \<Rightarrow> bool \<times> alert_state \<Rightarrow> alert_error option \<times> bool \<times> alert_state" where
  "delete_klasses env query [] ds = (None, ds)"
| "delete_klasses env query (name # names) ds =
     (case map_of (en_classes env) name of
        None \<Rightarrow> (Some (AlertCallError (''Invalid alert source: '' @ py_repr name) EFAULT), ds)
      | Some k \<Rightarrow>
          if \<not> kl_one_shot k then
            (Some (AlertCallError (''Alert class '' @ py_repr name @ '' is not a one-shot alert class'') EFAULT), ds)
          else
            (let s = snd ds;
                 related = filter (\<lambda>r. al_node (av_heap s r) = Some (av_node s) \<and> al_class (av_heap s r) = name) (av_alerts s)
             in case class_delete k (map (av_heap s) related) query of
                  None \<Rightarrow> (Some AlertException, ds)
                | Some left \<Rightarrow>
                    (case remove_missing left related ds of
                       None \<Rightarrow> (Some AlertException, ds)
                     | Some ds' \<Rightarrow> delete_klasses env query names ds')))"

definition oneshot_delete :: "alert_env \<Rightarrow> string list \<Rightarrow> pyval \<Rightarrow> alert_state \<Rightarrow> alert_error option \<times> alert_state" where
  "oneshot_delete env klasses query s =
     (case delete_klasses env query klasses (False, s) of
        (Some e, _, s1) \<Rightarrow> (Some e, s1)
      | (None, deleted, s1) \<Rightarrow> (None, if deleted then submit_send (flush_alerts env s1) else s1))"

text \<open>Jobs submitted by \<open>send_alerts\<close> for alerts about failed tickets.\<close>

definition run_submitted_create :: "alert_env \<Rightarrow> alert_state \<Rightarrow> alert_state" where
  "run_submitted_create env s =
     (case av_created s of
        [] \<Rightarrow> s
      | (name, args) # rest \<Rightarrow> snd (oneshot_create env name args (s\<lparr>av_created := rest\<rparr>)))"

section \<open>Settings of the classes\<close>

text \<open>\<open>do_update\<close>: the settings replace the old ones, if they are given and all of them are valid.\<close>

definition class_setting_errors :: "alert_env \<Rightarrow> string \<times> class_setting \<Rightarrow> validation_errors" where
  "class_setting_errors env kv =
     (case kv of (k, v) \<Rightarrow>
        (case map_of (en_classes env) k of
           None \<Rightarrow> verrors_add (''alert_class_update.classes.'' @ k) ''This alert class does not exist'' EINVAL []
         | Some c \<Rightarrow>
             if cs_proactive_support v \<noteq> None \<and> \<not> kl_proactive_support c then
               verrors_add (''alert_class_update.classes.'' @ k @ ''.proactive_support'')
                 ''Proactive support is not supported by this alert class'' EINVAL []
             else []))"

definition alert_classes_update ::
  "alert_env \<Rightarrow> (string \<times> class_setting) list \<Rightarrow> (string \<times> class_setting) list option \<Rightarrow> validation_errors + (string \<times> class_setting) list" where
  "alert_classes_update env old data =
     (let new = (case data of None \<Rightarrow> old | Some classes \<Rightarrow> classes);
          verrors = concat (map (class_setting_errors env) new)
      in if verrors \<noteq> [] then Inl verrors else Inr new)"

end
