(* ===== verification/Alert_Objects.thy ===== *)
theory Alert_Objects
  imports Alerts
begin

text \<open>
  The invariant of the alert service, and what handling alerts does to the objects: alerts are
  told apart by their uuid and by node, source, class and key, and these two agree over all objects.
\<close>

section \<open>The invariant\<close>

text \<open>What the steps share: the sequence of uuids, the classes and their settings, the product and the sources.\<close>

definition same_config :: "alert_env \<Rightarrow> alert_env \<Rightarrow> bool" where
  "same_config base env \<longleftrightarrow> en_uuid env = en_uuid base \<and> en_classes env = en_classes base \<and>
     en_settings env = en_settings base \<and> en_product_type env = en_product_type base \<and> en_sources env = en_sources base"

text \<open>
  What is relied on of code outside the service: \<open>uuid4\<close> does not repeat, a check creates alerts
  without a uuid, no source has the empty name, and the other node's \<open>run_source\<close> returns
  alerts of that source with different keys (as this node's does).
\<close>

definition env_ok :: "alert_env \<Rightarrow> bool" where
  "env_ok env \<longleftrightarrow> inj (en_uuid env) \<and> dict_wf (en_sources env) \<and> map_of (en_sources env) [] = None \<and>
     (\<forall>name as. en_check env name = Checked as \<longrightarrow> (\<forall>a \<in> set as. al_uuid a = None)) \<and>
     (\<forall>name xs. en_remote env name = RemoteAlerts xs \<longrightarrow> distinct (map ra_key xs) \<and> (\<forall>x \<in> set xs. ra_source x = name))"

text \<open>Objects with a uuid: not one that is still to come, and equal uuids mean the same alert.\<close>

definition uuids_agree :: "(nat \<Rightarrow> string) \<Rightarrow> (aref \<Rightarrow> alert) \<Rightarrow> nat \<Rightarrow> nat \<Rightarrow> bool" where
  "uuids_agree U h n m \<longleftrightarrow>
     (\<forall>r u. r < n \<longrightarrow> al_uuid (h r) = Some u \<longrightarrow> u \<notin> U ` {m..}) \<and>
     (\<forall>r q u. r < n \<longrightarrow> q < n \<longrightarrow> al_uuid (h r) = Some u \<longrightarrow> al_uuid (h q) = Some u \<longrightarrow> identity (h r) = identity (h q))"

definition uuids_ok :: "(nat \<Rightarrow> string) \<Rightarrow> alert_state \<Rightarrow> bool" where
  "uuids_ok U s \<longleftrightarrow> uuids_agree U (av_heap s) (av_next s) (av_next_uuid s)"

definition list_ok :: "alert_state \<Rightarrow> bool" where
  "list_ok s \<longleftrightarrow> distinct (map (\<lambda>r. identity (av_heap s r)) (av_alerts s)) \<and>
     (\<forall>r \<in> set (av_alerts s). r < av_next s \<and> al_uuid (av_heap s r) \<noteq> None)"

definition policy_ok :: "alert_state \<Rightarrow> alert_policy \<Rightarrow> bool" where
  "policy_ok s p \<longleftrightarrow> dict_wf (po_last_key_value_alerts p) \<and>
     (\<forall>(u, r) \<in> set (po_last_key_value_alerts p). r < av_next s \<and> al_uuid (av_heap s r) = u \<and> u \<noteq> None)"

definition policies_ok :: "alert_state \<Rightarrow> bool" where
  "policies_ok s \<longleftrightarrow> map po_kind (av_policies s) = [IMMEDIATELY, HOURLY, DAILY, NEVER] \<and>
     (\<forall>p \<in> set (av_policies s). policy_ok s p)"

definition alert_inv :: "(nat \<Rightarrow> string) \<Rightarrow> alert_state \<Rightarrow> bool" where
  "alert_inv U s \<longleftrightarrow> uuids_ok U s \<and> list_ok s \<and> policies_ok s"

lemma alert_invD:
  assumes "alert_inv U s"
  shows "uuids_ok U s" "list_ok s" "policies_ok s"
  using assms by (simp_all add: alert_inv_def)

section \<open>Changes that keep it\<close>

text \<open>
  A step that allocates objects without a uuid or with the uuid and identity of another object,
  and changes no uuid and no identity of the objects there are.
\<close>

definition grows :: "alert_state \<Rightarrow> alert_state \<Rightarrow> bool" where
  "grows s t \<longleftrightarrow> av_next s \<le> av_next t \<and> av_next_uuid s \<le> av_next_uuid t \<and>
     (\<forall>r < av_next s. al_uuid (av_heap t r) = al_uuid (av_heap s r) \<and> identity (av_heap t r) = identity (av_heap s r))"

lemma grows_refl [simp]: "grows s s"
  by (simp add: grows_def)

lemma grows_trans: "grows s t \<Longrightarrow> grows t u \<Longrightarrow> grows s u"
  by (auto simp: grows_def)

lemma grows_policies:
  assumes "grows s t" "policies_ok s" "av_policies t = av_policies s"
  shows "policies_ok t"
  using assms unfolding policies_ok_def policy_ok_def grows_def
  by (metis (no_types, lifting) case_prodI2 case_prodD order_less_le_trans)

lemma identity_simps [simp]:
  "identity (a\<lparr>al_uuid := x\<rparr>) = identity a" "identity (a\<lparr>al_dismissed := d\<rparr>) = identity a"
  "identity (a\<lparr>al_datetime := t\<rparr>) = identity a" "identity (a\<lparr>al_last_occurrence := t\<rparr>) = identity a"
  "identity (a\<lparr>al_mail := m\<rparr>) = identity a"
  by (simp_all add: identity_def)

lemma upd_alert_simps [simp]:
  "av_next (upd_alert r f s) = av_next s" "av_alerts (upd_alert r f s) = av_alerts s"
  "av_policies (upd_alert r f s) = av_policies s" "av_next_uuid (upd_alert r f s) = av_next_uuid s"
  "av_heap (upd_alert r f s) = (av_heap s)(r := f (av_heap s r))" "av_events (upd_alert r f s) = av_events s"
  by (simp_all add: upd_alert_def)

text \<open>The invariant looks only at the uuids and the identities of the objects, at the list and at the policies.\<close>

lemma same_view_inv:
  assumes "alert_inv U s" "av_next t = av_next s" "av_next_uuid t = av_next_uuid s" "av_alerts t = av_alerts s"
    "av_policies t = av_policies s" "\<And>q. al_uuid (av_heap t q) = al_uuid (av_heap s q)"
    "\<And>q. identity (av_heap t q) = identity (av_heap s q)"
  shows "alert_inv U t"
  using assms(1) unfolding alert_inv_def uuids_ok_def uuids_agree_def list_ok_def policies_ok_def policy_ok_def assms(2-) .

lemma upd_alert_inv:
  assumes "alert_inv U s" "\<And>a. al_uuid (f a) = al_uuid a" "\<And>a. identity (f a) = identity a"
  shows "alert_inv U (upd_alert r f s)"
  by (rule same_view_inv [OF assms(1)]) (simp_all add: assms(2,3))

section \<open>Allocation\<close>

lemma alloc_all_ex:
  "\<exists>h. alloc_all as s = ([av_next s..<av_next s + length as], s\<lparr>av_heap := h, av_next := av_next s + length as\<rparr>) \<and>
     (\<forall>q < av_next s. h q = av_heap s q) \<and> map h [av_next s..<av_next s + length as] = as"
proof (induction as arbitrary: s)
  case Nil
  show ?case by (intro exI [of _ "av_heap s"]) simp
next
  case (Cons a as)
  let ?s = "s\<lparr>av_heap := (av_heap s)(av_next s := a), av_next := Suc (av_next s)\<rparr>"
  obtain h where a: "alloc_all as ?s = ([Suc (av_next s)..<Suc (av_next s + length as)],
      s\<lparr>av_heap := h, av_next := Suc (av_next s + length as)\<rparr>)"
    and h: "\<forall>q < Suc (av_next s). h q = ((av_heap s)(av_next s := a)) q"
    and m: "map h [Suc (av_next s)..<Suc (av_next s + length as)] = as"
    using Cons.IH [of ?s] by auto
  have u: "[av_next s..<av_next s + length (a # as)] = av_next s # [Suc (av_next s)..<Suc (av_next s + length as)]"
    using upt_conv_Cons [of "av_next s" "av_next s + Suc (length as)"] by (simp del: upt_Suc)
  show ?case unfolding u using a h m by (intro exI [of _ h]) (simp add: Let_def del: upt_Suc)
qed

lemma alloc_all_obtain:
  assumes "alloc_all as s = (rs, t)"
  obtains h where "rs = [av_next s..<av_next s + length as]" and "t = s\<lparr>av_heap := h, av_next := av_next s + length as\<rparr>"
    and "\<And>q. q < av_next s \<Longrightarrow> h q = av_heap s q" and "map h rs = as"
  using assms alloc_all_ex [of as s] by auto

section \<open>Handling an alert\<close>

definition with_node :: "string \<Rightarrow> alert \<Rightarrow> string option \<times> string option \<times> string \<times> string" where
  "with_node n a = (Some n, al_source a, al_class a, al_key a)"

lemma identity_node [simp]: "identity (a\<lparr>al_node := Some n\<rparr>) = with_node n a"
  by (simp add: identity_def with_node_def)

lemma uuids_okD:
  assumes "uuids_ok U s" "r < av_next s" "al_uuid (av_heap s r) = Some u"
  shows "u \<notin> U ` {av_next_uuid s..}"
    and "q < av_next s \<Longrightarrow> al_uuid (av_heap s q) = Some u \<Longrightarrow> identity (av_heap s q) = identity (av_heap s r)"
  using assms unfolding uuids_ok_def uuids_agree_def by blast+

lemma uuids_ok_upd:
  assumes "uuids_ok U s" "av_next_uuid s \<le> n" "\<And>u. al_uuid x = Some u \<Longrightarrow> u \<notin> U ` {n..}"
    "\<And>u q. q < av_next s \<Longrightarrow> al_uuid x = Some u \<Longrightarrow> al_uuid (av_heap s q) = Some u \<Longrightarrow> identity (av_heap s q) = identity x"
  shows "uuids_ok U (s\<lparr>av_heap := (av_heap s)(r := x), av_next_uuid := n\<rparr>)"
proof -
  have "u \<notin> U ` {n..}" if "p < av_next s" "al_uuid (((av_heap s)(r := x)) p) = Some u" for p u
    using that assms(1,2,3) uuids_okD(1) [of U s p u] by (cases "p = r") (fastforce simp: image_iff)+
  moreover have "identity (((av_heap s)(r := x)) p) = identity (((av_heap s)(r := x)) q)"
    if "p < av_next s" "q < av_next s" "al_uuid (((av_heap s)(r := x)) p) = Some u" "al_uuid (((av_heap s)(r := x)) q) = Some u" for p q u
    using that assms(4) [of p u] assms(4) [of q u] uuids_okD(2) [OF assms(1), of q u p] by (cases "p = r"; cases "q = r") simp_all
  ultimately have "uuids_agree U ((av_heap s)(r := x)) (av_next s) n" unfolding uuids_agree_def by blast
  then show ?thesis by (simp add: uuids_ok_def)
qed

text \<open>What an alert keeps of the earlier object for it.\<close>

definition keeps :: "alert \<Rightarrow> alert \<Rightarrow> bool" where
  "keeps old new \<longleftrightarrow> al_uuid new = al_uuid old \<and> al_datetime new = al_datetime old \<and> al_dismissed new = al_dismissed old"

lemma list_ok_unique:
  assumes "list_ok s" "q \<in> set (av_alerts s)" "p \<in> set (av_alerts s)" "identity (av_heap s q) = identity (av_heap s p)"
  shows "q = p"
  using assms by (auto simp: list_ok_def distinct_map inj_on_def)

text \<open>The effect on a new object: it gets its node, and a uuid that agrees with all the others.\<close>

lemma handle_new:
  assumes "inj U" "en_uuid env = U" "uuids_ok U s" "r < av_next s" "r \<notin> set (av_alerts s)"
    "list_ok s"
  shows "\<exists>h n. set_node_and_handle env nd r s = s\<lparr>av_heap := h, av_next_uuid := n\<rparr> \<and> av_next_uuid s \<le> n \<and>
    (\<forall>q. q \<noteq> r \<longrightarrow> h q = av_heap s q) \<and> identity (h r) = with_node nd (av_heap s r) \<and> al_uuid (h r) \<noteq> None \<and>
    uuids_ok U (s\<lparr>av_heap := h, av_next_uuid := n\<rparr>) \<and>
    (\<forall>q \<in> set (av_alerts s). identity (av_heap s q) = with_node nd (av_heap s r) \<longrightarrow> keeps (av_heap s q) (h r))"
proof -
  let ?a = "(av_heap s r)\<lparr>al_node := Some nd\<rparr>"
  let ?s = "upd_alert r (\<lambda>x. x\<lparr>al_node := Some nd\<rparr>) s"
  have f: "find (\<lambda>q. identity (av_heap ?s q) = identity (av_heap ?s r)) (av_alerts ?s) =
      find (\<lambda>q. identity (av_heap s q) = with_node nd (av_heap s r)) (av_alerts s)"
    using assms(5) by (auto intro!: find_cong)
  show ?thesis
  proof (cases "find (\<lambda>q. identity (av_heap s q) = with_node nd (av_heap s r)) (av_alerts s)")
    case None
    let ?x = "?a\<lparr>al_uuid := Some (U (av_next_uuid s)), al_datetime := opt_or (al_datetime ?a) (Some (en_now env)),
        al_last_occurrence := Some (en_now env), al_dismissed := Some False\<rparr>"
    have e: "set_node_and_handle env nd r s = s\<lparr>av_heap := (av_heap s)(r := ?x), av_next_uuid := Suc (av_next_uuid s)\<rparr>"
      unfolding set_node_and_handle_def handle_alert_def Let_def f None option.case using assms(2) by (simp add: upd_alert_def)
    have u: "uuids_ok U (s\<lparr>av_heap := (av_heap s)(r := ?x), av_next_uuid := Suc (av_next_uuid s)\<rparr>)"
    proof (rule uuids_ok_upd [OF assms(3)])
      show "identity (av_heap s q) = identity ?x" if "q < av_next s" "al_uuid ?x = Some u" "al_uuid (av_heap s q) = Some u" for u q
        using uuids_okD(1) [OF assms(3) that(1,3)] that(2) by auto
    qed (use assms(1) in \<open>auto dest: injD\<close>)
    have "\<forall>q \<in> set (av_alerts s). identity (av_heap s q) \<noteq> with_node nd (av_heap s r)"
      using None by (simp add: find_None_iff)
    moreover have "identity ?x = with_node nd (av_heap s r)" by (simp add: identity_def with_node_def)
    ultimately show ?thesis using e u
      by (intro exI [of _ "(av_heap s)(r := ?x)"] exI [of _ "Suc (av_next_uuid s)"]) simp
  next
    case (Some q)
    then have q: "q \<in> set (av_alerts s)" "identity (av_heap s q) = with_node nd (av_heap s r)"
      by (auto simp: find_Some_iff)
    then have qr: "q \<noteq> r" using assms(5) by auto
    let ?x = "?a\<lparr>al_uuid := al_uuid (av_heap s q), al_datetime := al_datetime (av_heap s q),
        al_last_occurrence := Some (en_now env), al_dismissed := al_dismissed (av_heap s q)\<rparr>"
    have e: "set_node_and_handle env nd r s = s\<lparr>av_heap := (av_heap s)(r := ?x), av_next_uuid := av_next_uuid s\<rparr>"
      unfolding set_node_and_handle_def handle_alert_def Let_def f Some option.case using qr by (simp add: upd_alert_def)
    have i: "identity ?x = identity (av_heap s q)" using q(2) by (simp add: identity_def with_node_def)
    have qn: "q < av_next s" "al_uuid (av_heap s q) \<noteq> None" using assms(6) q(1) by (auto simp: list_ok_def)
    have un: "p = q" if "p \<in> set (av_alerts s)" "identity (av_heap s p) = with_node nd (av_heap s r)" for p
      using list_ok_unique [OF assms(6) that(1) q(1)] that(2) q(2) by simp
    have u: "uuids_ok U (s\<lparr>av_heap := (av_heap s)(r := ?x), av_next_uuid := av_next_uuid s\<rparr>)"
    proof (rule uuids_ok_upd [OF assms(3) order.refl])
      show "u \<notin> U ` {av_next_uuid s..}" if "al_uuid ?x = Some u" for u
        using uuids_okD(1) [OF assms(3) qn(1)] that by simp
      show "identity (av_heap s p) = identity ?x" if "p < av_next s" "al_uuid ?x = Some u" "al_uuid (av_heap s p) = Some u" for u p
        unfolding i using uuids_okD(2) [OF assms(3) qn(1) _ that(1,3)] that(2) by simp
    qed
    have "\<forall>p \<in> set (av_alerts s). identity (av_heap s p) = with_node nd (av_heap s r) \<longrightarrow> keeps (av_heap s p) ?x"
      using un by (auto simp: keeps_def)
    then show ?thesis using e u qn i q(2)
      by (intro exI [of _ "(av_heap s)(r := ?x)"] exI [of _ "av_next_uuid s"]) simp
  qed
qed

text \<open>The loop over the objects of both nodes, as a list of nodes and objects.\<close>

fun zip_nodes :: "AlertFailoverInfo \<Rightarrow> aref list \<Rightarrow> aref list \<Rightarrow> (string \<times> aref) list" where
  "zip_nodes fi [] [] = []"
| "zip_nodes fi (t # ts) [] = (fi_this_node fi, t) # zip_nodes fi ts []"
| "zip_nodes fi [] (q # qs) = (fi_other_node fi, q) # zip_nodes fi [] qs"
| "zip_nodes fi (t # ts) (q # qs) = (fi_this_node fi, t) # (fi_other_node fi, q) # zip_nodes fi ts qs"

lemma handle_pairs_fold:
  "handle_pairs env fi ts qs s = fold (\<lambda>(n, r). set_node_and_handle env n r) (zip_nodes fi ts qs) s"
  by (induction env fi ts qs s rule: handle_pairs.induct) simp_all

lemma zip_nodes_set: "set (zip_nodes fi ts qs) = Pair (fi_this_node fi) ` set ts \<union> Pair (fi_other_node fi) ` set qs"
  by (induction fi ts qs rule: zip_nodes.induct) auto

lemma zip_nodes_distinct: "distinct (ts @ qs) \<Longrightarrow> distinct (map snd (zip_nodes fi ts qs))"
  by (induction fi ts qs rule: zip_nodes.induct) (auto simp: zip_nodes_set)

lemma handle_fold_new:
  assumes "inj U" "en_uuid env = U" "uuids_ok U s" "list_ok s" "\<forall>(n, r) \<in> set xs. r < av_next s \<and> r \<notin> set (av_alerts s)"
    "distinct (map snd xs)"
  shows "\<exists>h n. fold (\<lambda>(n, r). set_node_and_handle env n r) xs s = s\<lparr>av_heap := h, av_next_uuid := n\<rparr> \<and> av_next_uuid s \<le> n \<and>
    uuids_ok U (s\<lparr>av_heap := h, av_next_uuid := n\<rparr>) \<and> (\<forall>q. q \<notin> snd ` set xs \<longrightarrow> h q = av_heap s q) \<and>
    (\<forall>(n, r) \<in> set xs. identity (h r) = with_node n (av_heap s r) \<and> al_uuid (h r) \<noteq> None \<and>
       (\<forall>q \<in> set (av_alerts s). identity (av_heap s q) = identity (h r) \<longrightarrow> keeps (av_heap s q) (h r)))"
  using assms(3-)
proof (induction xs arbitrary: s)
  case Nil
  then show ?case by (intro exI [of _ "av_heap s"] exI [of _ "av_next_uuid s"]) simp
next
  case (Cons x xs)
  obtain nd r where x: "x = (nd, r)" by (cases x)
  obtain h n where e: "set_node_and_handle env nd r s = s\<lparr>av_heap := h, av_next_uuid := n\<rparr>" and n: "av_next_uuid s \<le> n"
    and h: "\<And>q. q \<noteq> r \<Longrightarrow> h q = av_heap s q" "identity (h r) = with_node nd (av_heap s r)" "al_uuid (h r) \<noteq> None"
    and u: "uuids_ok U (s\<lparr>av_heap := h, av_next_uuid := n\<rparr>)"
    and k: "\<forall>q \<in> set (av_alerts s). identity (av_heap s q) = with_node nd (av_heap s r) \<longrightarrow> keeps (av_heap s q) (h r)"
    using handle_new [OF assms(1,2) Cons.prems(1), of r nd] Cons.prems(2,3) x by auto
  let ?s = "s\<lparr>av_heap := h, av_next_uuid := n\<rparr>"
  have as: "h q = av_heap s q" if "q \<in> set (av_alerts s)" for q
    by (rule h(1)) (use Cons.prems(3) x that in auto)
  have r: "h q = av_heap s q" if "(m, q) \<in> set xs" for m q
    by (rule h(1)) (use Cons.prems(4) x that in force)
  have l: "list_ok ?s" using Cons.prems(2) as by (auto simp: list_ok_def cong: map_cong)
  obtain h' n' where e': "fold (\<lambda>(n, r). set_node_and_handle env n r) xs ?s = ?s\<lparr>av_heap := h', av_next_uuid := n'\<rparr>"
    and n': "n \<le> n'" and u': "uuids_ok U (?s\<lparr>av_heap := h', av_next_uuid := n'\<rparr>)"
    and h': "\<forall>q. q \<notin> snd ` set xs \<longrightarrow> h' q = h q"
    and k': "\<forall>(m, q) \<in> set xs. identity (h' q) = with_node m (h q) \<and> al_uuid (h' q) \<noteq> None \<and>
       (\<forall>p \<in> set (av_alerts s). identity (h p) = identity (h' q) \<longrightarrow> keeps (h p) (h' q))"
    using Cons.IH [OF u l] Cons.prems(3,4) x by auto
  have rr: "h' r = h r" using h' Cons.prems(4) x by auto
  have "\<forall>(m, q) \<in> set (x # xs). identity (h' q) = with_node m (av_heap s q) \<and> al_uuid (h' q) \<noteq> None \<and>
       (\<forall>p \<in> set (av_alerts s). identity (av_heap s p) = identity (h' q) \<longrightarrow> keeps (av_heap s p) (h' q))"
    using k' r as h(2,3) k rr x by auto
  moreover have "\<forall>q. q \<notin> snd ` set (x # xs) \<longrightarrow> h' q = av_heap s q" using h' h(1) x by auto
  ultimately show ?case using e e' u' n n' x
    by (intro exI [of _ h'] exI [of _ n']) simp
qed

section \<open>Blocked sources\<close>

lemma handle_known:
  assumes "list_ok s" "r \<in> set (av_alerts s)" "al_node (av_heap s r) = Some nd"
  shows "set_node_and_handle env nd r s = upd_alert r (\<lambda>x. x\<lparr>al_last_occurrence := Some (en_now env)\<rparr>) s"
proof -
  let ?s = "upd_alert r (\<lambda>x. x\<lparr>al_node := Some nd\<rparr>) s"
  have same: "(av_heap s r)\<lparr>al_node := Some nd\<rparr> = av_heap s r" using assms(3) by (cases "av_heap s r") simp
  then have s: "?s = s" by (simp add: upd_alert_def)
  have "\<exists>q. find (\<lambda>q. identity (av_heap s q) = identity (av_heap s r)) (av_alerts s) = Some q"
    using assms(2) find_None_iff [of "\<lambda>q. identity (av_heap s q) = identity (av_heap s r)" "av_alerts s"] by auto
  then obtain q where q: "find (\<lambda>q. identity (av_heap s q) = identity (av_heap s r)) (av_alerts s) = Some q" ..
  then have "q \<in> set (av_alerts s)" "identity (av_heap s q) = identity (av_heap s r)" by (auto simp: find_Some_iff)
  then have "q = r" using list_ok_unique [OF assms(1) _ assms(2)] by blast
  then show ?thesis unfolding set_node_and_handle_def s handle_alert_def Let_def q option.case
    by (simp add: upd_alert_def)
qed

text \<open>Only the time of the last occurrence changes.\<close>

definition seen_again :: "seconds \<Rightarrow> alert \<Rightarrow> alert \<Rightarrow> bool" where
  "seen_again now a b \<longleftrightarrow> b = a \<or> b = a\<lparr>al_last_occurrence := Some now\<rparr>"

lemma seen_again_same:
  assumes "seen_again now a b"
  shows "identity b = identity a" "al_uuid b = al_uuid a" "al_node b = al_node a" "al_source b = al_source a" "al_class b = al_class a"
    "al_dismissed b = al_dismissed a"
  using assms by (auto simp: seen_again_def)

lemma same_view_list_ok:
  assumes "list_ok s" "av_alerts t = av_alerts s" "av_next t = av_next s" "\<And>q. identity (av_heap t q) = identity (av_heap s q)"
    "\<And>q. al_uuid (av_heap t q) = al_uuid (av_heap s q)"
  shows "list_ok t"
  using assms(1) unfolding list_ok_def assms(2-) .

lemma handle_fold_known:
  assumes "list_ok s" "\<forall>(n, r) \<in> set xs. r \<in> set (av_alerts s) \<and> al_node (av_heap s r) = Some n"
  shows "\<exists>h. fold (\<lambda>(n, r). set_node_and_handle env n r) xs s = s\<lparr>av_heap := h\<rparr> \<and>
    (\<forall>q. seen_again (en_now env) (av_heap s q) (h q)) \<and> (\<forall>q. q \<notin> snd ` set xs \<longrightarrow> h q = av_heap s q)"
  using assms
proof (induction xs arbitrary: s)
  case Nil
  then show ?case by (intro exI [of _ "av_heap s"]) (simp add: seen_again_def)
next
  case (Cons x xs)
  obtain nd r where x: "x = (nd, r)" by (cases x)
  let ?f = "\<lambda>x. x\<lparr>al_last_occurrence := Some (en_now env)\<rparr>"
  have e: "set_node_and_handle env nd r s = upd_alert r ?f s" using handle_known Cons.prems x by auto
  have v: "seen_again (en_now env) (av_heap s q) (av_heap (upd_alert r ?f s) q)" for q by (simp add: seen_again_def)
  have l: "list_ok (upd_alert r ?f s)"
    by (rule same_view_list_ok [OF Cons.prems(1)]) (simp_all add: seen_again_same [OF v, simplified])
  have pr: "\<forall>(n, q) \<in> set xs. q \<in> set (av_alerts (upd_alert r ?f s)) \<and> al_node (av_heap (upd_alert r ?f s) q) = Some n"
    using Cons.prems(2) by auto
  obtain h where h: "fold (\<lambda>(n, r). set_node_and_handle env n r) xs (upd_alert r ?f s) = (upd_alert r ?f s)\<lparr>av_heap := h\<rparr>"
    and w: "\<forall>q. seen_again (en_now env) (av_heap (upd_alert r ?f s) q) (h q)"
    and oo: "\<forall>q. q \<notin> snd ` set xs \<longrightarrow> h q = av_heap (upd_alert r ?f s) q"
    using Cons.IH [OF l pr] by blast
  have "\<forall>q. seen_again (en_now env) (av_heap s q) (h q)"
  proof
    fix q show "seen_again (en_now env) (av_heap s q) (h q)"
      using w [rule_format, of q] by (auto simp: seen_again_def split: if_splits)
  qed
  moreover have "\<forall>q. q \<notin> snd ` set (x # xs) \<longrightarrow> h q = av_heap s q" using oo x by simp
  ultimately show ?case using e h x by (intro exI [of _ h]) (simp add: upd_alert_def)
qed

section \<open>Running a source\<close>

lemma unique_keys_props:
  "distinct (map al_key (unique_keys ks as)) \<and> set (unique_keys ks as) \<subseteq> set as \<and> al_key ` set (unique_keys ks as) \<inter> ks = {}"
  by (induction ks as rule: unique_keys.induct) auto

lemma source_result_props:
  assumes "source_result env name = Some as" "env_ok env"
  shows "distinct (map al_key as) \<and> (\<forall>a \<in> set as. al_source a = Some name \<and> al_uuid a = None)"
proof -
  have r: "distinct (map al_key bs') \<and> (\<forall>a \<in> set bs'. al_source a = Some name \<and> al_uuid a = None)"
    if "bs' = map (\<lambda>a. a\<lparr>al_source := Some name\<rparr>) (unique_keys {} bs)" "\<forall>a \<in> set bs. al_uuid a = None" for bs bs'
    using unique_keys_props [of "{}" bs] that(2) unfolding that(1) by (auto simp: comp_def)
  show ?thesis
  proof (cases "en_check env name")
    case (CheckFailed e)
    then show ?thesis using assms(1) by (auto simp: source_result_def new_alert_def no_init_def)
  next
    case (Checked bs)
    then show ?thesis using assms by (intro r [of _ bs]) (auto simp: source_result_def env_ok_def)
  qed (use assms(1) in \<open>simp add: source_result_def\<close>)
qed

lemma remote_alerts_props:
  "remote_alerts env xs = Inr as \<Longrightarrow>
     map al_key as = map ra_key xs \<and> map al_source as = map (Some \<circ> ra_source) xs \<and> (\<forall>a \<in> set as. al_uuid a = None)"
proof (induction xs arbitrary: as)
  case (Cons x xs)
  then obtain bs where "remote_alerts env xs = Inr bs" by (auto split: option.splits) (cases "remote_alerts env xs"; simp)
  with Cons show ?case by (auto simp: new_alert_def no_init_def split: option.splits)
qed simp

lemma run_other_props:
  assumes "env_ok env"
  shows "distinct (map al_key (run_other_node_alert_source env name)) \<and>
    (\<forall>a \<in> set (run_other_node_alert_source env name). al_source a = Some name \<and> al_uuid a = None)"
proof (cases "en_remote env name")
  case (RemoteAlerts xs)
  show ?thesis
  proof (cases "remote_alerts env xs")
    case (Inr as)
    have "map al_source as = map (Some \<circ> ra_source) xs" "map al_key as = map ra_key xs" "\<forall>a \<in> set as. al_uuid a = None"
      using remote_alerts_props [OF Inr] by auto
    moreover have "al_source a = Some name" if "a \<in> set as" for a
    proof -
      have "al_source a \<in> set (map al_source as)" using that by simp
      then show ?thesis unfolding calculation(1) using assms RemoteAlerts by (auto simp: env_ok_def)
    qed
    ultimately show ?thesis using assms RemoteAlerts Inr by (simp add: run_other_node_alert_source_def env_ok_def)
  qed (simp add: run_other_node_alert_source_def RemoteAlerts remote_failed_def new_alert_def no_init_def)
qed (simp_all add: run_other_node_alert_source_def remote_failed_def new_alert_def no_init_def)

end
