(* ===== verification/Alert_Invariants.thy ===== *)
theory Alert_Invariants
  imports Alert_Objects
begin

text \<open>
  Every operation of the alert service keeps its invariant.
\<close>

section \<open>Running a source\<close>

definition fresh_alerts :: "string \<Rightarrow> alert list \<Rightarrow> bool" where
  "fresh_alerts name as \<longleftrightarrow> distinct (map al_key as) \<and> (\<forall>a \<in> set as. al_source a = Some name \<and> al_uuid a = None)"

lemma run_unlocked_alloc:
  assumes "env_ok env" "run_unlocked env fi name src s = (this, other, t)"
  obtains as bs u rt se where "alloc_all as (s\<lparr>av_run_times := rt, av_source_errors := se\<rparr>) = (this, u)" "alloc_all bs u = (other, t)"
    "fresh_alerts name as" "fresh_alerts name bs"
    "source_result env name = Some as \<or> source_result env name = None \<and> as = []"
proof -
  let ?rt = "av_run_times (record_run env name s)"
  let ?se = "case en_check env name of CheckUnavailable \<Rightarrow> av_source_errors s | CheckFailed _ \<Rightarrow> insert name (av_source_errors s)
      | Checked _ \<Rightarrow> av_source_errors s - {name}"
  let ?s = "s\<lparr>av_run_times := ?rt, av_source_errors := ?se\<rparr>"
  define as where "as = (case source_result env name of None \<Rightarrow> [] | Some as \<Rightarrow> as)"
  define bs where "bs = (if fi_run_on_backup_node fi \<and> so_run_on_backup_node src then run_other_node_alert_source env name else [])"
  obtain this' u where a: "alloc_all as ?s = (this', u)" by fastforce
  obtain other' t' where b: "alloc_all bs u = (other', t')" by fastforce
  have st: "(record_run env name s)\<lparr>av_source_errors := ?se\<rparr> = ?s" "av_source_errors (record_run env name s) = av_source_errors s"
    by (simp_all add: record_run_def Let_def)
  have rs: "run_source env name s = (map_option (\<lambda>_. this') (source_result env name), u)"
    unfolding run_source_def Let_def st using a by (cases "source_result env name") (simp_all add: as_def)
  have th: "this' = []" if "source_result env name = None" using a that by (simp add: as_def)
  have "run_unlocked env fi name src s = (this', other', t')"
    using b th unfolding run_unlocked_def rs prod.case Let_def bs_def by (cases "source_result env name") (auto split: if_splits)
  then have "this' = this" "other' = other" "t' = t" using assms(2) by auto
  moreover have "fresh_alerts name as" "fresh_alerts name bs"
    using source_result_props [OF _ assms(1)] run_other_props [OF assms(1)]
    by (auto simp: as_def bs_def fresh_alerts_def split: option.splits)
  ultimately show ?thesis using that a b by (auto simp: as_def split: option.splits)
qed

lemma alloc_all_props:
  assumes "alloc_all as s = (rs, t)" "fresh_alerts name as"
  obtains h where "t = s\<lparr>av_heap := h, av_next := av_next s + length as\<rparr>" "\<And>q. q < av_next s \<Longrightarrow> h q = av_heap s q"
    "set rs = {av_next s..<av_next s + length as}" "distinct rs" "map h rs = as"
    "\<And>r. r \<in> set rs \<Longrightarrow> al_source (h r) = Some name \<and> al_uuid (h r) = None" "distinct (map (\<lambda>r. al_key (h r)) rs)"
proof -
  obtain h where rs: "rs = [av_next s..<av_next s + length as]" and t: "t = s\<lparr>av_heap := h, av_next := av_next s + length as\<rparr>"
    and h: "\<And>q. q < av_next s \<Longrightarrow> h q = av_heap s q" and m: "map h rs = as"
    by (rule alloc_all_obtain [OF assms(1)]) blast
  have "h r \<in> set (map h rs)" if "r \<in> set rs" for r using that by simp
  then have "al_source (h r) = Some name \<and> al_uuid (h r) = None" if "r \<in> set rs" for r
    using that assms(2) unfolding fresh_alerts_def m by blast
  moreover have "map (\<lambda>r. al_key (h r)) rs = map al_key as" unfolding m [symmetric] by simp
  moreover have "distinct (map al_key as)" "set rs = {av_next s..<av_next s + length as}" "distinct rs"
    using assms(2) rs by (simp_all add: fresh_alerts_def)
  ultimately show ?thesis using that [OF t h _ _ m] by metis
qed

text \<open>New objects for the alerts of both nodes, and nothing else that the invariant sees.\<close>

lemma run_unlocked_result:
  assumes "env_ok env" "run_unlocked env fi name src s = (this, other, t)"
  shows "\<exists>h n rt se. t = s\<lparr>av_heap := h, av_next := n, av_run_times := rt, av_source_errors := se\<rparr> \<and> av_next s \<le> n \<and>
    (\<forall>q < av_next s. h q = av_heap s q) \<and> distinct (this @ other) \<and>
    (\<forall>r \<in> set this \<union> set other. av_next s \<le> r \<and> r < n \<and> al_source (h r) = Some name) \<and>
    (\<forall>r. av_next s \<le> r \<longrightarrow> r < n \<longrightarrow> al_uuid (h r) = None) \<and>
    distinct (map (\<lambda>r. al_key (h r)) this) \<and> distinct (map (\<lambda>r. al_key (h r)) other) \<and>
    (\<forall>as. source_result env name = Some as \<longrightarrow> map h this = as)"
proof -
  obtain as bs u rt se where a: "alloc_all as (s\<lparr>av_run_times := rt, av_source_errors := se\<rparr>) = (this, u)" and b: "alloc_all bs u = (other, t)"
    and fr: "fresh_alerts name as" "fresh_alerts name bs" and sr: "source_result env name = Some as \<or> source_result env name = None \<and> as = []"
    by (rule run_unlocked_alloc [OF assms])
  let ?s = "s\<lparr>av_run_times := rt, av_source_errors := se\<rparr>"
  obtain h where u0: "u = ?s\<lparr>av_heap := h, av_next := av_next ?s + length as\<rparr>"
    and h0: "\<And>q. q < av_next ?s \<Longrightarrow> h q = av_heap ?s q" and th0: "set this = {av_next ?s..<av_next ?s + length as}" "distinct this" "map h this = as"
    "\<And>r. r \<in> set this \<Longrightarrow> al_source (h r) = Some name \<and> al_uuid (h r) = None" "distinct (map (\<lambda>r. al_key (h r)) this)"
    by (rule alloc_all_props [OF a fr(1)]) blast
  have u: "u = s\<lparr>av_heap := h, av_next := av_next s + length as, av_run_times := rt, av_source_errors := se\<rparr>"
    using u0 by simp
  have h: "h q = av_heap s q" if "q < av_next s" for q using h0 that by simp
  have th: "set this = {av_next s..<av_next s + length as}" "distinct this" "map h this = as"
    "\<And>r. r \<in> set this \<Longrightarrow> al_source (h r) = Some name \<and> al_uuid (h r) = None" "distinct (map (\<lambda>r. al_key (h r)) this)"
    using th0 by simp_all
  let ?n = "av_next s + length as + length bs"
  obtain h' where t: "t = u\<lparr>av_heap := h', av_next := av_next u + length bs\<rparr>" and h': "\<And>q. q < av_next u \<Longrightarrow> h' q = av_heap u q"
    and ot: "set other = {av_next u..<av_next u + length bs}" "distinct other" "map h' other = bs"
    "\<And>r. r \<in> set other \<Longrightarrow> al_source (h' r) = Some name \<and> al_uuid (h' r) = None" "distinct (map (\<lambda>r. al_key (h' r)) other)"
    by (rule alloc_all_props [OF b fr(2)]) blast
  have e: "h' r = h r" if "r \<in> set this" for r using that th(1) h' [of r] u by simp
  have o: "h' q = av_heap s q" if "q < av_next s" for q using that h h' [of q] u by simp
  have "t = s\<lparr>av_heap := h', av_next := ?n, av_run_times := rt, av_source_errors := se\<rparr>" using t u by simp
  moreover have "distinct (this @ other)" using th(1,2) ot(1,2) u by auto
  moreover have "\<forall>r \<in> set this \<union> set other. av_next s \<le> r \<and> r < ?n \<and> al_source (h' r) = Some name"
    using th(1,4) ot(1,4) e u by auto
  moreover have "al_uuid (h' r) = None" if "av_next s \<le> r" "r < ?n" for r
  proof -
    have "r \<in> set this \<or> r \<in> set other" using that th(1) ot(1) u by auto
    then show ?thesis using th(4) ot(4) e by auto
  qed
  moreover have "distinct (map (\<lambda>r. al_key (h' r)) this)" "map h' this = as" using th(3,5) e by (simp_all cong: map_cong)
  ultimately show ?thesis using o ot(5) sr by (intro exI [of _ h'] exI [of _ ?n] exI [of _ rt] exI [of _ se]) auto
qed

text \<open>What running a source leaves alone, and what it keeps of the alerts that are there again.\<close>

definition run_effect :: "string \<Rightarrow> alert_state \<Rightarrow> alert_state \<Rightarrow> bool" where
  "run_effect name s t \<longleftrightarrow> grows s t \<and> av_policies t = av_policies s \<and> av_blocked t = av_blocked s \<and> av_locks t = av_locks s \<and> av_events t = av_events s \<and>
     (\<forall>r < av_next s. al_source (av_heap t r) = al_source (av_heap s r) \<and> (al_source (av_heap s r) \<noteq> Some name \<longrightarrow> av_heap t r = av_heap s r)) \<and>
     (\<forall>r. al_source (av_heap t r) \<noteq> Some name \<longrightarrow> (r \<in> set (av_alerts t) \<longleftrightarrow> r \<in> set (av_alerts s))) \<and>
     (\<forall>q \<in> set (av_alerts s). \<forall>r \<in> set (av_alerts t). identity (av_heap s q) = identity (av_heap t r) \<longrightarrow> keeps (av_heap s q) (av_heap t r))"

lemma uuids_ok_from:
  assumes "uuids_ok U s" "\<And>r. r < n \<Longrightarrow> al_uuid (h r) = None \<or>
      (\<exists>q < av_next s. al_uuid (h r) = al_uuid (av_heap s q) \<and> identity (h r) = identity (av_heap s q))"
  shows "uuids_agree U h n (av_next_uuid s)"
proof -
  have old: "\<exists>q < av_next s. al_uuid (av_heap s q) = Some u \<and> identity (h r) = identity (av_heap s q)"
    if "r < n" "al_uuid (h r) = Some u" for r u
    using that assms(2) by (metis option.distinct(1))
  show ?thesis unfolding uuids_agree_def
  proof (intro conjI allI impI)
    fix r u assume "r < n" "al_uuid (h r) = Some u"
    then show "u \<notin> U ` {av_next_uuid s..}" using uuids_okD(1) [OF assms(1)] old by blast
  next
    fix r q u assume "r < n" "q < n" "al_uuid (h r) = Some u" "al_uuid (h q) = Some u"
    then show "identity (h r) = identity (h q)" using uuids_okD(2) [OF assms(1)] old by metis
  qed
qed

lemma with_node_distinct: "distinct (map (\<lambda>r. al_key (h r)) rs) \<Longrightarrow> distinct (map (\<lambda>r. with_node n (h r)) rs)"
  by (induction rs) (auto simp: with_node_def)

lemma identity_source: "identity a = identity b \<Longrightarrow> al_source a = al_source b"
  by (simp add: identity_def)

lemma run_one_unlocked:
  assumes inv: "alert_inv U s" and env: "env_ok env" "en_uuid env = U" and fi: "fi_this_node fi \<noteq> fi_other_node fi"
    and run: "\<not> skip_source env fi name src s" "av_blocked s name = {}"
  shows "alert_inv U (run_one env fi name src s) \<and> run_effect name s (run_one env fi name src s)"
proof -
  let ?s = "s\<lparr>av_last_run := AList.update name (en_now env) (av_last_run s)\<rparr>"
  obtain this other u where u: "run_unlocked env fi name src ?s = (this, other, u)" by (metis prod.exhaust)
  obtain h n rt se where u': "u = ?s\<lparr>av_heap := h, av_next := n, av_run_times := rt, av_source_errors := se\<rparr>" and n: "av_next s \<le> n"
    and h: "\<And>q. q < av_next s \<Longrightarrow> h q = av_heap s q" and d: "distinct (this @ other)"
    and new: "\<And>r. r \<in> set this \<union> set other \<Longrightarrow> av_next s \<le> r \<and> r < n \<and> al_source (h r) = Some name"
    and no: "\<forall>r. av_next s \<le> r \<longrightarrow> r < n \<longrightarrow> al_uuid (h r) = None"
    and k: "distinct (map (\<lambda>r. al_key (h r)) this)" "distinct (map (\<lambda>r. al_key (h r)) other)"
    using run_unlocked_result [OF env(1) u] by auto
  let ?xs = "zip_nodes fi this other"
  have old: "r < av_next s" "h r = av_heap s r" "r \<notin> set this \<union> set other" "r < n" if "r \<in> set (av_alerts s)" for r
    using alert_invD(2) [OF inv] that h new [of r] n by (fastforce simp: list_ok_def)+
  have lo: "list_ok u" using alert_invD(2) [OF inv] old n u' by (auto simp: list_ok_def cong: map_cong)
  have "al_uuid (h r) = None \<or> (\<exists>q < av_next s. al_uuid (h r) = al_uuid (av_heap s q) \<and> identity (h r) = identity (av_heap s q))"
    if "r < n" for r using that h [of r] no by (metis leI)
  then have uo: "uuids_ok U u" using uuids_ok_from [OF alert_invD(1) [OF inv], of n h] u' by (simp add: uuids_ok_def)
  have xs: "snd ` set ?xs = set this \<union> set other" by (auto simp: zip_nodes_set image_Un image_image)
  have inj: "inj U" using env by (simp add: env_ok_def)
  have fresh: "\<forall>(m, r) \<in> set ?xs. r < av_next u \<and> r \<notin> set (av_alerts u)"
    using new old(3) u' by (auto simp: zip_nodes_set)
  obtain h' n' where f: "fold (\<lambda>(n, r). set_node_and_handle env n r) ?xs u = u\<lparr>av_heap := h', av_next_uuid := n'\<rparr>"
    and n': "av_next_uuid u \<le> n'" and uo': "uuids_ok U (u\<lparr>av_heap := h', av_next_uuid := n'\<rparr>)"
    and h': "\<forall>q. q \<notin> snd ` set ?xs \<longrightarrow> h' q = av_heap u q"
    and id: "\<forall>(m, r) \<in> set ?xs. identity (h' r) = with_node m (av_heap u r) \<and> al_uuid (h' r) \<noteq> None \<and>
       (\<forall>q \<in> set (av_alerts u). identity (av_heap u q) = identity (h' r) \<longrightarrow> keeps (av_heap u q) (h' r))"
    using handle_fold_new [OF inj env(2) uo lo fresh zip_nodes_distinct [OF d]] by blast
  have h'old: "h' r = av_heap s r" if "r < av_next s" for r using h' h [OF that] new [of r] that xs u' by force
  let ?keep = "filter (\<lambda>r. al_source (av_heap s r) \<noteq> Some name) (av_alerts s)"
  let ?t = "s\<lparr>av_last_run := AList.update name (en_now env) (av_last_run s), av_heap := h', av_next := n, av_run_times := rt,
      av_source_errors := se, av_next_uuid := n', av_alerts := ?keep @ this @ other\<rparr>"
  have "filter (\<lambda>r. \<not> of_source name (u\<lparr>av_heap := h', av_next_uuid := n'\<rparr>) r) (av_alerts s) = ?keep"
    by (rule filter_cong) (simp_all add: of_source_def h'old old(1))
  then have t: "run_one env fi name src s = ?t"
    using run f u' by (simp add: run_one_def u handle_pairs_fold)
  have in_xs: "(fi_this_node fi, r) \<in> set ?xs" if "r \<in> set this" for r using that by (simp add: zip_nodes_set)
  have in_xs': "(fi_other_node fi, r) \<in> set ?xs" if "r \<in> set other" for r using that by (simp add: zip_nodes_set)
  have uh: "av_heap u = h" "av_alerts u = av_alerts s" using u' by simp_all
  have both: "identity (h' r) = with_node (fi_this_node fi) (h r)" "al_uuid (h' r) \<noteq> None" if "r \<in> set this" for r
    using bspec [OF id in_xs [OF that]] uh by auto
  have both': "identity (h' r) = with_node (fi_other_node fi) (h r)" "al_uuid (h' r) \<noteq> None" if "r \<in> set other" for r
    using bspec [OF id in_xs' [OF that]] uh by auto
  have kp: "keeps (av_heap s q) (h' r)" if rq: "r \<in> set this \<union> set other" "q \<in> set (av_alerts s)" "identity (av_heap s q) = identity (h' r)" for q r
  proof -
    obtain m where "(m, r) \<in> set ?xs" using rq(1) in_xs in_xs' by blast
    from bspec [OF id this] have "\<forall>q \<in> set (av_alerts s). identity (h q) = identity (h' r) \<longrightarrow> keeps (h q) (h' r)"
      unfolding uh prod.case by blast
    from bspec [OF this rq(2)] show ?thesis unfolding old(2) [OF rq(2)] using rq(3) by blast
  qed
  have src: "al_source (h' r) = Some name" if "r \<in> set this \<union> set other" for r
    using that both(1) both'(1) new [OF that] by (auto simp: identity_def with_node_def)
  have "distinct (map (\<lambda>r. identity (h' r)) (?keep @ this @ other))"
  proof -
    have "distinct (map (\<lambda>r. identity (h' r)) ?keep)"
      using alert_invD(2) [OF inv] h'old old(1) by (auto simp: list_ok_def distinct_map inj_on_def)
    moreover have "distinct (map (\<lambda>r. identity (h' r)) this)"
      using with_node_distinct [OF k(1)] both(1) by (simp cong: map_cong)
    moreover have "distinct (map (\<lambda>r. identity (h' r)) other)"
      using with_node_distinct [OF k(2)] both'(1) by (simp cong: map_cong)
    moreover have "identity (h' r) \<noteq> identity (h' q)" if "r \<in> set this" "q \<in> set other" for r q
      using both(1) [OF that(1)] both'(1) [OF that(2)] fi by (simp add: with_node_def)
    moreover have "identity (h' r) \<noteq> identity (h' q)" if "r \<in> set ?keep" "q \<in> set this \<union> set other" for r q
      using identity_source [of "h' r" "h' q"] src [OF that(2)] h'old [of r] old(1) [of r] that(1) by auto
    ultimately show ?thesis by (simp add: image_iff disjoint_iff) (metis (no_types, lifting))
  qed
  then have "list_ok ?t" using alert_invD(2) [OF inv] both(2) both'(2) new old(1,4) h'old
    by (auto simp: list_ok_def)
  moreover have gr: "grows s ?t" using h'old n n' u' by (simp add: grows_def)
  moreover have "policies_ok ?t" using grows_policies [OF gr alert_invD(3) [OF inv]] by simp
  moreover have "uuids_ok U ?t" using uo' u' by (simp add: uuids_ok_def)
  moreover have "run_effect name s ?t" unfolding run_effect_def
  proof (intro conjI ballI allI impI)
    fix r assume "al_source (av_heap ?t r) \<noteq> Some name"
    then show "r \<in> set (av_alerts ?t) \<longleftrightarrow> r \<in> set (av_alerts s)" using src [of r] h'old [of r] old(1) [of r] by auto
  next
    fix q r assume q: "q \<in> set (av_alerts s)" and r: "r \<in> set (av_alerts ?t)" and e: "identity (av_heap s q) = identity (av_heap ?t r)"
    show "keeps (av_heap s q) (av_heap ?t r)"
    proof (cases "r \<in> set this \<union> set other")
      case True
      then show ?thesis using kp [OF _ q] e by simp
    next
      case False
      then have ra: "r \<in> set (av_alerts s)" using r by auto
      then have "q = r" using list_ok_unique [OF alert_invD(2) [OF inv] q ra] e h'old [OF old(1) [OF ra]] by simp
      then show ?thesis using h'old [OF old(1) [OF ra]] by (simp add: keeps_def)
    qed
  qed (use gr h'old in simp_all)
  ultimately show ?thesis unfolding t alert_inv_def by blast
qed

lemma run_one_locked:
  assumes inv: "alert_inv U s" and run: "\<not> skip_source env fi name src s" "av_blocked s name \<noteq> {}"
  shows "\<exists>h rs. run_one env fi name src s = s\<lparr>av_last_run := AList.update name (en_now env) (av_last_run s), av_heap := h, av_alerts := rs\<rparr> \<and>
    (\<forall>r. seen_again (en_now env) (av_heap s r) (h r)) \<and> distinct rs \<and>
    set rs = {r \<in> set (av_alerts s). al_source (av_heap s r) = Some name \<longrightarrow> al_node (av_heap s r) \<in> {Some (fi_this_node fi), Some (fi_other_node fi)}} \<and>
    (\<forall>r. al_source (av_heap s r) \<noteq> Some name \<longrightarrow> h r = av_heap s r)"
proof -
  let ?s = "s\<lparr>av_last_run := AList.update name (en_now env) (av_last_run s)\<rparr>"
  obtain this other where lk: "handle_locked_alert_source name (fi_this_node fi) (fi_other_node fi) ?s = (this, other)" by (metis prod.exhaust)
  have this': "this = filter (\<lambda>r. al_source (av_heap s r) = Some name \<and> al_node (av_heap s r) = Some (fi_this_node fi)) (av_alerts s)"
    and other': "other = filter (\<lambda>r. al_source (av_heap s r) = Some name \<and> al_node (av_heap s r) \<noteq> Some (fi_this_node fi) \<and>
      al_node (av_heap s r) = Some (fi_other_node fi)) (av_alerts s)"
    using lk by (auto simp: handle_locked_alert_source_def of_source_def Let_def conj_ac)
  have l: "list_ok ?s" using alert_invD(2) [OF inv] by (simp add: list_ok_def)
  let ?xs = "zip_nodes fi this other"
  have xs: "\<forall>(n, r) \<in> set ?xs. r \<in> set (av_alerts ?s) \<and> al_node (av_heap ?s r) = Some n"
    by (auto simp: zip_nodes_set this' other')
  obtain h where f: "fold (\<lambda>(n, r). set_node_and_handle env n r) ?xs ?s = ?s\<lparr>av_heap := h\<rparr>"
    and h: "\<And>q. seen_again (en_now env) (av_heap s q) (h q)" "\<And>q. q \<notin> snd ` set ?xs \<Longrightarrow> h q = av_heap s q"
    using handle_fold_known [OF l xs, of env] by auto
  have src: "al_source (h r) = al_source (av_heap s r)" for r using seen_again_same [OF h(1)] by blast
  have "snd ` set ?xs = set this \<union> set other" by (auto simp: zip_nodes_set image_Un image_image)
  then have oth: "h r = av_heap s r" if "al_source (av_heap s r) \<noteq> Some name" for r
    using that by (intro h(2)) (simp add: this' other')
  let ?rs = "filter (\<lambda>r. al_source (av_heap s r) \<noteq> Some name) (av_alerts s) @ this @ other"
  have "run_one env fi name src s = s\<lparr>av_last_run := AList.update name (en_now env) (av_last_run s), av_heap := h, av_alerts := ?rs\<rparr>"
    using run by (simp add: run_one_def lk handle_pairs_fold f of_source_def src)
  moreover have "distinct ?rs" using alert_invD(2) [OF inv] by (auto simp: list_ok_def distinct_map this' other')
  ultimately show ?thesis using h(1) oth by (intro exI [of _ h] exI [of _ ?rs]) (auto simp: this' other')
qed

lemma sublist_inv:
  assumes "alert_inv U s" "distinct rs" "set rs \<subseteq> set (av_alerts s)"
  shows "alert_inv U (s\<lparr>av_alerts := rs\<rparr>)"
proof -
  have "distinct (map (\<lambda>r. identity (av_heap s r)) rs)"
    using alert_invD(2) [OF assms(1)] assms(2,3) by (auto simp: list_ok_def distinct_map intro: inj_on_subset)
  moreover have "\<forall>r \<in> set rs. r < av_next s \<and> al_uuid (av_heap s r) \<noteq> None"
    using alert_invD(2) [OF assms(1)] assms(3) by (auto simp: list_ok_def)
  ultimately show ?thesis using alert_invD(1,3) [OF assms(1)]
    by (simp add: alert_inv_def uuids_ok_def list_ok_def policies_ok_def policy_ok_def)
qed

lemma run_effect_refl:
  assumes "list_ok s"
  shows "run_effect name s s"
  using list_ok_unique [OF assms] by (auto simp: run_effect_def keeps_def)

lemma run_one_effect:
  assumes inv: "alert_inv U s" and env: "env_ok env" "en_uuid env = U" and fi: "fi_this_node fi \<noteq> fi_other_node fi"
  shows "alert_inv U (run_one env fi name src s) \<and> run_effect name s (run_one env fi name src s)"
proof (cases "skip_source env fi name src s")
  case True
  then show ?thesis using inv run_effect_refl [OF alert_invD(2) [OF inv]] by (simp add: run_one_def)
next
  case run: False
  show ?thesis
  proof (cases "av_blocked s name = {}")
    case True
    then show ?thesis by (rule run_one_unlocked [OF assms run])
  next
    case False
    then obtain h rs where t: "run_one env fi name src s = s\<lparr>av_last_run := AList.update name (en_now env) (av_last_run s), av_heap := h, av_alerts := rs\<rparr>"
      and h: "\<And>r. seen_again (en_now env) (av_heap s r) (h r)" and rs: "distinct rs" "set rs \<subseteq> set (av_alerts s)"
        "\<And>r. r \<in> set (av_alerts s) \<Longrightarrow> al_source (av_heap s r) \<noteq> Some name \<Longrightarrow> r \<in> set rs"
      and oth: "\<And>r. al_source (av_heap s r) \<noteq> Some name \<Longrightarrow> h r = av_heap s r"
      using run_one_locked [OF inv run False] by auto
    let ?s = "s\<lparr>av_last_run := AList.update name (en_now env) (av_last_run s), av_heap := h\<rparr>"
    note same = seen_again_same [OF h]
    have "alert_inv U ?s" by (rule same_view_inv [OF inv]) (simp_all add: same)
    then have "alert_inv U (run_one env fi name src s)" using sublist_inv [of U ?s rs] rs(1,2) t by simp
    moreover have "keeps (av_heap s q) (h r)" if "q \<in> set (av_alerts s)" "r \<in> set rs" "identity (av_heap s q) = identity (h r)" for q r
    proof -
      have "q = r" using list_ok_unique [OF alert_invD(2) [OF inv] that(1), of r] that(2,3) rs(2) same(1) by auto
      then show ?thesis using h [of r] by (auto simp: seen_again_def keeps_def)
    qed
    then have "run_effect name s (run_one env fi name src s)" unfolding t run_effect_def using rs(2,3) oth same
      by (auto simp: grows_def)
    ultimately show ?thesis by blast
  qed
qed

section \<open>Running all sources\<close>

text \<open>What a round of runs keeps: the alerts that were there and are there again keep their uuid.\<close>

definition round_effect :: "string set \<Rightarrow> alert_state \<Rightarrow> alert_state \<Rightarrow> bool" where
  "round_effect names s t \<longleftrightarrow> grows s t \<and> av_policies t = av_policies s \<and> av_blocked t = av_blocked s \<and> av_locks t = av_locks s \<and> av_events t = av_events s \<and>
     (\<forall>r < av_next s. al_source (av_heap t r) = al_source (av_heap s r) \<and>
        (al_source (av_heap s r) \<notin> Some ` names \<longrightarrow> av_heap t r = av_heap s r)) \<and>
     (\<forall>r. al_source (av_heap t r) \<notin> Some ` names \<longrightarrow> (r \<in> set (av_alerts t) \<longleftrightarrow> r \<in> set (av_alerts s))) \<and>
     (\<forall>q \<in> set (av_alerts s). \<forall>r \<in> set (av_alerts t). identity (av_heap s q) = identity (av_heap t r) \<longrightarrow> keeps (av_heap s q) (av_heap t r))"

lemma alert_ref_lt: "alert_inv U s \<Longrightarrow> r \<in> set (av_alerts s) \<Longrightarrow> r < av_next s"
  by (simp add: alert_inv_def list_ok_def)

lemma round_effect_Cons:
  assumes inv: "alert_inv U s" "alert_inv U t" "alert_inv U u" and one: "run_effect name s t" and rest: "round_effect names t u" "name \<notin> names"
  shows "round_effect (insert name names) s u"
proof -
  have g: "grows s t" "grows t u" and n: "av_next s \<le> av_next t" using one rest(1) by (auto simp: run_effect_def round_effect_def grows_def)
  have h1: "al_source (av_heap t r) = al_source (av_heap s r)" "al_source (av_heap s r) \<noteq> Some name \<Longrightarrow> av_heap t r = av_heap s r"
    if "r < av_next s" for r using one that by (auto simp: run_effect_def)
  have h2: "al_source (av_heap u r) = al_source (av_heap t r)" "al_source (av_heap t r) \<notin> Some ` names \<Longrightarrow> av_heap u r = av_heap t r"
    if "r < av_next t" for r using rest(1) that by (auto simp: round_effect_def)
  have m1: "r \<in> set (av_alerts t) \<longleftrightarrow> r \<in> set (av_alerts s)" if "al_source (av_heap t r) \<noteq> Some name" for r
    using one that by (auto simp: run_effect_def)
  have m2: "r \<in> set (av_alerts u) \<longleftrightarrow> r \<in> set (av_alerts t)" if "al_source (av_heap u r) \<notin> Some ` names" for r
    using rest(1) that unfolding round_effect_def by blast
  note lt = alert_ref_lt [OF inv(1)] alert_ref_lt [OF inv(2)] alert_ref_lt [OF inv(3)]
  have "keeps (av_heap s q) (av_heap u r)"
    if q: "q \<in> set (av_alerts s)" and r: "r \<in> set (av_alerts u)" and e: "identity (av_heap s q) = identity (av_heap u r)" for q r
  proof (cases "al_source (av_heap s q) = Some name")
    case True
    then have "al_source (av_heap u r) \<notin> Some ` names" using identity_source [OF e] rest(2) by auto
    then have rt: "r \<in> set (av_alerts t)" using m2 r by blast
    have "av_heap u r = av_heap t r" using h2 [OF lt(2) [OF rt]] \<open>al_source (av_heap u r) \<notin> Some ` names\<close> by simp
    then show ?thesis using one q rt e by (simp add: run_effect_def)
  next
    case False
    note ht = h1(2) [OF lt(1) [OF q] False]
    then have "q \<in> set (av_alerts t)" using m1 [of q] False q by simp
    then show ?thesis using rest(1) r e ht unfolding round_effect_def by metis
  qed
  moreover have "r \<in> set (av_alerts u) \<longleftrightarrow> r \<in> set (av_alerts s)" if "al_source (av_heap u r) \<notin> Some ` insert name names" for r
  proof -
    have "r \<in> set (av_alerts u) \<longleftrightarrow> r \<in> set (av_alerts t)" using m2 [of r] that by simp
    moreover have "r \<in> set (av_alerts t) \<longleftrightarrow> r \<in> set (av_alerts s)" if "r < av_next t"
      using m1 [of r] h2(1) [OF that] \<open>al_source (av_heap u r) \<notin> Some ` insert name names\<close> by simp
    ultimately show ?thesis using lt(1,2) [of r] n by fastforce
  qed
  moreover have "av_heap u r = av_heap s r" if "r < av_next s" "al_source (av_heap s r) \<notin> Some ` insert name names" for r
    using that h1 [of r] h2 [of r] n by simp
  ultimately show ?thesis using grows_trans [OF g] one rest(1) h1(1) h2(1) n unfolding run_effect_def round_effect_def by simp
qed

lemma run_sources_effect:
  assumes "alert_inv U s" "env_ok env" "en_uuid env = U" "fi_this_node fi \<noteq> fi_other_node fi" "distinct (map fst xs)"
  shows "alert_inv U (run_sources env fi xs s) \<and> round_effect (fst ` set xs) s (run_sources env fi xs s)"
  using assms(1,5)
proof (induction xs arbitrary: s)
  case Nil
  then show ?case using list_ok_unique [OF alert_invD(2) [OF Nil.prems(1)]] by (auto simp: round_effect_def keeps_def)
next
  case (Cons x xs)
  obtain name src where x: "x = (name, src)" by (cases x)
  let ?t = "run_one env fi name src s"
  have one: "alert_inv U ?t" "run_effect name s ?t" using run_one_effect [OF Cons.prems(1) assms(2-4)] by auto
  have ih: "alert_inv U (run_sources env fi xs ?t)" "round_effect (fst ` set xs) ?t (run_sources env fi xs ?t)"
    using Cons.IH [OF one(1)] Cons.prems(2) by auto
  then show ?case using round_effect_Cons [OF Cons.prems(1) one(1) ih(1) one(2) ih(2)] Cons.prems(2) x by simp
qed

lemma failover_nodes: "fi_this_node (get_failover_info env s) \<noteq> fi_other_node (get_failover_info env s)"
  by (simp add: get_failover_info_def Let_def)

lemma unblock_source_ex: "\<exists>lk bl. unblock_source k s = s\<lparr>av_locks := lk, av_blocked := bl\<rparr>"
proof (cases "map_of (av_locks s) k")
  case None
  then show ?thesis by (intro exI [of _ "av_locks s"] exI [of _ "av_blocked s"]) (simp add: unblock_source_def)
next
  case (Some l)
  show ?thesis unfolding unblock_source_def Some option.case by blast
qed

lemma unblock_expired_ex: "\<exists>lk bl. unblock_expired t ls s = s\<lparr>av_locks := lk, av_blocked := bl\<rparr>"
proof (induction t ls s rule: unblock_expired.induct)
  case (1 t s)
  show ?case by (intro exI [of _ "av_locks s"] exI [of _ "av_blocked s"]) simp
next
  case (2 t k l ls s)
  obtain lk bl where "unblock_source k s = s\<lparr>av_locks := lk, av_blocked := bl\<rparr>" using unblock_source_ex [of k s] by blast
  with 2 show ?case by (cases "sl_expires_at l \<le> t") auto
qed

lemma unblock_expired_inv:
  assumes "alert_inv U s"
  shows "alert_inv U (unblock_expired t ls s)"
proof -
  obtain lk bl where "unblock_expired t ls s = s\<lparr>av_locks := lk, av_blocked := bl\<rparr>" using unblock_expired_ex by blast
  then show ?thesis by (intro same_view_inv [OF assms]) simp_all
qed

lemma run_alerts_effect:
  assumes "alert_inv U s" "env_ok env" "en_uuid env = U"
  shows "alert_inv U (run_alerts env s) \<and>
    round_effect (fst ` set (en_sources env)) (unblock_expired (en_monotonic env) (av_locks s) s) (run_alerts env s)"
  using run_sources_effect [OF unblock_expired_inv [OF assms(1)] assms(2,3) failover_nodes, of "en_sources env"] assms(2)
  by (simp add: run_alerts_def Let_def env_ok_def dict_wf_def)

lemma run_alerts_grows:
  assumes "alert_inv U s" "env_ok env" "en_uuid env = U"
  shows "grows s (run_alerts env s)" "av_policies (run_alerts env s) = av_policies s" "av_events (run_alerts env s) = av_events s"
proof -
  obtain lk bl where u: "unblock_expired (en_monotonic env) (av_locks s) s = s\<lparr>av_locks := lk, av_blocked := bl\<rparr>"
    using unblock_expired_ex by blast
  have "grows s (s\<lparr>av_locks := lk, av_blocked := bl\<rparr>)" by (simp add: grows_def)
  then show "grows s (run_alerts env s)" "av_policies (run_alerts env s) = av_policies s" "av_events (run_alerts env s) = av_events s"
    using run_alerts_effect [OF assms] unfolding u round_effect_def by (auto intro: grows_trans)
qed

lemma unblock_source_locks: "dict_wf (av_locks s) \<Longrightarrow> dict_wf (av_locks (unblock_source k s))"
  by (simp add: unblock_source_def py_dict.wf_pop split: option.splits)

lemma unblock_expired_locks: "dict_wf (av_locks s) \<Longrightarrow> dict_wf (av_locks (unblock_expired t ls s))"
  by (induction t ls s rule: unblock_expired.induct) (simp_all add: unblock_source_locks)

lemma run_alerts_locks:
  assumes "alert_inv U s" "env_ok env" "en_uuid env = U" "dict_wf (av_locks s)"
  shows "dict_wf (av_locks (run_alerts env s))"
  using run_alerts_effect [OF assms(1-3)] unblock_expired_locks [OF assms(4)] by (simp add: round_effect_def)

lemma list_ok_distinct: "list_ok s \<Longrightarrow> distinct (av_alerts s)"
  by (auto simp: list_ok_def distinct_map)

lemma expire_alerts_inv: "alert_inv U s \<Longrightarrow> alert_inv U (expire_alerts env s)"
  unfolding expire_alerts_def by (rule sublist_inv) (auto intro: distinct_filter list_ok_distinct alert_invD(2))

lemma copies_inv:
  assumes "alert_inv U s" "alloc_all as s = (rs, t)" "distinct (map identity as)"
    "\<And>a. a \<in> set as \<Longrightarrow> al_uuid a \<noteq> None \<and> (\<exists>q < av_next s. al_uuid a = al_uuid (av_heap s q) \<and> identity a = identity (av_heap s q))"
  shows "alert_inv U (t\<lparr>av_alerts := rs\<rparr>)"
proof -
  obtain h where rs: "rs = [av_next s..<av_next s + length as]" and t: "t = s\<lparr>av_heap := h, av_next := av_next s + length as\<rparr>"
    and h: "\<And>q. q < av_next s \<Longrightarrow> h q = av_heap s q" and m: "map h rs = as"
    by (rule alloc_all_obtain [OF assms(2)]) blast
  have a: "h r \<in> set as" if "r \<in> set rs" for r
  proof -
    have "h r \<in> set (map h rs)" using that by simp
    then show ?thesis unfolding m .
  qed
  have "al_uuid (h r) = None \<or> (\<exists>q < av_next s. al_uuid (h r) = al_uuid (av_heap s q) \<and> identity (h r) = identity (av_heap s q))"
    if "r < av_next s + length as" for r
  proof (cases "r < av_next s")
    case True
    then show ?thesis using h [of r] by auto
  next
    case False
    then have "r \<in> set rs" using that rs by simp
    then show ?thesis using assms(4) [OF a] by blast
  qed
  then have "uuids_ok U (t\<lparr>av_alerts := rs\<rparr>)" using uuids_ok_from [OF alert_invD(1) [OF assms(1)]] t by (simp add: uuids_ok_def)
  moreover have "map (\<lambda>r. identity (h r)) rs = map identity as" unfolding m [symmetric] by simp
  then have "list_ok (t\<lparr>av_alerts := rs\<rparr>)" using assms(3) assms(4) [OF a] t rs by (simp add: list_ok_def)
  moreover have "grows s (t\<lparr>av_alerts := rs\<rparr>)" using t h by (simp add: grows_def)
  then have "policies_ok (t\<lparr>av_alerts := rs\<rparr>)" using grows_policies [OF _ alert_invD(3) [OF assms(1)]] t by simp
  ultimately show ?thesis by (simp add: alert_inv_def)
qed

lemma process_alerts_inv:
  assumes "alert_inv U s" "env_ok env" "en_uuid env = U"
  shows "alert_inv U (process_alerts env s)"
proof -
  let ?t = "expire_alerts env (run_alerts env s)"
  have t: "alert_inv U ?t" using run_alerts_effect [OF assms] expire_alerts_inv by blast
  have g: "grows s ?t" using run_alerts_grows(1) [OF assms] by (simp add: grows_def expire_alerts_def)
  obtain rs u where al: "alloc_all (map (av_heap s) (av_alerts s)) ?t = (rs, u)" by (metis prod.exhaust)
  have "alert_inv U (u\<lparr>av_alerts := rs\<rparr>)"
  proof (rule copies_inv [OF t al])
    show "distinct (map identity (map (av_heap s) (av_alerts s)))" using alert_invD(2) [OF assms(1)] by (simp add: list_ok_def comp_def)
    fix a assume "a \<in> set (map (av_heap s) (av_alerts s))"
    then obtain r where r: "r \<in> set (av_alerts s)" "a = av_heap s r" by auto
    have "r < av_next s" "al_uuid a \<noteq> None" using alert_invD(2) [OF assms(1)] r by (auto simp: list_ok_def)
    moreover have "r < av_next ?t" "al_uuid a = al_uuid (av_heap ?t r)" "identity a = identity (av_heap ?t r)"
      using g calculation(1) r(2) unfolding grows_def by auto
    ultimately show "al_uuid a \<noteq> None \<and> (\<exists>q < av_next ?t. al_uuid a = al_uuid (av_heap ?t q) \<and> identity a = identity (av_heap ?t q))" by blast
  qed
  moreover have "alert_inv U (submit_send ?t)" by (rule same_view_inv [OF t]) (simp_all add: submit_send_def)
  ultimately show ?thesis using assms(1) al by (simp add: process_alerts_def Let_def)
qed

section \<open>Dismissing and restoring\<close>

lemma remove_equal_props:
  "remove_equal h r qs = Some rs \<Longrightarrow> set rs \<subseteq> set qs \<and> (distinct qs \<longrightarrow> distinct rs)"
  by (induction qs arbitrary: rs) (auto split: if_splits)

lemma policies_update:
  assumes "alert_inv U s" "map po_kind ps = map po_kind (av_policies s)" "\<And>p. p \<in> set ps \<Longrightarrow> policy_ok s p"
  shows "alert_inv U (s\<lparr>av_policies := ps\<rparr>)"
proof -
  have e: "policy_ok (s\<lparr>av_policies := ps\<rparr>) = policy_ok s" by (rule ext) (simp add: policy_ok_def)
  have "policies_ok (s\<lparr>av_policies := ps\<rparr>)" unfolding policies_ok_def e using assms alert_invD(3) by (simp add: policies_ok_def)
  then show ?thesis using alert_invD(1,2) [OF assms(1)] by (simp add: alert_inv_def uuids_ok_def list_ok_def)
qed

lemma delete_policy_ok:
  assumes "policy_ok s p"
  shows "policy_ok s (delete_alert u p)"
proof -
  have "dict_wf (AList.delete u (po_last_key_value_alerts p))" using assms by (simp add: policy_ok_def py_dict.wf_pop)
  then show ?thesis using assms by (auto simp: policy_ok_def delete_alert_def AList.delete_eq)
qed

lemma delete_on_dismiss_inv:
  assumes "alert_inv U s"
  shows "alert_inv U (delete_on_dismiss r s)" "av_heap (delete_on_dismiss r s) = av_heap s"
proof -
  define rs where "rs = (case remove_equal (av_heap s) r (av_alerts s) of None \<Rightarrow> av_alerts s | Some rs \<Rightarrow> rs)"
  have "distinct rs" "set rs \<subseteq> set (av_alerts s)"
    using list_ok_distinct [OF alert_invD(2) [OF assms]] remove_equal_props [of "av_heap s" r "av_alerts s"]
    by (auto simp: rs_def split: option.splits)
  then have 1: "alert_inv U (s\<lparr>av_alerts := rs\<rparr>)" by (rule sublist_inv [OF assms])
  let ?p = "map (delete_alert (al_uuid (av_heap s r))) (av_policies s)"
  have "policy_ok (s\<lparr>av_alerts := rs\<rparr>) p" if "p \<in> set ?p" for p
    using that delete_policy_ok alert_invD(3) [OF 1] by (auto simp: policies_ok_def)
  then have 2: "alert_inv U (s\<lparr>av_alerts := rs, av_policies := ?p\<rparr>)"
    using policies_update [OF 1, of ?p] by (simp add: delete_alert_def)
  define ev where "ev = (if remove_equal (av_heap s) r (av_alerts s) \<noteq> None then av_events s @ [AlertRemoved (uuid_str (av_heap s r))] else av_events s)"
  have d: "delete_on_dismiss r s = s\<lparr>av_alerts := rs, av_policies := ?p, av_events := ev\<rparr>"
    by (cases "remove_equal (av_heap s) r (av_alerts s)") (simp_all add: delete_on_dismiss_def rs_def ev_def send_event_def Let_def)
  show "alert_inv U (delete_on_dismiss r s)" unfolding d by (rule same_view_inv [OF 2]) simp_all
  show "av_heap (delete_on_dismiss r s) = av_heap s" unfolding d by simp
qed

lemma delete_missing_inv: "alert_inv U s \<Longrightarrow> alert_inv U (delete_missing left rs s)"
  by (induction left rs s rule: delete_missing.induct) (simp add: delete_on_dismiss_inv)+

lemma changed_event_inv: "alert_inv U s \<Longrightarrow> alert_inv U (send_alert_changed_event env r s)"
  by (auto simp: send_alert_changed_event_def send_event_def elim: same_view_inv)

lemma set_dismissed_inv: "alert_inv U s \<Longrightarrow> alert_inv U (send_alert_changed_event env r (upd_alert r (\<lambda>x. x\<lparr>al_dismissed := d\<rparr>) s))"
  by (rule changed_event_inv, rule upd_alert_inv) simp_all

lemma dismiss_inv: "alert_inv U s \<Longrightarrow> alert_inv U (dismiss env u s)"
  by (auto simp: dismiss_def Let_def delete_missing_inv delete_on_dismiss_inv set_dismissed_inv split: option.splits)

lemma restore_inv: "alert_inv U s \<Longrightarrow> alert_inv U (restore env u s)"
  by (auto simp: restore_def set_dismissed_inv split: option.splits)

section \<open>Sending\<close>

lemma uuids_distinct:
  assumes "alert_inv U s"
  shows "distinct (map (\<lambda>r. al_uuid (av_heap s r)) (av_alerts s))"
proof -
  have "inj_on (\<lambda>r. al_uuid (av_heap s r)) (set (av_alerts s))"
  proof (rule inj_onI)
    fix r q assume r: "r \<in> set (av_alerts s)" and q: "q \<in> set (av_alerts s)" and e: "al_uuid (av_heap s r) = al_uuid (av_heap s q)"
    obtain u where u: "al_uuid (av_heap s q) = Some u" using alert_invD(2) [OF assms] q by (auto simp: list_ok_def)
    have "identity (av_heap s r) = identity (av_heap s q)"
      using uuids_okD(2) [OF alert_invD(1) [OF assms] alert_ref_lt [OF assms q] u alert_ref_lt [OF assms r]] e u by simp
    then show "r = q" by (rule list_ok_unique [OF alert_invD(2) [OF assms] r q])
  qed
  then show ?thesis using list_ok_distinct [OF alert_invD(2) [OF assms]] by (simp add: distinct_map)
qed

lemma by_uuid_append:
  "distinct (map fst d @ map (\<lambda>r. al_uuid (h r)) rs) \<Longrightarrow> by_uuid h rs d = d @ map (\<lambda>r. (al_uuid (h r), r)) rs"
proof (induction h rs d rule: by_uuid.induct)
  case (2 h r rs d)
  then have "AList.update (al_uuid (h r)) r d = d @ [(al_uuid (h r), r)]" by (intro update_fresh) auto
  then show ?case using 2 by simp
qed simp

lemma by_uuid_alerts:
  "alert_inv U s \<Longrightarrow> by_uuid (av_heap s) (av_alerts s) [] = map (\<lambda>r. (al_uuid (av_heap s r), r)) (av_alerts s)"
  using by_uuid_append [of "[]" "av_heap s" "av_alerts s"] uuids_distinct [of U s] by simp

lemma receive_policy_ok:
  assumes "alert_inv U s" "policy_ok s p"
  shows "policy_ok s (snd (receive_alerts (av_heap s) now (av_alerts s) p))"
  using assms(2) uuids_distinct [OF assms(1)] alert_invD(2) [OF assms(1)]
  by (auto simp: receive_alerts_def Let_def by_uuid_alerts [OF assms(1)] policy_ok_def dict_wf_def list_ok_def comp_def)

lemma receive_kind [simp]: "po_kind (snd (receive_alerts h now rs p)) = po_kind p"
  by (simp add: receive_alerts_def Let_def)

text \<open>Sending changes the policies, and notes what was sent; nothing else.\<close>

lemma send_step_ex:
  "\<exists>ev snt ml tk cr. (let s1 = notify_services env k gone new s in if k = IMMEDIATELY then send_immediate env gone new s1 else s1) =
     s\<lparr>av_events := ev, av_sent := snt, av_mails := ml, av_tickets := tk, av_created := cr\<rparr>" (is "\<exists>ev snt ml tk cr. ?t = _")
proof (intro exI)
  show "?t = s\<lparr>av_events := av_events ?t, av_sent := av_sent ?t, av_mails := av_mails ?t, av_tickets := av_tickets ?t, av_created := av_created ?t\<rparr>"
    by (simp add: notify_services_def send_immediate_def send_ticket_def Let_def split: option.splits)
qed

lemma send_policies_effect:
  "\<exists>ev snt ml tk cr. send_policies env dn ps s = s\<lparr>av_events := ev, av_sent := snt, av_mails := ml, av_tickets := tk, av_created := cr,
     av_policies := dn @ map (\<lambda>p. snd (receive_alerts (av_heap s) (en_now env) (av_alerts s) p)) ps\<rparr>"
proof (induction ps arbitrary: dn s)
  case Nil
  show ?case
    by (intro exI [of _ "av_events s"] exI [of _ "av_sent s"] exI [of _ "av_mails s"] exI [of _ "av_tickets s"] exI [of _ "av_created s"]) simp
next
  case (Cons p ps)
  obtain gone new p1 where r: "receive_alerts (av_heap s) (en_now env) (av_alerts s) p = ((gone, new), p1)" by (metis prod.exhaust)
  obtain ev snt ml tk cr where t: "(let s1 = notify_services env (po_kind p) gone new s in if po_kind p = IMMEDIATELY then send_immediate env gone new s1 else s1) =
     s\<lparr>av_events := ev, av_sent := snt, av_mails := ml, av_tickets := tk, av_created := cr\<rparr>" using send_step_ex by blast
  have "send_policies env dn (p # ps) s = send_policies env (dn @ [p1]) ps (s\<lparr>av_events := ev, av_sent := snt, av_mails := ml, av_tickets := tk, av_created := cr\<rparr>)"
    unfolding t [symmetric] by (simp add: r Let_def)
  then show ?case using Cons.IH [of "dn @ [p1]" "s\<lparr>av_events := ev, av_sent := snt, av_mails := ml, av_tickets := tk, av_created := cr\<rparr>"] r by simp
qed

lemma send_alerts_inv:
  assumes "alert_inv U s"
  shows "alert_inv U (send_alerts env s)"
proof -
  let ?ps = "map (\<lambda>p. snd (receive_alerts (av_heap s) (en_now env) (av_alerts s) p)) (av_policies s)"
  obtain ev snt ml tk cr where e: "send_policies env [] (av_policies s) (s\<lparr>av_send_submitted := False\<rparr>) =
      s\<lparr>av_send_submitted := False, av_events := ev, av_sent := snt, av_mails := ml, av_tickets := tk, av_created := cr, av_policies := ?ps\<rparr>"
    using send_policies_effect [of env "[]" "av_policies s" "s\<lparr>av_send_submitted := False\<rparr>"] by auto
  have "policy_ok s p" if "p \<in> set ?ps" for p
    using that receive_policy_ok [OF assms] alert_invD(3) [OF assms] by (auto simp: policies_ok_def)
  then have i: "alert_inv U (s\<lparr>av_policies := ?ps\<rparr>)" by (intro policies_update [OF assms]) simp_all
  have "alert_inv U (send_policies env [] (av_policies s) (s\<lparr>av_send_submitted := False\<rparr>))"
    unfolding e by (rule same_view_inv [OF i]) simp_all
  moreover have "alert_inv U (s\<lparr>av_send_submitted := False, av_send_on_ready := True\<rparr>)" by (rule same_view_inv [OF assms]) simp_all
  ultimately show ?thesis by (simp add: send_alerts_def Let_def)
qed

end
