(* ===== verification/Alert_System.thy ===== *)
theory Alert_System
  imports Alert_Invariants
begin

text \<open>
  The alert service as a transition system: the remaining operations keep the invariant, the
  state after loading the database has it, and so every reachable state has it.
\<close>

section \<open>One-shot alerts\<close>

lemma oneshot_created:
  assumes inv: "alert_inv U s" and env: "inj U" "en_uuid env = U"
    and k: "map_of (en_classes env) name = Some k" "kl_one_shot k"
  shows "\<exists>h n rs. oneshot_create env name args s =
      (None, submit_send (s\<lparr>av_heap := h, av_next := Suc (av_next s), av_next_uuid := n, av_alerts := rs @ [av_next s]\<rparr>)) \<and>
    alert_inv U (snd (oneshot_create env name args s)) \<and> (\<forall>q < av_next s. h q = av_heap s q) \<and> av_next_uuid s \<le> n \<and>
    identity (h (av_next s)) = (Some (av_node s), Some [], name, json_dumps (en_float_repr env) (kl_key_from_args k args)) \<and>
    rs = filter (\<lambda>q. identity (av_heap s q) \<noteq> identity (h (av_next s))) (av_alerts s) \<and>
    (\<forall>q \<in> set (av_alerts s). identity (av_heap s q) = identity (h (av_next s)) \<longrightarrow> keeps (av_heap s q) (h (av_next s)))"
proof -
  let ?r = "av_next s"
  let ?a = "(new_alert (en_float_repr env) k name args no_init)\<lparr>al_source := Some [], al_node := Some (av_node s)\<rparr>"
  let ?s = "s\<lparr>av_heap := (av_heap s)(?r := ?a), av_next := Suc ?r\<rparr>"
  have lt: "q < ?r" "q \<noteq> ?r" if "q \<in> set (av_alerts s)" for q using alert_ref_lt [OF inv that] by auto
  have lo: "list_ok ?s" using alert_invD(2) [OF inv] lt(2) by (auto simp: list_ok_def less_Suc_eq cong: map_cong)
  have "al_uuid (((av_heap s)(?r := ?a)) r) = None \<or>
      (\<exists>q < av_next s. al_uuid (((av_heap s)(?r := ?a)) r) = al_uuid (av_heap s q) \<and> identity (((av_heap s)(?r := ?a)) r) = identity (av_heap s q))"
    if "r < Suc ?r" for r using that by (cases "r = ?r") (auto simp: new_alert_def no_init_def less_Suc_eq)
  then have uo: "uuids_ok U ?s" using uuids_ok_from [OF alert_invD(1) [OF inv], of "Suc ?r" "(av_heap s)(?r := ?a)"] by (simp add: uuids_ok_def)
  have same: "set_node_and_handle env (av_node s) ?r ?s = handle_alert env ?r ?s"
  proof -
    have "upd_alert ?r (\<lambda>x. x\<lparr>al_node := Some (av_node s)\<rparr>) ?s = ?s" by (rule alert_state.equality) (simp_all add: upd_alert_def)
    then show ?thesis unfolding set_node_and_handle_def by (rule arg_cong)
  qed
  obtain h n where e: "handle_alert env ?r ?s = ?s\<lparr>av_heap := h, av_next_uuid := n\<rparr>" and n: "av_next_uuid s \<le> n"
    and h: "\<And>q. q \<noteq> ?r \<Longrightarrow> h q = av_heap s q" "identity (h ?r) = with_node (av_node s) ?a" "al_uuid (h ?r) \<noteq> None"
    and u: "uuids_ok U (?s\<lparr>av_heap := h, av_next_uuid := n\<rparr>)"
    and kp: "\<And>q. q \<in> set (av_alerts s) \<Longrightarrow> identity (av_heap s q) = identity (h ?r) \<Longrightarrow> keeps (av_heap s q) (h ?r)"
    using handle_new [OF env uo _ _ lo, of ?r "av_node s"] lt unfolding same by fastforce
  let ?t = "s\<lparr>av_heap := h, av_next := Suc ?r, av_next_uuid := n\<rparr>"
  have uu: "al_uuid (h q) = al_uuid (h ?r) \<longleftrightarrow> identity (av_heap s q) = identity (h ?r)" if q: "q \<in> set (av_alerts s)" for q
  proof
    assume a: "al_uuid (h q) = al_uuid (h ?r)"
    obtain x where x: "al_uuid (h ?r) = Some x" using h(3) by blast
    then have "identity (h q) = identity (h ?r)" using uuids_okD(2) [OF u, of ?r x q] a lt(1) [OF q] by simp
    then show "identity (av_heap s q) = identity (h ?r)" using h(1) lt(2) [OF q] by simp
  next
    assume "identity (av_heap s q) = identity (h ?r)"
    then show "al_uuid (h q) = al_uuid (h ?r)" using kp [OF q] h(1) lt(2) [OF q] by (simp add: keeps_def)
  qed
  let ?rs = "filter (\<lambda>q. identity (av_heap s q) \<noteq> identity (h ?r)) (av_alerts s)"
  have f: "filter (\<lambda>q. al_uuid (h q) \<noteq> al_uuid (h ?r)) (av_alerts s) = ?rs" using uu by (intro filter_cong) auto
  have e': "handle_alert env ?r ?s = ?t" unfolding e by (rule alert_state.equality) simp_all
  have o: "oneshot_create env name args s = (None, submit_send (?t\<lparr>av_alerts := ?rs @ [?r]\<rparr>))"
    using k e' f by (simp add: oneshot_create_def Let_def)
  have m: "map (\<lambda>q. identity (h q)) ?rs = map (\<lambda>q. identity (av_heap s q)) ?rs" using h(1) lt(2) by simp
  have "distinct (map (\<lambda>q. identity (h q)) ?rs)" unfolding m using alert_invD(2) [OF inv] by (simp add: list_ok_def distinct_map_filter)
  then have "list_ok (?t\<lparr>av_alerts := ?rs @ [?r]\<rparr>)" using alert_invD(2) [OF inv] h(1,3) lt
    by (auto simp: list_ok_def less_Suc_eq)
  moreover have "grows s (?t\<lparr>av_alerts := ?rs @ [?r]\<rparr>)" using h(1) n by (simp add: grows_def)
  then have "policies_ok (?t\<lparr>av_alerts := ?rs @ [?r]\<rparr>)" using grows_policies [OF _ alert_invD(3) [OF inv]] by simp
  ultimately have i: "alert_inv U (?t\<lparr>av_alerts := ?rs @ [?r]\<rparr>)" using u by (simp add: alert_inv_def uuids_ok_def)
  have "alert_inv U (snd (oneshot_create env name args s))" unfolding o snd_conv by (rule same_view_inv [OF i]) (simp_all add: submit_send_def)
  then show ?thesis using o h n kp
    by (intro exI [of _ h] exI [of _ n] exI [of _ ?rs]) (auto simp: with_node_def new_alert_def no_init_def)
qed

lemma oneshot_create_inv:
  assumes "alert_inv U s" "inj U" "en_uuid env = U"
  shows "alert_inv U (snd (oneshot_create env name args s))"
proof (cases "map_of (en_classes env) name")
  case (Some k)
  show ?thesis
  proof (cases "kl_one_shot k")
    case True
    then show ?thesis using oneshot_created [OF assms Some] by blast
  qed (use assms(1) Some in \<open>simp add: oneshot_create_def\<close>)
qed (use assms(1) in \<open>simp add: oneshot_create_def\<close>)

lemma remove_missing_inv:
  "remove_missing left rs ds = Some ds' \<Longrightarrow> alert_inv U (snd ds) \<Longrightarrow> alert_inv U (snd ds')"
proof (induction left rs ds rule: remove_missing.induct)
  case (2 left r rs ds)
  obtain d s where ds: "ds = (d, s)" by (cases ds)
  show ?case
  proof (cases "av_heap s r \<in> set left")
    case True
    then show ?thesis using 2 ds by simp
  next
    case False
    then obtain qs where q: "remove_equal (av_heap s) r (av_alerts s) = Some qs" using 2(3) ds by (auto split: option.splits)
    have "alert_inv U (s\<lparr>av_alerts := qs\<rparr>)"
      using 2(4) ds remove_equal_props [OF q] list_ok_distinct [OF alert_invD(2)] by (intro sublist_inv) auto
    then show ?thesis using 2(2) [OF ds [symmetric] False q] 2(3) ds False q by simp
  qed
qed simp

lemma delete_klasses_inv:
  "alert_inv U (snd ds) \<Longrightarrow> alert_inv U (snd (snd (delete_klasses env query names ds)))"
proof (induction names arbitrary: ds)
  case (Cons name names)
  show ?case using Cons.prems by (auto simp: Let_def split: option.splits intro!: Cons.IH elim: remove_missing_inv)
qed simp

lemma flush_alerts_inv: "alert_inv U s \<Longrightarrow> alert_inv U (flush_alerts env s)"
  by (auto simp: flush_alerts_def elim: same_view_inv)

lemma submit_send_inv: "alert_inv U s \<Longrightarrow> alert_inv U (submit_send s)"
  by (auto simp: submit_send_def elim: same_view_inv)

lemma oneshot_delete_inv:
  assumes "alert_inv U s"
  shows "alert_inv U (snd (oneshot_delete env klasses query s))"
proof -
  obtain e d t where r: "delete_klasses env query klasses (False, s) = (e, d, t)" by (metis prod.exhaust)
  then have "alert_inv U t" using delete_klasses_inv [of U "(False, s)" env query klasses] assms by simp
  then show ?thesis using r by (cases e) (simp_all add: oneshot_delete_def flush_alerts_inv submit_send_inv)
qed

section \<open>Locks\<close>

lemma next_uuid_inv: "alert_inv U s \<Longrightarrow> alert_inv U (s\<lparr>av_next_uuid := Suc (av_next_uuid s)\<rparr>)"
proof -
  assume inv: "alert_inv U s"
  have "uuids_ok U (s\<lparr>av_next_uuid := Suc (av_next_uuid s)\<rparr>)" 
  proof -
    have sub: "U ` {Suc (av_next_uuid s)..} \<subseteq> U ` {av_next_uuid s..}" by (rule image_mono) auto
    have "uuids_agree U (av_heap s) (av_next s) (Suc (av_next_uuid s))" unfolding uuids_agree_def
    proof (intro conjI allI impI)
      fix r u assume "r < av_next s" "al_uuid (av_heap s r) = Some u"
      then show "u \<notin> U ` {Suc (av_next_uuid s)..}" using uuids_okD(1) [OF alert_invD(1) [OF inv]] sub by blast
    next
      fix r q u assume "r < av_next s" "q < av_next s" "al_uuid (av_heap s r) = Some u" "al_uuid (av_heap s q) = Some u"
      then show "identity (av_heap s r) = identity (av_heap s q)" using uuids_okD(2) [OF alert_invD(1) [OF inv]] by metis
    qed
    then show ?thesis by (simp add: uuids_ok_def)
  qed
  moreover have "grows s (s\<lparr>av_next_uuid := Suc (av_next_uuid s)\<rparr>)" by (simp add: grows_def)
  ultimately show ?thesis using alert_invD(2) [OF inv] grows_policies [OF _ alert_invD(3) [OF inv]] by (simp add: alert_inv_def list_ok_def)
qed

lemma block_source_inv:
  assumes "alert_inv U s"
  shows "alert_inv U (snd (block_source env name timeout s))"
  by (auto simp: block_source_def Let_def assms intro: same_view_inv [OF next_uuid_inv [OF assms]])

lemma unblock_source_inv:
  assumes "alert_inv U s"
  shows "alert_inv U (unblock_source lock s)"
proof -
  obtain lk bl where "unblock_source lock s = s\<lparr>av_locks := lk, av_blocked := bl\<rparr>" using unblock_source_ex by blast
  then show ?thesis by (intro same_view_inv [OF assms]) simp_all
qed

section \<open>Loading the database\<close>

text \<open>
  The rows were written from a list of alerts with the invariant: different identities and a
  uuid each, none of which is generated again. A class's \<open>load\<close> returns some of the alerts.
\<close>

definition rows_ok :: "(nat \<Rightarrow> string) \<Rightarrow> alert list \<Rightarrow> bool" where
  "rows_ok U rows \<longleftrightarrow> distinct (map identity rows) \<and> (\<forall>a \<in> set rows. al_uuid a \<noteq> None \<and> al_uuid a \<notin> range (\<lambda>n. Some (U n)))"

definition loads_ok :: "alert_env \<Rightarrow> bool" where
  "loads_ok env \<longleftrightarrow> (\<forall>name k as. map_of (en_classes env) name = Some k \<longrightarrow>
     set (kl_load k as) \<subseteq> set as \<and> (distinct as \<longrightarrow> distinct (kl_load k as)))"

lemma load_rows_props:
  "set (load_rows env seen rows) \<subseteq> set rows \<and> (distinct rows \<longrightarrow> distinct (load_rows env seen rows)) \<and>
   distinct (map al_uuid (load_rows env seen rows)) \<and> al_uuid ` set (load_rows env seen rows) \<inter> seen = {}"
proof (induction rows arbitrary: seen)
  case (Cons a rows)
  show ?case using Cons.IH [of seen] Cons.IH [of "insert (al_uuid a) seen"] by auto
qed simp

lemma row_alert_same [simp]:
  "identity (row_alert env a) = identity a" "al_uuid (row_alert env a) = al_uuid a" "al_class (row_alert env a) = al_class a"
  by (simp_all add: row_alert_def new_alert_def identity_def split: option.splits)

lemma load_class_props:
  assumes "loads_ok env"
  shows "set (load_class env as name) \<subseteq> {a \<in> set as. al_class a = name}" "distinct as \<Longrightarrow> distinct (load_class env as name)"
proof -
  let ?mine = "filter (\<lambda>a. al_class a = name) as"
  have "set (load_class env as name) \<subseteq> set ?mine \<and> (distinct ?mine \<longrightarrow> distinct (load_class env as name))"
  proof (cases "map_of (en_classes env) name")
    case (Some k)
    have "set (kl_load k ?mine) \<subseteq> set ?mine \<and> (distinct ?mine \<longrightarrow> distinct (kl_load k ?mine))"
      using assms Some unfolding loads_ok_def by blast
    then show ?thesis using Some unfolding load_class_def Let_def by (cases "kl_one_shot k") simp_all
  qed (simp add: load_class_def Let_def)
  then show "set (load_class env as name) \<subseteq> {a \<in> set as. al_class a = name}" "distinct as \<Longrightarrow> distinct (load_class env as name)"
    by auto
qed

lemma loaded_alerts_props:
  assumes "rows_ok U rows" "loads_ok env"
  shows "distinct (map identity (loaded_alerts env rows))" "inj_on al_uuid (set (loaded_alerts env rows))"
    "\<And>a. a \<in> set (loaded_alerts env rows) \<Longrightarrow> al_uuid a \<noteq> None \<and> al_uuid a \<notin> range (\<lambda>n. Some (U n))"
proof -
  define as where "as = map (row_alert env) (load_rows env {} rows)"
  note lr = load_rows_props [of env "{}" rows]
  have sub: "set (load_rows env {} rows) \<subseteq> set rows" and dr: "distinct (load_rows env {} rows)"
    using lr assms(1) by (auto simp: rows_ok_def distinct_map)
  have di: "distinct (map identity as)"
    using assms(1) sub dr by (auto simp: as_def rows_ok_def distinct_map comp_def intro: inj_on_subset)
  have du: "distinct (map al_uuid as)" using lr by (simp add: as_def comp_def)
  have un: "al_uuid a \<noteq> None \<and> al_uuid a \<notin> range (\<lambda>n. Some (U n))" if "a \<in> set as" for a
    using that sub assms(1) by (fastforce simp: as_def rows_ok_def)
  let ?L = "\<lambda>names. concat (map (load_class env as) names)"
  have la: "loaded_alerts env rows = ?L (rev (remdups (rev (map al_class as))))" by (simp add: loaded_alerts_def as_def Let_def)
  have "distinct (?L names)" if "distinct names" for names
    using that
  proof (induction names)
    case (Cons n names)
    have c: "al_class a = m" if "a \<in> set (load_class env as m)" for a m using load_class_props(1) [OF assms(2), of as m] that by blast
    have "n \<notin> set names" using Cons.prems by simp
    then have "set (load_class env as n) \<inter> (\<Union>m \<in> set names. set (load_class env as m)) = {}" using c by blast
    moreover have "distinct (load_class env as n)" using load_class_props(2) [OF assms(2)] di by (simp add: distinct_map)
    ultimately show ?case using Cons by simp
  qed simp
  then have "distinct (loaded_alerts env rows)" unfolding la by simp
  moreover have s: "set (loaded_alerts env rows) \<subseteq> set as" unfolding la using load_class_props(1) [OF assms(2), of as] by auto
  ultimately show "distinct (map identity (loaded_alerts env rows))" using di by (auto simp: distinct_map intro: inj_on_subset)
  show "inj_on al_uuid (set (loaded_alerts env rows))" using du s by (auto simp: distinct_map intro: inj_on_subset)
  show "al_uuid a \<noteq> None \<and> al_uuid a \<notin> range (\<lambda>n. Some (U n))" if "a \<in> set (loaded_alerts env rows)" for a using that s un by blast
qed

text \<open>The policies start with the alerts of that moment.\<close>

lemma initial_policies_inv:
  assumes "uuids_ok U s" "list_ok s"
  shows "alert_inv U (s\<lparr>av_last_run := [], av_policies := map (\<lambda>p. snd (receive_alerts (av_heap s) now (av_alerts s) p)) initial_policies\<rparr>)"
proof -
  let ?s = "s\<lparr>av_policies := initial_policies\<rparr>"
  have "policies_ok ?s" by (simp add: policies_ok_def initial_policies_def policy_ok_def new_policy_def dict_wf_def)
  then have i: "alert_inv U ?s" using assms by (simp add: alert_inv_def uuids_ok_def list_ok_def)
  have "alert_inv U (?s\<lparr>av_policies := map (\<lambda>p. snd (receive_alerts (av_heap s) now (av_alerts s) p)) initial_policies\<rparr>)"
  proof (rule policies_update [OF i])
    fix p assume "p \<in> set (map (\<lambda>p. snd (receive_alerts (av_heap s) now (av_alerts s) p)) initial_policies)"
    then show "policy_ok ?s p" using receive_policy_ok [OF i] alert_invD(3) [OF i] by (auto simp: policies_ok_def)
  qed (simp add: comp_def)
  then show ?thesis by (rule same_view_inv) simp_all
qed

lemma initialize_load_inv:
  assumes "rows_ok U rows" "loads_ok env"
  shows "alert_inv U (initialize env True (new_alert_service rows))"
proof -
  let ?as = "loaded_alerts env rows"
  let ?s = "(new_alert_service rows)\<lparr>av_node := (if en_enterprise env \<and> en_failover_node env = ''B'' then ''B'' else ''A''), av_alerts := []\<rparr>"
  obtain rs t where al: "alloc_all ?as ?s = (rs, t)" by (metis prod.exhaust)
  obtain h where rs: "rs = [av_next ?s..<av_next ?s + length ?as]" and t: "t = ?s\<lparr>av_heap := h, av_next := av_next ?s + length ?as\<rparr>" and m: "map h rs = ?as"
    by (rule alloc_all_obtain [OF al]) blast
  have z: "av_next ?s = 0" "av_next_uuid ?s = 0" by (simp_all add: new_alert_service_def)
  have a: "h r \<in> set ?as" if "r < length ?as" for r
  proof -
    have "h r \<in> set (map h rs)" using that rs z by simp
    then show ?thesis unfolding m .
  qed
  note la = loaded_alerts_props [OF assms]
  have "uuids_agree U h (length ?as) 0" unfolding uuids_agree_def
  proof (intro conjI allI impI)
    fix r u assume "r < length ?as" "al_uuid (h r) = Some u"
    then show "u \<notin> U ` {0..}" using la(3) [OF a] by force
  next
    fix r q u assume "r < length ?as" "q < length ?as" "al_uuid (h r) = Some u" "al_uuid (h q) = Some u"
    then show "identity (h r) = identity (h q)" using inj_onD [OF la(2) _ a a] by metis
  qed
  then have "uuids_ok U (t\<lparr>av_alerts := rs\<rparr>)" using t z by (simp add: uuids_ok_def)
  moreover have "map (\<lambda>r. identity (h r)) rs = map identity ?as" unfolding m [symmetric] by simp
  then have "list_ok (t\<lparr>av_alerts := rs\<rparr>)" using la(1) la(3) [OF a] t rs z by (simp add: list_ok_def)
  ultimately have "alert_inv U (t\<lparr>av_alerts := rs, av_last_run := [],
      av_policies := map (\<lambda>p. snd (receive_alerts (av_heap t) (en_now env) rs p)) initial_policies\<rparr>)"
    using initial_policies_inv [of U "t\<lparr>av_alerts := rs\<rparr>" "en_now env"] by simp
  then show ?thesis using al by (simp add: initialize_def Let_def new_alert_service_def)
qed

lemma initialize_empty_inv:
  assumes "alert_inv U s"
  shows "alert_inv U (initialize env False s)"
proof -
  let ?s = "flush_alerts env (s\<lparr>av_node := (if en_enterprise env \<and> en_failover_node env = ''B'' then ''B'' else ''A''), av_alerts := []\<rparr>)"
  have "uuids_ok U ?s" "list_ok ?s" using alert_invD(1) [OF assms] by (simp_all add: flush_alerts_def uuids_ok_def list_ok_def)
  then show ?thesis using initial_policies_inv [of U ?s "en_now env"] by (simp add: initialize_def Let_def)
qed

section \<open>The locks\<close>

lemma alloc_all_locks: "av_locks (snd (alloc_all as s)) = av_locks s"
  by (induction as s rule: alloc_all.induct) (auto simp: Let_def split: prod.splits)

lemma process_alerts_locks:
  assumes "alert_inv U s" "env_ok env" "en_uuid env = U" "dict_wf (av_locks s)"
  shows "dict_wf (av_locks (process_alerts env s))"
  using assms(4) run_alerts_locks [OF assms] alloc_all_locks [of "map (av_heap s) (av_alerts s)" "expire_alerts env (run_alerts env s)"]
  by (auto simp: process_alerts_def expire_alerts_def submit_send_def Let_def split: prod.splits)

lemma delete_missing_locks: "av_locks (delete_missing left rs s) = av_locks s"
  by (induction left rs s rule: delete_missing.induct) (simp_all add: delete_on_dismiss_def send_event_def Let_def split: option.splits)

lemma dismiss_locks: "av_locks (dismiss env u s) = av_locks s"
  by (simp add: dismiss_def Let_def delete_missing_locks delete_on_dismiss_def send_alert_changed_event_def send_event_def upd_alert_def
      split: option.splits)

lemma restore_locks: "av_locks (restore env u s) = av_locks s"
  by (simp add: restore_def send_alert_changed_event_def send_event_def upd_alert_def split: option.splits)

lemma send_alerts_locks: "av_locks (send_alerts env s) = av_locks s"
proof -
  obtain ev snt ml tk cr ps where "send_policies env [] (av_policies s) (s\<lparr>av_send_submitted := False\<rparr>) =
      s\<lparr>av_send_submitted := False, av_events := ev, av_sent := snt, av_mails := ml, av_tickets := tk, av_created := cr, av_policies := ps\<rparr>"
    using send_policies_effect [of env "[]" "av_policies s" "s\<lparr>av_send_submitted := False\<rparr>"] by auto
  then show ?thesis by (simp add: send_alerts_def Let_def)
qed

lemma oneshot_create_locks: "av_locks (snd (oneshot_create env name args s)) = av_locks s"
  by (simp add: oneshot_create_def handle_alert_def upd_alert_def submit_send_def Let_def split: option.splits)

text \<open>Deleting one-shot alerts takes them out of the list.\<close>

lemma remove_missing_ex:
  "remove_missing left rs ds = Some ds' \<Longrightarrow> \<exists>qs. snd ds' = (snd ds)\<lparr>av_alerts := qs\<rparr>"
proof (induction rs arbitrary: ds)
  case Nil
  then show ?case by (intro exI [of _ "av_alerts (snd ds)"]) simp
next
  case (Cons r rs)
  obtain d s where ds: "ds = (d, s)" by (cases ds)
  show ?case
  proof (cases "av_heap s r \<in> set left")
    case True
    then show ?thesis using Cons.IH [of ds] Cons.prems ds by simp
  next
    case False
    then obtain qs where "remove_missing left rs (True, s\<lparr>av_alerts := qs\<rparr>) = Some ds'" using Cons.prems ds by (auto split: option.splits)
    from Cons.IH [OF this] show ?thesis using ds by auto
  qed
qed

lemma delete_klasses_ex: "\<exists>qs. snd (snd (delete_klasses env query names ds)) = (snd ds)\<lparr>av_alerts := qs\<rparr>"
proof (induction names arbitrary: ds)
  case Nil
  then show ?case by (intro exI [of _ "av_alerts (snd ds)"]) simp
next
  case (Cons name names)
  let ?r = "delete_klasses env query (name # names) ds"
  have "snd (snd ?r) = snd ds \<or>
      (\<exists>left related ds'. remove_missing left related ds = Some ds' \<and> ?r = delete_klasses env query names ds')"
    by (auto simp: Let_def split: option.splits)
  then show ?case
  proof (elim disjE exE conjE)
    assume "snd (snd ?r) = snd ds"
    then show ?thesis by (intro exI [of _ "av_alerts (snd ds)"]) simp
  next
    fix left related ds' assume "remove_missing left related ds = Some ds'" "?r = delete_klasses env query names ds'"
    then show ?thesis using remove_missing_ex [of left related ds ds'] Cons.IH [of ds'] by auto
  qed
qed

lemma flush_alerts_locks: "av_locks (flush_alerts env s) = av_locks s"
  by (simp add: flush_alerts_def)

lemma oneshot_delete_ex:
  "\<exists>qs db b. snd (oneshot_delete env klasses query s) = s\<lparr>av_alerts := qs, av_db := db, av_send_submitted := b\<rparr>"
proof -
  obtain e d t where r: "delete_klasses env query klasses (False, s) = (e, d, t)" by (metis prod.exhaust)
  obtain qs where t: "t = s\<lparr>av_alerts := qs\<rparr>" using delete_klasses_ex [of env query klasses "(False, s)"] r by auto
  let ?u = "snd (oneshot_delete env klasses query s)"
  have "?u = s\<lparr>av_alerts := qs, av_db := av_db ?u, av_send_submitted := av_send_submitted ?u\<rparr>"
    using r t by (cases e) (simp_all add: oneshot_delete_def flush_alerts_def submit_send_def)
  then show ?thesis by blast
qed

lemma oneshot_delete_locks: "av_locks (snd (oneshot_delete env klasses query s)) = av_locks s"
  using oneshot_delete_ex [of env klasses query s] by auto

lemmas same_locks = dismiss_locks restore_locks send_alerts_locks oneshot_create_locks oneshot_delete_locks flush_alerts_locks

section \<open>The transition system\<close>

definition step_env :: "alert_env \<Rightarrow> alert_env \<Rightarrow> bool" where
  "step_env base env \<longleftrightarrow> same_config base env \<and> env_ok env"

inductive alert_work :: "alert_env \<Rightarrow> alert_state \<Rightarrow> alert_state \<Rightarrow> bool" for base where
  w_process: "step_env base env \<Longrightarrow> alert_work base s (process_alerts env s)"
| w_send: "step_env base env \<Longrightarrow> alert_work base s (send_alerts env s)"
| w_dismiss: "step_env base env \<Longrightarrow> alert_work base s (dismiss env u s)"
| w_restore: "step_env base env \<Longrightarrow> alert_work base s (restore env u s)"
| w_create: "step_env base env \<Longrightarrow> alert_work base s (snd (oneshot_create env name args s))"
| w_delete: "step_env base env \<Longrightarrow> alert_work base s (snd (oneshot_delete env klasses query s))"
| w_created: "step_env base env \<Longrightarrow> alert_work base s (run_submitted_create env s)"
| w_flush: "step_env base env \<Longrightarrow> alert_work base s (flush_alerts env s)"
| w_block: "step_env base env \<Longrightarrow> alert_work base s (snd (block_source env name timeout s))"
| w_unblock: "alert_work base s (unblock_source lock s)"
| w_failover: "step_env base env \<Longrightarrow> alert_work base s (block_failover_alerts env s)"
| w_clear: "step_env base env \<Longrightarrow> alert_work base s (snd (alert_source_clear_run env name s))"
| w_ready: "alert_work base s (event_system_ready s)"

text \<open>On failover the service starts again without alerts.\<close>

inductive alert_step :: "alert_env \<Rightarrow> alert_state \<Rightarrow> alert_state \<Rightarrow> bool" for base where
  s_work: "alert_work base s t \<Longrightarrow> alert_step base s t"
| s_failover: "step_env base env \<Longrightarrow> alert_step base s (initialize env False s)"

inductive alert_start :: "alert_env \<Rightarrow> alert_state \<Rightarrow> bool" for base where
  a_start: "step_env base env \<Longrightarrow> rows_ok (en_uuid base) rows \<Longrightarrow> loads_ok env \<Longrightarrow>
    alert_start base (initialize env True (new_alert_service rows))"

definition service_inv :: "alert_env \<Rightarrow> alert_state \<Rightarrow> bool" where
  "service_inv base s \<longleftrightarrow> alert_inv (en_uuid base) s \<and> dict_wf (av_locks s)"

lemma step_envD:
  assumes "step_env base env"
  shows "env_ok env" "en_uuid env = en_uuid base" "inj (en_uuid base)"
  using assms by (auto simp: step_env_def same_config_def env_ok_def)

lemma simple_inv:
  assumes "alert_inv U s"
  shows "alert_inv U (block_failover_alerts env s)" "alert_inv U (snd (alert_source_clear_run env name s))" "alert_inv U (event_system_ready s)"
    "alert_inv U (s\<lparr>av_created := cr\<rparr>)"
  by (auto simp: block_failover_alerts_def alert_source_clear_run_def event_system_ready_def submit_send_def
      intro: same_view_inv [OF assms] assms)

lemmas inv_rules = process_alerts_inv send_alerts_inv dismiss_inv restore_inv oneshot_create_inv oneshot_delete_inv flush_alerts_inv
  block_source_inv unblock_source_inv simple_inv

lemma alert_work_inv:
  assumes "alert_work base s t" "service_inv base s"
  shows "service_inv base t"
  using assms(1)
proof cases
  case (w_process env)
  have "alert_inv (en_uuid base) s" "dict_wf (av_locks s)" using assms(2) by (simp_all add: service_inv_def)
  note prem = this(1) step_envD(1,2) [OF w_process(2)]
  show ?thesis using process_alerts_inv [OF prem] process_alerts_locks [OF prem \<open>dict_wf (av_locks s)\<close>] w_process(1)
    by (simp add: service_inv_def)
next
  case (w_created env)
  then show ?thesis using assms(2) step_envD oneshot_create_inv [OF simple_inv(4)]
    by (auto simp: service_inv_def run_submitted_create_def oneshot_create_locks split: list.splits)
next
  case (w_block env name timeout)
  then show ?thesis using assms(2) by (simp add: service_inv_def block_source_inv) (simp add: block_source_def Let_def py_dict.wf_put)
next
  case (w_unblock lock)
  then show ?thesis using assms(2) by (simp add: service_inv_def unblock_source_inv unblock_source_locks)
qed (use assms(2) step_envD in \<open>simp_all add: service_inv_def inv_rules same_locks\<close>,
     simp_all add: block_failover_alerts_def alert_source_clear_run_def event_system_ready_def submit_send_def)

lemma initialize_locks: "av_locks (initialize env load s) = av_locks s"
proof -
  let ?s = "s\<lparr>av_node := (if en_enterprise env \<and> en_failover_node env = ''B'' then ''B'' else ''A''), av_alerts := []\<rparr>"
  obtain rs t where a: "alloc_all (loaded_alerts env (av_db s)) ?s = (rs, t)" by (metis prod.exhaust)
  then have "av_locks t = av_locks s" using alloc_all_locks [of "loaded_alerts env (av_db s)" ?s] by simp
  then show ?thesis using a by (cases load) (simp_all add: initialize_def flush_alerts_locks Let_def)
qed

lemma alert_step_inv:
  assumes "service_inv base s" "alert_step base s t"
  shows "service_inv base t"
  using assms(2)
proof cases
  case s_work
  then show ?thesis using alert_work_inv assms(1) by blast
next
  case (s_failover env)
  then show ?thesis using assms(1) by (simp add: service_inv_def initialize_empty_inv initialize_locks)
qed

lemma alert_start_inv: "alert_start base s \<Longrightarrow> service_inv base s"
  by (erule alert_start.cases)
    (simp add: service_inv_def initialize_load_inv initialize_locks, simp add: new_alert_service_def dict_wf_def)

interpretation alerts: invariant_system "alert_start base" "alert_step base" "service_inv base" for base
  by unfold_locales (auto intro: alert_start_inv alert_step_inv)

abbreviation reachable_alerts :: "alert_env \<Rightarrow> alert_state \<Rightarrow> bool" where
  "reachable_alerts base \<equiv> reach (alert_start base) (alert_step base)"

end
