(* ===== verification/Alert_Events.thy ===== *)
theory Alert_Events
  imports Alert_System
begin

text \<open>
  The events of \<open>alert.list\<close>: a client that applies them to the uuids it knows has, after every
  step, the uuids of the shown alerts that the policy \<open>IMMEDIATELY\<close> saw last.
\<close>

section \<open>The client's view\<close>

text \<open>A client that follows the events of \<open>alert.list\<close> keeps the set of uuids it was told of.\<close>

fun apply_event :: "alert_event \<Rightarrow> string set \<Rightarrow> string set" where
  "apply_event (AlertAdded u) v = insert u v"
| "apply_event (AlertChanged u) v = v"
| "apply_event (AlertRemoved u) v = v - {u}"

definition client_view :: "alert_event list \<Rightarrow> string set \<Rightarrow> string set" where
  "client_view evs v = fold apply_event evs v"

lemma client_view_simps [simp]:
  "client_view [] v = v" "client_view (e # evs) v = client_view evs (apply_event e v)"
  "client_view (evs @ evs') v = client_view evs' (client_view evs v)"
  by (simp_all add: client_view_def)

lemma client_view_removed: "client_view (map (\<lambda>a. AlertRemoved (f a)) as) v = v - f ` set as"
  by (induction as arbitrary: v) auto

lemma client_view_added: "client_view (map (\<lambda>a. AlertAdded (f a)) as) v = v \<union> f ` set as"
  by (induction as arbitrary: v) auto

text \<open>The uuids of the alerts that are shown, of a set of objects.\<close>

definition shown_uuids :: "alert_env \<Rightarrow> alert_state \<Rightarrow> aref set \<Rightarrow> string set" where
  "shown_uuids env s R = (\<lambda>r. uuid_str (av_heap s r)) ` {r \<in> R. should_show_alert env (av_heap s r)}"

definition immediate_refs :: "alert_state \<Rightarrow> aref set" where
  "immediate_refs s = snd ` set (po_last_key_value_alerts (hd (av_policies s)))"

text \<open>The alerts the policy \<open>IMMEDIATELY\<close> saw last.\<close>

definition announced :: "alert_env \<Rightarrow> alert_state \<Rightarrow> string set" where
  "announced env s = shown_uuids env s (immediate_refs s)"

definition follows :: "alert_env \<Rightarrow> alert_state \<Rightarrow> alert_state \<Rightarrow> bool" where
  "follows base s t \<longleftrightarrow> (\<exists>evs. av_events t = av_events s @ evs \<and> announced base t = client_view evs (announced base s))"

lemma follows_trans: "follows base s t \<Longrightarrow> follows base t u \<Longrightarrow> follows base s u"
  unfolding follows_def by force

lemma should_show_identity: "identity a = identity b \<Longrightarrow> should_show_alert env a = should_show_alert env b"
  by (simp add: identity_def should_show_alert_def class_products_def class_of_def)

lemma should_show_config: "same_config base env \<Longrightarrow> should_show_alert env = should_show_alert base"
  by (rule ext) (simp add: same_config_def should_show_alert_def class_products_def class_of_def)

lemma immediate_kind:
  assumes "policies_ok s"
  obtains p ps where "av_policies s = p # ps" "po_kind p = IMMEDIATELY" "policy_ok s p" "\<forall>q \<in> set ps. po_kind q \<noteq> IMMEDIATELY"
proof (cases "av_policies s")
  case (Cons p ps)
  then show ?thesis using that [of p ps] assms by (auto simp: policies_ok_def)
qed (use assms in \<open>simp add: policies_ok_def\<close>)

lemma immediate_refs_ok:
  assumes "policies_ok s" "r \<in> immediate_refs s"
  shows "r < av_next s" "al_uuid (av_heap s r) \<noteq> None"
proof -
  obtain p ps where "av_policies s = p # ps" "policy_ok s p" by (rule immediate_kind [OF assms(1)]) blast
  then show "r < av_next s" "al_uuid (av_heap s r) \<noteq> None" using assms(2) by (auto simp: immediate_refs_def policy_ok_def)
qed

text \<open>Steps that neither send events nor change the policies.\<close>

definition quiet :: "alert_state \<Rightarrow> alert_state \<Rightarrow> bool" where
  "quiet s t \<longleftrightarrow> grows s t \<and> av_policies t = av_policies s \<and> av_events t = av_events s"

lemma shown_uuids_grows:
  assumes "grows s t" "\<And>r. r \<in> R \<Longrightarrow> r < av_next s"
  shows "shown_uuids base t R = shown_uuids base s R"
proof -
  have "uuid_str (av_heap t r) = uuid_str (av_heap s r)" "should_show_alert base (av_heap t r) = should_show_alert base (av_heap s r)" if "r \<in> R" for r
    using assms that should_show_identity [of "av_heap t r" "av_heap s r"] by (auto simp: grows_def uuid_str_def)
  then show ?thesis unfolding shown_uuids_def by auto
qed

lemma quiet_follows:
  assumes "quiet s t" "policies_ok s"
  shows "follows base s t"
proof -
  have "immediate_refs t = immediate_refs s" using assms(1) by (simp add: quiet_def immediate_refs_def)
  then have "announced base t = announced base s"
    using shown_uuids_grows [of s t "immediate_refs s"] immediate_refs_ok(1) [OF assms(2)] assms(1) by (simp add: announced_def quiet_def)
  then show ?thesis using assms(1) unfolding follows_def quiet_def by (intro exI [of _ "[]"]) simp
qed

section \<open>Sending\<close>

definition announcements :: "alert_env \<Rightarrow> (aref \<Rightarrow> alert) \<Rightarrow> aref list \<Rightarrow> alert_policy \<Rightarrow> alert_event list" where
  "announcements env h rs p = (if po_kind p = IMMEDIATELY then
     (case fst (receive_alerts h (en_now env) rs p) of (gone, new) \<Rightarrow>
        shown_events env AlertRemoved (map h gone) @ shown_events env AlertAdded (map h new)) else [])"

lemma send_policies_events:
  "av_events (send_policies env dn ps s) = av_events s @ concat (map (announcements env (av_heap s) (av_alerts s)) ps)"
proof (induction ps arbitrary: dn s)
  case (Cons p ps)
  obtain gone new p1 where r: "receive_alerts (av_heap s) (en_now env) (av_alerts s) p = ((gone, new), p1)" by (metis prod.exhaust)
  obtain ev snt ml tk cr where t: "(let s1 = notify_services env (po_kind p) gone new s in if po_kind p = IMMEDIATELY then send_immediate env gone new s1 else s1) =
     s\<lparr>av_events := ev, av_sent := snt, av_mails := ml, av_tickets := tk, av_created := cr\<rparr>" using send_step_ex by blast
  have "ev = av_events (let s1 = notify_services env (po_kind p) gone new s in if po_kind p = IMMEDIATELY then send_immediate env gone new s1 else s1)"
    unfolding t by simp
  then have e: "ev = av_events s @ announcements env (av_heap s) (av_alerts s) p"
    by (simp add: announcements_def r notify_services_def send_immediate_def send_ticket_def Let_def split: option.splits)
  have "send_policies env dn (p # ps) s = send_policies env (dn @ [p1]) ps (s\<lparr>av_events := ev, av_sent := snt, av_mails := ml, av_tickets := tk, av_created := cr\<rparr>)"
    unfolding t [symmetric] by (simp add: r Let_def)
  then show ?case using Cons.IH [of "dn @ [p1]" "s\<lparr>av_events := ev, av_sent := snt, av_mails := ml, av_tickets := tk, av_created := cr\<rparr>"] r e by simp
qed simp

lemma view_update:
  assumes "\<And>r q. r \<in> L \<Longrightarrow> q \<in> A \<Longrightarrow> f r = f q \<Longrightarrow> S r = S q" "\<And>r q. r \<in> L \<Longrightarrow> q \<in> L \<Longrightarrow> f r = f q \<Longrightarrow> S r = S q"
  shows "(f ` {r \<in> L. S r} - f ` {r \<in> L. f r \<notin> f ` A \<and> S r}) \<union> f ` {r \<in> A. f r \<notin> f ` L \<and> S r} = f ` {r \<in> A. S r}" (is "?l = ?r")
proof
  show "?l \<subseteq> ?r"
  proof
    fix u assume "u \<in> ?l"
    then consider (old) r where "r \<in> L" "S r" "u = f r" "u \<notin> f ` {r \<in> L. f r \<notin> f ` A \<and> S r}" | (new) "u \<in> ?r" by blast
    then show "u \<in> ?r"
    proof cases
      case old
      then obtain q where "q \<in> A" "f r = f q" by blast
      then show ?thesis using assms(1) [OF old(1)] old(2,3) by blast
    qed
  qed
  show "?r \<subseteq> ?l"
  proof
    fix u assume "u \<in> ?r"
    then obtain q where q: "q \<in> A" "S q" "u = f q" by blast
    show "u \<in> ?l"
    proof (cases "u \<in> f ` L")
      case True
      then obtain r where r: "r \<in> L" "u = f r" by blast
      then have "S r" using assms(1) [OF r(1) q(1)] q by simp
      then show ?thesis using r q(1,3) by blast
    qed (use q in blast)
  qed
qed

lemma uuid_str_eq: "al_uuid a \<noteq> None \<Longrightarrow> al_uuid b \<noteq> None \<Longrightarrow> uuid_str a = uuid_str b \<longleftrightarrow> al_uuid a = al_uuid b"
  by (auto simp: uuid_str_def)

lemma receive_follows:
  assumes inv: "alert_inv U s" and p: "policy_ok s p" "po_kind p = IMMEDIATELY"
  shows "client_view (announcements env (av_heap s) (av_alerts s) p) (shown_uuids env s (snd ` set (po_last_key_value_alerts p))) =
    shown_uuids env s (snd ` set (po_last_key_value_alerts (snd (receive_alerts (av_heap s) (en_now env) (av_alerts s) p))))"
proof (cases "policy_key IMMEDIATELY (en_now env) = po_last_key_value p")
  case True
  then show ?thesis using p(2) by (simp add: announcements_def receive_alerts_def shown_events_def Let_def)
next
  case False
  let ?h = "av_heap s"
  let ?f = "\<lambda>r. uuid_str (?h r)"
  let ?L = "snd ` set (po_last_key_value_alerts p)"
  let ?A = "set (av_alerts s)"
  have L: "r < av_next s" "al_uuid (?h r) \<noteq> None" if "r \<in> ?L" for r using that p(1) by (auto simp: policy_ok_def)
  have A: "r < av_next s" "al_uuid (?h r) \<noteq> None" if "r \<in> ?A" for r using that alert_invD(2) [OF inv] by (auto simp: list_ok_def)
  have keys: "map_of (po_last_key_value_alerts p) u = None \<longleftrightarrow> u \<notin> (\<lambda>r. al_uuid (?h r)) ` ?L" for u
    using p(1) by (auto simp: map_of_eq_None_iff policy_ok_def image_iff Bex_def)
  have akeys: "map_of (by_uuid ?h (av_alerts s) []) u = None \<longleftrightarrow> u \<notin> (\<lambda>r. al_uuid (?h r)) ` ?A" for u
    by (auto simp: by_uuid_alerts [OF inv] map_of_eq_None_iff image_image)
  have in_A: "al_uuid (?h r) \<in> (\<lambda>r. al_uuid (?h r)) ` ?A \<longleftrightarrow> ?f r \<in> ?f ` ?A" if "r \<in> ?L" for r
    using uuid_str_eq [OF L(2) [OF that] A(2)] by (auto simp: image_iff)
  have in_L: "al_uuid (?h r) \<in> (\<lambda>r. al_uuid (?h r)) ` ?L \<longleftrightarrow> ?f r \<in> ?f ` ?L" if "r \<in> ?A" for r
    using uuid_str_eq [OF A(2) [OF that] L(2)] by (auto simp: image_iff)
  have LA: "r < av_next s" "al_uuid (?h r) \<noteq> None" if "r \<in> ?L \<union> ?A" for r using that L [of r] A [of r] by blast+
  have S: "should_show_alert env (?h r) = should_show_alert env (?h q)" if r: "r \<in> ?L \<union> ?A" and q: "q \<in> ?L \<union> ?A" and e: "?f r = ?f q" for r q
  proof -
    obtain u where u: "al_uuid (?h r) = Some u" using LA(2) [OF r] by blast
    have "al_uuid (?h q) = Some u" using uuid_str_eq [OF LA(2) [OF r] LA(2) [OF q]] e u by simp
    then have "identity (?h q) = identity (?h r)" by (rule uuids_okD(2) [OF alert_invD(1) [OF inv] LA(1) [OF r] u LA(1) [OF q]])
    then show ?thesis by (rule should_show_identity [symmetric])
  qed
  have gone: "set (fst (fst (receive_alerts ?h (en_now env) (av_alerts s) p))) = {r \<in> ?L. ?f r \<notin> ?f ` ?A}"
    using False p(2) in_A by (auto simp: receive_alerts_def Let_def akeys dict_values_def)
  have new: "set (snd (fst (receive_alerts ?h (en_now env) (av_alerts s) p))) = {r \<in> ?A. ?f r \<notin> ?f ` ?L}"
    using False p(2) in_L by (auto simp: receive_alerts_def Let_def keys dict_values_def by_uuid_alerts [OF inv])
  have last: "snd ` set (po_last_key_value_alerts (snd (receive_alerts ?h (en_now env) (av_alerts s) p))) = ?A"
    using False p(2) by (simp add: receive_alerts_def Let_def by_uuid_alerts [OF inv] image_image)
  have "client_view (announcements env ?h (av_alerts s) p) (shown_uuids env s ?L) =
      (?f ` {r \<in> ?L. should_show_alert env (?h r)} - ?f ` {r \<in> ?L. ?f r \<notin> ?f ` ?A \<and> should_show_alert env (?h r)}) \<union>
      ?f ` {r \<in> ?A. ?f r \<notin> ?f ` ?L \<and> should_show_alert env (?h r)}"
  proof -
    obtain g n where r: "fst (receive_alerts ?h (en_now env) (av_alerts s) p) = (g, n)" by (metis prod.exhaust)
    have im: "uuid_str ` set (filter (should_show_alert env) (map ?h xs)) = ?f ` {r \<in> set xs. should_show_alert env (?h r)}" for xs by auto
    have "announcements env ?h (av_alerts s) p = map (\<lambda>a. AlertRemoved (uuid_str a)) (filter (should_show_alert env) (map ?h g)) @
        map (\<lambda>a. AlertAdded (uuid_str a)) (filter (should_show_alert env) (map ?h n))"
      using p(2) by (simp add: announcements_def r shown_events_def)
    then have "client_view (announcements env ?h (av_alerts s) p) (shown_uuids env s ?L) =
        (shown_uuids env s ?L - ?f ` {r \<in> set g. should_show_alert env (?h r)}) \<union> ?f ` {r \<in> set n. should_show_alert env (?h r)}"
      by (simp only: client_view_simps client_view_removed client_view_added im)
    moreover have "set g = {r \<in> ?L. ?f r \<notin> ?f ` ?A}" "set n = {r \<in> ?A. ?f r \<notin> ?f ` ?L}" using gone new r by simp_all
    ultimately show ?thesis unfolding shown_uuids_def by (simp only: mem_Collect_eq conj_assoc)
  qed
  also have "\<dots> = shown_uuids env s ?A" unfolding shown_uuids_def by (rule view_update) (use S in blast)+
  finally show ?thesis unfolding last .
qed

lemma send_alerts_state:
  assumes "sy_ready (en_before env)"
  shows "\<exists>snt ml tk cr. send_alerts env s =
    s\<lparr>av_send_submitted := False, av_events := av_events s @ concat (map (announcements env (av_heap s) (av_alerts s)) (av_policies s)),
      av_sent := snt, av_mails := ml, av_tickets := tk, av_created := cr,
      av_policies := map (\<lambda>p. snd (receive_alerts (av_heap s) (en_now env) (av_alerts s) p)) (av_policies s)\<rparr>"
proof -
  let ?s = "s\<lparr>av_send_submitted := False\<rparr>"
  have t: "send_alerts env s = send_policies env [] (av_policies s) ?s" using assms by (simp add: send_alerts_def)
  obtain ev snt ml tk cr where e: "send_alerts env s = ?s\<lparr>av_events := ev, av_sent := snt, av_mails := ml, av_tickets := tk, av_created := cr,
      av_policies := map (\<lambda>p. snd (receive_alerts (av_heap s) (en_now env) (av_alerts s) p)) (av_policies s)\<rparr>"
    using send_policies_effect [of env "[]" "av_policies s" ?s] t by auto
  have "ev = av_events (send_alerts env s)" using e by simp
  also have "\<dots> = av_events s @ concat (map (announcements env (av_heap s) (av_alerts s)) (av_policies s))"
    unfolding t send_policies_events by simp
  finally show ?thesis using e by auto
qed

lemma send_follows:
  assumes "alert_inv U s" "same_config base env"
  shows "follows base s (send_alerts env s)"
proof (cases "sy_ready (en_before env)")
  case True
  obtain p ps where p: "av_policies s = p # ps" "po_kind p = IMMEDIATELY" "policy_ok s p" "\<forall>q \<in> set ps. po_kind q \<noteq> IMMEDIATELY"
    by (rule immediate_kind [OF alert_invD(3) [OF assms(1)]])
  have "concat (map (announcements env (av_heap s) (av_alerts s)) ps) = []" using p(4) by (auto simp: announcements_def)
  then have ann: "concat (map (announcements env (av_heap s) (av_alerts s)) (av_policies s)) = announcements env (av_heap s) (av_alerts s) p"
    using p(1) by simp
  have sh: "shown_uuids env u R = shown_uuids base u R" for u R unfolding shown_uuids_def should_show_config [OF assms(2)] ..
  obtain snt ml tk cr where t: "send_alerts env s =
    s\<lparr>av_send_submitted := False, av_events := av_events s @ announcements env (av_heap s) (av_alerts s) p,
      av_sent := snt, av_mails := ml, av_tickets := tk, av_created := cr,
      av_policies := map (\<lambda>p. snd (receive_alerts (av_heap s) (en_now env) (av_alerts s) p)) (av_policies s)\<rparr>"
    using send_alerts_state [OF True, of s] unfolding ann by (elim exE)
  have "announced base (send_alerts env s) = client_view (announcements env (av_heap s) (av_alerts s) p) (announced base s)"
    using receive_follows [OF assms(1) p(3,2), of env] unfolding announced_def immediate_refs_def t sh [symmetric]
    by (simp add: p(1) shown_uuids_def)
  then show ?thesis unfolding follows_def using t by (intro exI [of _ "announcements env (av_heap s) (av_alerts s) p"]) simp
next
  case False
  have "quiet s (send_alerts env s)" using False by (simp add: quiet_def send_alerts_def grows_def)
  then show ?thesis by (rule quiet_follows [OF _ alert_invD(3) [OF assms(1)]])
qed

section \<open>Dismissing\<close>

lemma remove_equal_exact:
  "inj_on h (set qs) \<Longrightarrow> r \<in> set qs \<Longrightarrow> remove_equal h r qs = Some (remove1 r qs)"
  by (induction qs) (auto simp: inj_on_def)

lemma alerts_inj:
  assumes "alert_inv U s"
  shows "inj_on (av_heap s) (set (av_alerts s))"
  using list_ok_unique [OF alert_invD(2) [OF assms]] by (auto intro!: inj_onI)

lemma delete_on_dismiss_effect:
  assumes inv: "alert_inv U s" and r: "r \<in> set (av_alerts s)"
  shows "delete_on_dismiss r s = s\<lparr>av_alerts := remove1 r (av_alerts s),
      av_policies := map (delete_alert (al_uuid (av_heap s r))) (av_policies s), av_events := av_events s @ [AlertRemoved (uuid_str (av_heap s r))]\<rparr>"
  by (simp add: delete_on_dismiss_def Let_def remove_equal_exact [OF alerts_inj [OF inv] r] send_event_def)

lemma delete_on_dismiss_follows:
  assumes inv: "alert_inv U s" and r: "r \<in> set (av_alerts s)"
  shows "follows base s (delete_on_dismiss r s)"
proof -
  let ?h = "av_heap s"
  let ?u = "al_uuid (?h r)"
  note e = delete_on_dismiss_effect [OF assms]
  obtain p ps where p: "av_policies s = p # ps" "policy_ok s p" by (rule immediate_kind [OF alert_invD(3) [OF inv]]) blast
  have ru: "?u \<noteq> None" using alert_invD(2) [OF inv] r by (simp add: list_ok_def)
  have "immediate_refs (delete_on_dismiss r s) = {q \<in> immediate_refs s. al_uuid (?h q) \<noteq> ?u}"
  proof -
    let ?d = "po_last_key_value_alerts p"
    have "al_uuid (?h (snd x)) = fst x" if "x \<in> set ?d" for x using that p(2) by (auto simp: policy_ok_def)
    then have "snd ` {x \<in> set ?d. fst x \<noteq> ?u} = {q \<in> snd ` set ?d. al_uuid (?h q) \<noteq> ?u}" by auto
    moreover have "set (AList.delete ?u ?d) = {x \<in> set ?d. fst x \<noteq> ?u}" by (auto simp: AList.delete_eq)
    ultimately show ?thesis using p(1) by (simp add: e immediate_refs_def delete_alert_def)
  qed
  moreover have "uuid_str (?h q) = uuid_str (?h r) \<longleftrightarrow> al_uuid (?h q) = ?u" if "q \<in> immediate_refs s" for q
    using uuid_str_eq [OF immediate_refs_ok(2) [OF alert_invD(3) [OF inv] that] ru] .
  moreover have "av_heap (delete_on_dismiss r s) = ?h" by (simp add: e)
  ultimately have "announced base (delete_on_dismiss r s) = announced base s - {uuid_str (?h r)}"
    by (auto simp: announced_def shown_uuids_def)
  then show ?thesis unfolding follows_def by (intro exI [of _ "[AlertRemoved (uuid_str (?h r))]"]) (simp add: e)
qed

lemma follows_refl: "follows base s s"
  unfolding follows_def by (intro exI [of _ "[]"]) simp

lemma delete_missing_follows:
  assumes "alert_inv U s" "distinct rs" "set rs \<subseteq> set (av_alerts s)"
  shows "follows base s (delete_missing left rs s)"
  using assms
proof (induction rs arbitrary: s)
  case (Cons r rs)
  let ?t = "if av_heap s r \<notin> set left then delete_on_dismiss r s else s"
  have r: "r \<in> set (av_alerts s)" using Cons.prems(3) by simp
  have 1: "follows base s ?t" using delete_on_dismiss_follows [OF Cons.prems(1) r] follows_refl by simp
  have sub: "set rs \<subseteq> set (av_alerts ?t)"
    using Cons.prems(2,3) list_ok_distinct [OF alert_invD(2) [OF Cons.prems(1)]]
    by (auto simp: delete_on_dismiss_effect [OF Cons.prems(1) r])
  have i: "alert_inv U ?t" using Cons.prems(1) by (simp add: delete_on_dismiss_inv)
  have "follows base ?t (delete_missing left rs ?t)" by (rule Cons.IH [OF i _ sub]) (use Cons.prems(2) in simp)
  then have "follows base s (delete_missing left rs ?t)" by (rule follows_trans [OF 1])
  then show ?case unfolding delete_missing.simps .
qed (simp add: follows_refl)

lemma set_dismissed_follows:
  assumes "alert_inv U s"
  shows "follows base s (send_alert_changed_event env r (upd_alert r (\<lambda>x. x\<lparr>al_dismissed := d\<rparr>) s))"
proof -
  let ?t = "upd_alert r (\<lambda>x. x\<lparr>al_dismissed := d\<rparr>) s"
  have q: "quiet s ?t" by (simp add: quiet_def grows_def)
  have "announced base (send_event e ?t) = announced base ?t" for e
    by (simp add: announced_def immediate_refs_def shown_uuids_def send_event_def)
  then have "follows base ?t (send_event (AlertChanged w) ?t)" for w unfolding follows_def
    by (intro exI [of _ "[AlertChanged w]"]) (simp add: send_event_def)
  then have "follows base ?t (send_alert_changed_event env r ?t)"
    using follows_refl by (simp add: send_alert_changed_event_def)
  then show ?thesis using quiet_follows [OF q alert_invD(3) [OF assms]] follows_trans by blast
qed

lemma alert_by_uuid_in: "alert_by_uuid u s = Some r \<Longrightarrow> r \<in> set (av_alerts s)"
  by (auto simp: alert_by_uuid_def find_Some_iff)

lemma dismiss_follows:
  assumes "alert_inv U s"
  shows "follows base s (dismiss env u s)"
proof (cases "alert_by_uuid u s")
  case (Some r)
  note r = alert_by_uuid_in [OF Some]
  have d: "distinct (filter P (av_alerts s))" "set (filter P (av_alerts s)) \<subseteq> set (av_alerts s)" for P
    using list_ok_distinct [OF alert_invD(2) [OF assms]] by auto
  show ?thesis unfolding dismiss_def Some option.case Let_def
    using delete_missing_follows [OF assms d] delete_on_dismiss_follows [OF assms r] set_dismissed_follows [OF assms]
    by (simp split: option.split)
qed (simp add: dismiss_def follows_refl)

lemma restore_follows:
  assumes "alert_inv U s"
  shows "follows base s (restore env u s)"
  using set_dismissed_follows [OF assms] follows_refl by (simp add: restore_def split: option.split)

section \<open>All steps\<close>

lemma process_quiet:
  assumes "alert_inv U s" "env_ok env" "en_uuid env = U"
  shows "quiet s (process_alerts env s)"
proof -
  let ?t = "expire_alerts env (run_alerts env s)"
  have q: "quiet s ?t" using run_alerts_grows [OF assms] by (simp add: quiet_def expire_alerts_def grows_def)
  obtain rs u where al: "alloc_all (map (av_heap s) (av_alerts s)) ?t = (rs, u)" by (metis prod.exhaust)
  obtain h where "u = ?t\<lparr>av_heap := h, av_next := av_next ?t + length (map (av_heap s) (av_alerts s))\<rparr>" "\<And>q. q < av_next ?t \<Longrightarrow> h q = av_heap ?t q"
    by (rule alloc_all_obtain [OF al]) blast
  then have "quiet ?t (u\<lparr>av_alerts := rs\<rparr>)" by (simp add: quiet_def grows_def)
  then have "quiet s (u\<lparr>av_alerts := rs\<rparr>)" using q grows_trans unfolding quiet_def by metis
  moreover have "quiet s (submit_send ?t)" using q by (simp add: quiet_def submit_send_def grows_def)
  moreover have "quiet s s" by (simp add: quiet_def)
  ultimately show ?thesis using al by (simp add: process_alerts_def Let_def)
qed

lemma oneshot_create_quiet:
  assumes "alert_inv U s" "inj U" "en_uuid env = U"
  shows "quiet s (snd (oneshot_create env name args s))"
proof (cases "\<exists>k. map_of (en_classes env) name = Some k \<and> kl_one_shot k")
  case True
  then obtain k where k: "map_of (en_classes env) name = Some k" "kl_one_shot k" by blast
  obtain h n rs where "oneshot_create env name args s =
      (None, submit_send (s\<lparr>av_heap := h, av_next := Suc (av_next s), av_next_uuid := n, av_alerts := rs @ [av_next s]\<rparr>))"
    "\<forall>q < av_next s. h q = av_heap s q" "av_next_uuid s \<le> n"
    using oneshot_created [OF assms k, of args] by blast
  then show ?thesis by (simp add: quiet_def grows_def submit_send_def)
next
  case False
  then have "snd (oneshot_create env name args s) = s" by (auto simp: oneshot_create_def split: option.splits)
  then show ?thesis by (simp add: quiet_def)
qed

lemma simple_quiet:
  "quiet s (flush_alerts env s)" "quiet s (snd (block_source env name timeout s))" "quiet s (unblock_source lock s)"
  "quiet s (block_failover_alerts env s)" "quiet s (snd (alert_source_clear_run env name s))" "quiet s (event_system_ready s)"
  "quiet s (snd (oneshot_delete env klasses query s))"
  using unblock_source_ex [of lock s] oneshot_delete_ex [of env klasses query s]
  by (auto simp: quiet_def grows_def flush_alerts_def block_source_def block_failover_alerts_def alert_source_clear_run_def
      event_system_ready_def submit_send_def Let_def)

lemma work_follows:
  assumes "alert_work base s t" "service_inv base s"
  shows "follows base s t"
proof -
  have inv: "alert_inv (en_uuid base) s" using assms(2) by (simp add: service_inv_def)
  note qf = quiet_follows [OF _ alert_invD(3) [OF inv]]
  show ?thesis using assms(1)
  proof cases
    case (w_process env)
    then show ?thesis using qf [OF process_quiet [OF inv step_envD(1,2)]] by simp
  next
    case (w_send env)
    then show ?thesis using send_follows [OF inv] by (simp add: step_env_def)
  next
    case (w_create env name args)
    then show ?thesis using qf [OF oneshot_create_quiet [OF inv step_envD(3,2)]] by simp
  next
    case (w_created env)
    show ?thesis
    proof (cases "av_created s")
      case (Cons x rest)
      let ?s = "s\<lparr>av_created := rest\<rparr>"
      have "quiet ?s (snd (oneshot_create env (fst x) (snd x) ?s))"
        using oneshot_create_quiet [OF simple_inv(4) [OF inv] step_envD(3,2)] w_created by blast
      then have "quiet s (snd (oneshot_create env (fst x) (snd x) ?s))" by (simp add: quiet_def grows_def)
      then show ?thesis using qf w_created Cons by (simp add: run_submitted_create_def case_prod_beta)
    qed (use w_created follows_refl in \<open>simp add: run_submitted_create_def\<close>)
  qed (use dismiss_follows [OF inv] restore_follows [OF inv] qf [OF simple_quiet(1)] qf [OF simple_quiet(2)] qf [OF simple_quiet(3)]
      qf [OF simple_quiet(4)] qf [OF simple_quiet(5)] qf [OF simple_quiet(6)] qf [OF simple_quiet(7)] in simp_all)
qed

lemma works_follow:
  assumes "(alert_work base)\<^sup>*\<^sup>* s t" "service_inv base s"
  shows "follows base s t \<and> service_inv base t"
  using assms(1)
proof (induction rule: rtranclp_induct)
  case base
  then show ?case using assms(2) follows_refl by simp
next
  case (step t u)
  then show ?case using work_follows alert_work_inv follows_trans by blast
qed

lemma send_announces:
  assumes "alert_inv U s" "same_config base env" "sy_ready (en_before env)" "po_last_key_value (hd (av_policies s)) \<noteq> Some (AtTime (en_now env))"
  shows "announced base (send_alerts env s) = shown_uuids base (send_alerts env s) (set (av_alerts (send_alerts env s)))"
proof -
  obtain p ps where p: "av_policies s = p # ps" "po_kind p = IMMEDIATELY"
    by (rule immediate_kind [OF alert_invD(3) [OF assms(1)]]) blast
  have "snd ` set (po_last_key_value_alerts (snd (receive_alerts (av_heap s) (en_now env) (av_alerts s) p))) = set (av_alerts s)"
    using assms(4) p by (simp add: receive_alerts_def policy_key_def Let_def by_uuid_alerts [OF assms(1)] image_image)
  moreover have "hd (av_policies (send_alerts env s)) = snd (receive_alerts (av_heap s) (en_now env) (av_alerts s) p)"
      "av_alerts (send_alerts env s) = av_alerts s"
    using send_alerts_state [OF assms(3), of s] p(1) by auto
  ultimately have "immediate_refs (send_alerts env s) = set (av_alerts (send_alerts env s))" by (simp add: immediate_refs_def)
  then show ?thesis by (simp add: announced_def)
qed

end
