(* ===== verification/Alert_Laws.thy ===== *)
theory Alert_Laws
  imports Alert_Events "HOL-Library.Multiset"
begin

text \<open>
  Lemmas on whole operations of the alert service: a run of the sources, blocked sources, what the
  notifications contain, and a restart from the database.
\<close>

section \<open>Runs\<close>

lemma reachable_inv:
  assumes "reachable_alerts base s"
  shows "alert_inv (en_uuid base) s" "dict_wf (av_locks s)"
  using alerts.reach_inv [OF assms] by (simp_all add: service_inv_def)

text \<open>A run and the expiry of one-shot alerts.\<close>

lemma process_keeps:
  assumes inv: "alert_inv U s" and env: "env_ok env" "en_uuid env = U" and q: "q \<in> set (av_alerts s)"
    and r: "r \<in> set (av_alerts (process_alerts env s))" and e: "identity (av_heap s q) = identity (av_heap (process_alerts env s) r)"
  shows "keeps (av_heap s q) (av_heap (process_alerts env s) r)"
proof -
  let ?t = "expire_alerts env (run_alerts env s)"
  obtain rs u where al: "alloc_all (map (av_heap s) (av_alerts s)) ?t = (rs, u)" by (metis prod.exhaust)
  consider (skip) "process_alerts env s = s" | (copied) "process_alerts env s = u\<lparr>av_alerts := rs\<rparr>" | (run) "process_alerts env s = submit_send ?t"
    by (cases "should_run_or_send_alerts (en_before env)"; cases "should_run_or_send_alerts (en_after env)")
      (simp_all add: process_alerts_def al Let_def)
  then show ?thesis
  proof cases
    case skip
    then show ?thesis using list_ok_unique [OF alert_invD(2) [OF inv] q] r e by (auto simp: keeps_def)
  next
    case copied
    obtain h where h: "u = ?t\<lparr>av_heap := h, av_next := av_next ?t + length (map (av_heap s) (av_alerts s))\<rparr>" "map h rs = map (av_heap s) (av_alerts s)"
      by (rule alloc_all_obtain [OF al]) blast
    have "h r \<in> set (map h rs)" using r copied by simp
    then obtain p where p: "p \<in> set (av_alerts s)" "h r = av_heap s p" unfolding h(2) by auto
    have "q = p" using list_ok_unique [OF alert_invD(2) [OF inv] q p(1)] e p(2) copied h(1) by simp
    then show ?thesis using p copied h(1) by (simp add: keeps_def)
  next
    case run
    obtain lk bl where ub: "unblock_expired (en_monotonic env) (av_locks s) s = s\<lparr>av_locks := lk, av_blocked := bl\<rparr>"
      using unblock_expired_ex by blast
    have "r \<in> set (av_alerts (run_alerts env s))" using r run by (simp add: submit_send_def expire_alerts_def)
    then show ?thesis using run_alerts_effect [OF inv env] q e run unfolding ub round_effect_def
      by (simp add: submit_send_def expire_alerts_def)
  qed
qed

section \<open>Blocked sources\<close>

lemma seen_again_trans: "seen_again now a b \<Longrightarrow> seen_again now b c \<Longrightarrow> seen_again now a c"
  by (auto simp: seen_again_def)

lemma seen_again_refl: "seen_again now a a"
  by (simp add: seen_again_def)

definition source_refs :: "string \<Rightarrow> alert_state \<Rightarrow> aref set" where
  "source_refs name s = {r \<in> set (av_alerts s). al_source (av_heap s r) = Some name}"

definition nodes_ok :: "string \<Rightarrow> AlertFailoverInfo \<Rightarrow> alert_state \<Rightarrow> bool" where
  "nodes_ok name fi s \<longleftrightarrow> (\<forall>r \<in> source_refs name s. al_node (av_heap s r) \<in> {Some (fi_this_node fi), Some (fi_other_node fi)})"

lemma run_one_blocked:
  assumes inv: "alert_inv U s" and env: "env_ok env" "en_uuid env = U" and fi: "fi_this_node fi \<noteq> fi_other_node fi"
    and b: "av_blocked s name \<noteq> {}" and n: "nodes_ok name fi s"
  shows "source_refs name (run_one env fi m src s) = source_refs name s \<and>
    (\<forall>r \<in> source_refs name s. seen_again (en_now env) (av_heap s r) (av_heap (run_one env fi m src s) r))"
proof (cases "m = name \<and> \<not> skip_source env fi m src s")
  case True
  then obtain h rs where t: "run_one env fi name src s = s\<lparr>av_last_run := AList.update name (en_now env) (av_last_run s), av_heap := h, av_alerts := rs\<rparr>"
    and h: "\<And>r. seen_again (en_now env) (av_heap s r) (h r)"
    and rs: "set rs = {r \<in> set (av_alerts s). al_source (av_heap s r) = Some name \<longrightarrow> al_node (av_heap s r) \<in> {Some (fi_this_node fi), Some (fi_other_node fi)}}"
    using run_one_locked [OF inv _ b] by blast
  have "al_source (h r) = al_source (av_heap s r)" for r using seen_again_same [OF h] by blast
  then have "source_refs name (run_one env fi name src s) = source_refs name s"
    using n rs unfolding t source_refs_def nodes_ok_def by auto
  then show ?thesis using True t h by simp
next
  case False
  let ?t = "run_one env fi m src s"
  show ?thesis
  proof (cases "skip_source env fi m src s")
    case True
    then show ?thesis by (simp add: run_one_def seen_again_refl)
  next
    case ns: False
    have eff: "run_effect m s ?t" using run_one_effect [OF inv env fi] by blast
    have h: "av_heap ?t r = av_heap s r" if "r \<in> source_refs name s" for r
      using that eff False ns alert_ref_lt [OF inv] by (auto simp: run_effect_def source_refs_def)
    moreover have "source_refs name ?t = source_refs name s"
    proof
      show "source_refs name ?t \<subseteq> source_refs name s"
      proof
        fix r assume "r \<in> source_refs name ?t"
        then have a: "r \<in> set (av_alerts s)" "al_source (av_heap ?t r) = Some name" using eff False ns by (auto simp: run_effect_def source_refs_def)
        then show "r \<in> source_refs name s" using eff alert_ref_lt [OF inv a(1)] by (simp add: run_effect_def source_refs_def)
      qed
      show "source_refs name s \<subseteq> source_refs name ?t"
      proof
        fix r assume r: "r \<in> source_refs name s"
        then have "al_source (av_heap ?t r) \<noteq> Some m" "r \<in> set (av_alerts s)" using h [OF r] False ns by (auto simp: source_refs_def)
        then have "r \<in> set (av_alerts ?t)" using eff by (simp add: run_effect_def)
        then show "r \<in> source_refs name ?t" using h [OF r] r by (simp add: source_refs_def)
      qed
    qed
    ultimately show ?thesis by (simp add: seen_again_refl)
  qed
qed

lemma run_sources_blocked:
  assumes "alert_inv U s" "env_ok env" "en_uuid env = U" "fi_this_node fi \<noteq> fi_other_node fi" "av_blocked s name \<noteq> {}" "nodes_ok name fi s"
  shows "source_refs name (run_sources env fi xs s) = source_refs name s \<and>
    (\<forall>r \<in> source_refs name s. seen_again (en_now env) (av_heap s r) (av_heap (run_sources env fi xs s) r))"
  using assms(1,5,6)
proof (induction xs arbitrary: s)
  case (Cons x xs)
  obtain m src where x: "x = (m, src)" by (cases x)
  let ?t = "run_one env fi m src s"
  have one: "source_refs name ?t = source_refs name s" "\<And>r. r \<in> source_refs name s \<Longrightarrow> seen_again (en_now env) (av_heap s r) (av_heap ?t r)"
    using run_one_blocked [OF Cons.prems(1) assms(2-4) Cons.prems(2,3)] by auto
  have t: "alert_inv U ?t" "av_blocked ?t name \<noteq> {}"
    using run_one_effect [OF Cons.prems(1) assms(2-4)] Cons.prems(2) by (auto simp: run_effect_def)
  have "nodes_ok name fi ?t" using Cons.prems(3) one seen_again_same(3) [OF one(2)] by (simp add: nodes_ok_def)
  from Cons.IH [OF t this] show ?case using one x seen_again_trans by fastforce
qed (simp add: seen_again_refl)

lemma unexpired_lock:
  assumes "k \<in> av_blocked s name" "\<forall>(k', l) \<in> set ls. k' = k \<longrightarrow> t < sl_expires_at l"
  shows "k \<in> av_blocked (unblock_expired t ls s) name"
  using assms
proof (induction t ls s rule: unblock_expired.induct)
  case (2 t k' l ls s)
  have "k \<in> av_blocked (if sl_expires_at l \<le> t then unblock_source k' s else s) name"
    using 2(2,3) by (auto simp: unblock_source_def split: option.splits)
  then show ?case using 2 by simp
qed simp

section \<open>Notifications\<close>

lemma drop_recreated_props:
  assumes "drop_recreated h gs gone new = (gone', new')" "inj_on h (set gone)" "distinct gone" "inj_on h (set new)"
  shows "set gone' \<subseteq> set gone \<and> set new' \<subseteq> set new \<and>
    (\<forall>g \<in> set gs. g \<in> set gone' \<longrightarrow> (\<forall>n \<in> set new'. \<not> same_alert (h g) (h n)))"
  using assms
proof (induction gs arbitrary: gone new)
  case (Cons g gs)
  show ?case
  proof (cases "find (\<lambda>n. same_alert (h g) (h n)) new")
    case None
    then have "\<And>n. n \<in> set new \<Longrightarrow> \<not> same_alert (h g) (h n)" by (simp add: find_None_iff)
    moreover have "drop_recreated h gs gone new = (gone', new')" using Cons.prems(1) None by simp
    ultimately show ?thesis using Cons.IH [OF _ Cons.prems(2-4)] by auto
  next
    case (Some n)
    let ?gone = "case remove_equal h g gone of None \<Rightarrow> gone | Some xs \<Rightarrow> xs"
    let ?new = "case remove_equal h n new of None \<Rightarrow> new | Some xs \<Rightarrow> xs"
    have n: "n \<in> set new" using Some by (auto simp: find_Some_iff)
    have new: "set ?new \<subseteq> set new" using n remove_equal_exact [OF Cons.prems(4) n] by (simp add: set_remove1_subset)
    have gone: "set ?gone \<subseteq> set gone" "distinct ?gone" using remove_equal_props [of h g gone] Cons.prems(3) by (auto split: option.split)
    have g: "g \<in> set gone \<Longrightarrow> g \<notin> set ?gone" using remove_equal_exact [OF Cons.prems(2)] Cons.prems(3) by simp
    have "drop_recreated h gs ?gone ?new = (gone', new')" using Cons.prems(1) Some by simp
    from Cons.IH [OF this inj_on_subset [OF Cons.prems(2) gone(1)] gone(2) inj_on_subset [OF Cons.prems(4) new]]
    show ?thesis using gone(1) new g by auto
  qed
qed simp

text \<open>What is sent to the services, policy by policy.\<close>

definition notices :: "alert_env \<Rightarrow> alert_state \<Rightarrow> alert_policy \<Rightarrow> notification list" where
  "notices env s p = (case fst (receive_alerts (av_heap s) (en_now env) (av_alerts s) p) of (gone, new) \<Rightarrow>
     List.map_filter (\<lambda>svc. service_notification env (po_kind p) gone new svc s) (en_services env))"

lemma notices_same:
  "notices env (s\<lparr>av_events := ev, av_sent := snt, av_mails := ml, av_tickets := tk, av_created := cr\<rparr>) = notices env s"
  by (rule ext) (simp add: notices_def service_notification_def)

lemma send_policies_sent:
  "av_sent (send_policies env dn ps s) = av_sent s @ concat (map (notices env s) ps)"
proof (induction ps arbitrary: dn s)
  case (Cons p ps)
  obtain gone new p1 where r: "receive_alerts (av_heap s) (en_now env) (av_alerts s) p = ((gone, new), p1)" by (metis prod.exhaust)
  obtain ev snt ml tk cr where t: "(let s1 = notify_services env (po_kind p) gone new s in if po_kind p = IMMEDIATELY then send_immediate env gone new s1 else s1) =
     s\<lparr>av_events := ev, av_sent := snt, av_mails := ml, av_tickets := tk, av_created := cr\<rparr>" using send_step_ex by blast
  have "snt = av_sent (let s1 = notify_services env (po_kind p) gone new s in if po_kind p = IMMEDIATELY then send_immediate env gone new s1 else s1)"
    unfolding t by simp
  then have e: "snt = av_sent s @ notices env s p"
    by (simp add: notices_def r notify_services_def send_immediate_def send_ticket_def Let_def split: option.splits)
  have "send_policies env dn (p # ps) s = send_policies env (dn @ [p1]) ps (s\<lparr>av_events := ev, av_sent := snt, av_mails := ml, av_tickets := tk, av_created := cr\<rparr>)"
    unfolding t [symmetric] by (simp add: r Let_def)
  then show ?case using Cons.IH [of "dn @ [p1]" "s\<lparr>av_events := ev, av_sent := snt, av_mails := ml, av_tickets := tk, av_created := cr\<rparr>"] e
    by (simp add: notices_same)
qed simp

lemma receive_lists:
  assumes inv: "alert_inv U s" and p: "policy_ok s p" and r: "fst (receive_alerts (av_heap s) now (av_alerts s) p) = (gone, new)"
  shows "inj_on (av_heap s) (set gone)" "distinct gone" "inj_on (av_heap s) (set new)"
proof -
  let ?d = "po_last_key_value_alerts p"
  have k: "map (\<lambda>x. al_uuid (av_heap s (snd x))) ?d = map fst ?d" using p by (auto simp: policy_ok_def)
  have "distinct (map (\<lambda>x. al_uuid (av_heap s (snd x))) ?d)" unfolding k using p by (simp add: policy_ok_def dict_wf_def)
  then have "distinct (map (\<lambda>r. al_uuid (av_heap s r)) (map snd ?d))" by (simp add: comp_def)
  then have d: "distinct (map snd ?d)" "inj_on (\<lambda>r. al_uuid (av_heap s r)) (set (map snd ?d))" unfolding distinct_map by auto
  have "inj_on (av_heap s) (set (map snd ?d))" using d(2) by (auto simp: inj_on_def)
  moreover have "set gone \<subseteq> set (map snd ?d)" "distinct gone" "set new \<subseteq> set (av_alerts s)"
    using r d(1) by (auto simp: receive_alerts_def Let_def dict_values_def by_uuid_alerts [OF inv] split: if_splits)
  ultimately show "inj_on (av_heap s) (set gone)" "distinct gone" "inj_on (av_heap s) (set new)"
    using alerts_inj [OF inv] inj_on_subset by blast+
qed

lemma notice_no_recreated:
  assumes inv: "alert_inv U s" and p: "policy_ok s p" and n: "n \<in> set (notices env s p)" and g: "g \<in> set (no_gone n)" and w: "w \<in> set (no_new n)"
  shows "\<not> same_alert g w"
proof -
  let ?h = "av_heap s"
  obtain gone new where r: "fst (receive_alerts ?h (en_now env) (av_alerts s) p) = (gone, new)" by (metis prod.exhaust)
  obtain svc where sv: "service_notification env (po_kind p) gone new svc s = Some n"
    using n r by (auto simp: notices_def List.map_filter_def)
  obtain name level where svc: "svc = (name, level)" by (cases svc)
  define gone0 where "gone0 = filter (\<lambda>r. for_service env level (\<lambda>k. k = po_kind p) (?h r)) gone"
  define new0 where "new0 = filter (\<lambda>r. for_service env level (\<lambda>k. k = po_kind p) (?h r)) new"
  obtain gone1 new1 where d: "drop_recreated ?h gone0 gone0 new0 = (gone1, new1)" by (metis prod.exhaust)
  have gn: "no_gone n = map ?h (not_dismissed ?h gone1)" "no_new n = map ?h (not_dismissed ?h new1)"
    using sv svc d unfolding gone0_def new0_def
    by (auto simp: service_notification_def Let_def split: if_splits)
  note l = receive_lists [OF inv p r]
  have "set gone1 \<subseteq> set gone0 \<and> (\<forall>g \<in> set gone0. g \<in> set gone1 \<longrightarrow> (\<forall>n \<in> set new1. \<not> same_alert (?h g) (?h n)))"
    using drop_recreated_props [OF d inj_on_subset [OF l(1)] _ inj_on_subset [OF l(3)]] l(2) by (auto simp: gone0_def new0_def)
  then show ?thesis using g w unfolding gn by (auto simp: not_dismissed_def)
qed

section \<open>A restart\<close>

text \<open>Alerts that the next start keeps as they are: their class and source still exist.\<close>

definition storable :: "alert_env \<Rightarrow> alert \<Rightarrow> bool" where
  "storable env a \<longleftrightarrow> class_of env a \<noteq> None \<and>
     (case al_source a of None \<Rightarrow> True | Some src \<Rightarrow> src = [] \<or> map_of (en_sources env) src \<noteq> None) \<and>
     al_text a \<noteq> [] \<and> al_last_occurrence a \<noteq> None"

definition loads_all :: "alert_env \<Rightarrow> bool" where
  "loads_all env \<longleftrightarrow> (\<forall>(name, k) \<in> set (en_classes env). \<forall>as. kl_load k as = as)"

lemma row_alert_storable: "storable env a \<Longrightarrow> al_mail a = None \<Longrightarrow> row_alert env a = a"
  by (cases a) (auto simp: storable_def row_alert_def new_alert_def opt_or_def str_or_def class_of_def split: option.splits)

lemma load_rows_storable:
  assumes "\<And>a. a \<in> set rows \<Longrightarrow> storable env a" "distinct (map al_uuid rows)" "al_uuid ` set rows \<inter> seen = {}"
  shows "load_rows env seen rows = rows"
  using assms
proof (induction rows arbitrary: seen)
  case (Cons a rows)
  have "load_rows env (insert (al_uuid a) seen) rows = rows" using Cons.prems by (intro Cons.IH) auto
  moreover have "storable env a" "al_uuid a \<notin> seen" using Cons.prems by auto
  ultimately show ?case by (auto simp: storable_def split: option.splits)
qed simp

lemma mset_by_class:
  "distinct names \<Longrightarrow> mset (concat (map (\<lambda>n. filter (\<lambda>a. f a = n) as) names)) = filter_mset (\<lambda>a. f a \<in> set names) (mset as)"
proof (induction names)
  case (Cons n names)
  have "filter_mset (\<lambda>a. f a = n) (mset as) + filter_mset (\<lambda>a. f a \<in> set names) (mset as) = filter_mset (\<lambda>a. f a \<in> set (n # names)) (mset as)"
    using Cons.prems by (induction as) auto
  then show ?case using Cons by simp
qed simp

lemma loaded_storable:
  assumes "\<And>a. a \<in> set rows \<Longrightarrow> storable env a \<and> al_mail a = None" "distinct (map al_uuid rows)" "loads_all env"
  shows "mset (loaded_alerts env rows) = mset rows"
proof -
  have l: "load_rows env {} rows = rows" using load_rows_storable [of rows env "{}"] assms(1,2) by simp
  have m: "map (row_alert env) rows = rows" using assms(1) row_alert_storable by (simp add: map_idI)
  have c: "load_class env rows = (\<lambda>n. filter (\<lambda>a. al_class a = n) rows)"
  proof
    fix n
    have "kl_load k as = as" if "map_of (en_classes env) n = Some k" for k as
      using assms(3) map_of_SomeD [OF that] by (auto simp: loads_all_def)
    then show "load_class env rows n = filter (\<lambda>a. al_class a = n) rows" by (simp add: load_class_def Let_def split: option.split)
  qed
  have "mset (loaded_alerts env rows) = filter_mset (\<lambda>a. al_class a \<in> set (rev (remdups (rev (map al_class rows))))) (mset rows)"
    unfolding loaded_alerts_def l m c Let_def by (rule mset_by_class) simp
  also have "\<dots> = mset rows" by (simp add: filter_mset_eq_conv)
  finally show ?thesis .
qed

lemma initialize_alerts:
  "map (av_heap (initialize env True (new_alert_service rows))) (av_alerts (initialize env True (new_alert_service rows))) = loaded_alerts env rows"
proof -
  let ?s = "(new_alert_service rows)\<lparr>av_node := (if en_enterprise env \<and> en_failover_node env = ''B'' then ''B'' else ''A''), av_alerts := []\<rparr>"
  obtain rs t where al: "alloc_all (loaded_alerts env rows) ?s = (rs, t)" by (metis prod.exhaust)
  obtain h where "t = ?s\<lparr>av_heap := h, av_next := av_next ?s + length (loaded_alerts env rows)\<rparr>" "map h rs = loaded_alerts env rows"
    by (rule alloc_all_obtain [OF al]) blast
  then show ?thesis using al by (simp add: initialize_def Let_def new_alert_service_def)
qed

lemma start_announced:
  assumes "alert_start base s"
  shows "announced base s = shown_uuids base s (set (av_alerts s))"
  using assms
proof cases
  case (a_start env rows)
  have inv: "alert_inv (en_uuid base) s" using alert_start_inv [OF assms] by (simp add: service_inv_def)
  have "hd (av_policies s) = snd (receive_alerts (av_heap s) (en_now env) (av_alerts s) (new_policy IMMEDIATELY))"
    unfolding a_start(1) by (simp add: initialize_def Let_def initial_policies_def split: prod.split)
  then have "immediate_refs s = set (av_alerts s)"
    by (simp add: immediate_refs_def receive_alerts_def new_policy_def policy_key_def Let_def by_uuid_alerts [OF inv] image_image)
  then show ?thesis by (simp add: announced_def)
qed

end
