(* ===== verification/Alert_Properties.thy ===== *)
theory Alert_Properties
  imports Alert_Laws
begin

text \<open>
  What the alert service promises: alerts are told apart, keep their uuid from run to run and
  over a restart, and clients that follow the events see the list.
\<close>

section \<open>A system with two one-shot classes and one source\<close>

definition example_class :: "bool \<Rightarrow> alert_class" where
  "example_class one_shot =
     \<lparr>kl_category = SYSTEM, kl_level = CRITICAL, kl_title = ''Title'', kl_text = Some ''Text'', kl_exclude_from_list = False,
      kl_products = both_products, kl_proactive_support = False, kl_proactive_support_notify_gone = False,
      kl_deleted_automatically = True, kl_expires_after = None, kl_keys = None, kl_one_shot = one_shot, kl_dismissable = False,
      kl_key_from_args = (\<lambda>v. v), kl_delete = None, kl_load = (\<lambda>as. as), kl_dismiss = (\<lambda>as _. as)\<rparr>"

definition example_system :: system_status where
  "example_system = \<lparr>sy_ready = True, sy_licensed = False, sy_failover_status = ''SINGLE'', sy_in_progress = False\<rparr>"

definition example_env :: "policy_kind option \<Rightarrow> seconds \<Rightarrow> alert list \<Rightarrow> alert_env" where
  "example_env policy now as =
     \<lparr>en_now = now, en_monotonic = now, en_uuid = (\<lambda>n. replicate (Suc n) CHR ''x''), en_float_repr = (\<lambda>_. ''0.0''),
      en_percent = (\<lambda>_ _. None), en_html2text = id, en_utcoffset = (\<lambda>_. 0),
      en_classes = [(''Quota'', example_class True), (''Update'', example_class True), (''Disk'', example_class False)],
      en_settings = (\<lambda>_. \<lparr>cs_level = None, cs_policy = policy, cs_proactive_support = None\<rparr>),
      en_product_type = ''COMMUNITY_EDITION'',
      en_sources = [(''Disks'', \<lparr>so_products = both_products, so_schedule = IntervalSchedule 0, so_failover_related = False,
        so_run_on_backup_node = False, so_require_stable_peer = False\<rparr>)],
      en_services = [(''Mail'', INFO)], en_EALERTCHECKERUNAVAILABLE = 300, en_check = (\<lambda>_. Checked as), en_run_time = (\<lambda>_. 0),
      en_remote = (\<lambda>_. RemoteAlerts []), en_before = example_system, en_after = example_system, en_failover_node = ''A'', en_enterprise = False,
      en_same_version = None, en_remote_state = None, en_remote_status = None, en_remote_uptime = None, en_support = False,
      en_support_fields = [], en_serial = [], en_ticket_error = None\<rparr>"

lemma example_class_simps [simp]:
  "kl_category (example_class one_shot) = SYSTEM"
  "kl_level (example_class one_shot) = CRITICAL"
  "kl_title (example_class one_shot) = ''Title''"
  "kl_text (example_class one_shot) = Some ''Text''"
  "kl_exclude_from_list (example_class one_shot) = False"
  "kl_products (example_class one_shot) = both_products"
  "kl_proactive_support (example_class one_shot) = False"
  "kl_proactive_support_notify_gone (example_class one_shot) = False"
  "kl_deleted_automatically (example_class one_shot) = True"
  "kl_expires_after (example_class one_shot) = None"
  "kl_keys (example_class one_shot) = None"
  "kl_one_shot (example_class one_shot) = one_shot"
  "kl_dismissable (example_class one_shot) = False"
  "kl_key_from_args (example_class one_shot) = (\<lambda>v. v)"
  "kl_delete (example_class one_shot) = None"
  "kl_load (example_class one_shot) = (\<lambda>as. as)"
  "kl_dismiss (example_class one_shot) = (\<lambda>as _. as)"
  by (simp_all add: example_class_def)

lemma example_env_simps [simp]:
  "en_now (example_env policy now as) = now"
  "en_monotonic (example_env policy now as) = now"
  "en_uuid (example_env policy now as) = (\<lambda>n. replicate (Suc n) CHR ''x'')"
  "en_float_repr (example_env policy now as) = (\<lambda>_. ''0.0'')"
  "en_percent (example_env policy now as) = (\<lambda>_ _. None)"
  "en_html2text (example_env policy now as) = id"
  "en_utcoffset (example_env policy now as) = (\<lambda>_. 0)"
  "en_classes (example_env policy now as) = [(''Quota'', example_class True), (''Update'', example_class True), (''Disk'', example_class False)]"
  "en_settings (example_env policy now as) = (\<lambda>_. \<lparr>cs_level = None, cs_policy = policy, cs_proactive_support = None\<rparr>)"
  "en_product_type (example_env policy now as) = ''COMMUNITY_EDITION''"
  "en_sources (example_env policy now as) = [(''Disks'', \<lparr>so_products = both_products, so_schedule = IntervalSchedule 0, so_failover_related = False, so_run_on_backup_node = False, so_require_stable_peer = False\<rparr>)]"
  "en_services (example_env policy now as) = [(''Mail'', INFO)]"
  "en_EALERTCHECKERUNAVAILABLE (example_env policy now as) = 300"
  "en_check (example_env policy now as) = (\<lambda>_. Checked as)"
  "en_run_time (example_env policy now as) = (\<lambda>_. 0)"
  "en_remote (example_env policy now as) = (\<lambda>_. RemoteAlerts [])"
  "en_before (example_env policy now as) = example_system"
  "en_after (example_env policy now as) = example_system"
  "en_failover_node (example_env policy now as) = ''A''"
  "en_enterprise (example_env policy now as) = False"
  "en_same_version (example_env policy now as) = None"
  "en_remote_state (example_env policy now as) = None"
  "en_remote_status (example_env policy now as) = None"
  "en_remote_uptime (example_env policy now as) = None"
  "en_support (example_env policy now as) = False"
  "en_support_fields (example_env policy now as) = []"
  "en_serial (example_env policy now as) = []"
  "en_ticket_error (example_env policy now as) = None"
  by (simp_all add: example_env_def)

definition disk_alert :: "string \<Rightarrow> alert" where
  "disk_alert k = \<lparr>al_class = ''Disk'', al_args = PNone, al_datetime = None, al_last_occurrence = None, al_node = None, al_dismissed = None,
     al_mail = None, al_uuid = None, al_source = None, al_key = k, al_text = ''Text''\<rparr>"

lemma example_step_env:
  assumes "\<forall>a \<in> set as. al_uuid a = None"
  shows "step_env (example_env policy 0 []) (example_env policy now as)"
proof -
  have "inj (\<lambda>n. replicate (Suc n) CHR ''x'')" by (rule injI) (metis Suc_inject length_replicate)
  then show ?thesis using assms by (auto simp: step_env_def same_config_def env_ok_def example_env_def dict_wf_def)
qed

definition example_alerts :: "policy_kind option \<Rightarrow> alert_state" where
  "example_alerts policy = initialize (example_env policy 100 []) True (new_alert_service [])"

lemma example_alerts_start: "alert_start (example_env policy 0 []) (example_alerts policy)"
  unfolding example_alerts_def
  by (rule a_start) (simp_all add: example_step_env rows_ok_def loads_ok_def)


definition example_two :: alert_state where
  "example_two = snd (oneshot_create (example_env None 300 []) ''Update'' PNone
     (snd (oneshot_create (example_env None 200 []) ''Quota'' PNone (example_alerts None))))"

lemma example_two_alerts:
  "map (\<lambda>r. (al_class (av_heap example_two r), al_uuid (av_heap example_two r))) (av_alerts example_two) = [(''Quota'', Some ''x''), (''Update'', Some ''xx'')]"
  by code_simp

lemma example_two_reachable: "reachable_alerts (example_env None 0 []) example_two"
proof -
  let ?s = "snd (oneshot_create (example_env None 200 []) ''Quota'' PNone (example_alerts None))"
  have "alert_step (example_env None 0 []) (example_alerts None) ?s" by (rule s_work, rule w_create) (simp add: example_step_env)
  moreover have "alert_step (example_env None 0 []) ?s example_two" unfolding example_two_def
    by (rule s_work, rule w_create) (simp add: example_step_env)
  ultimately show ?thesis using example_alerts_start by (meson reach.intros)
qed

text \<open>The source reports a disk.\<close>

definition disk_seen :: "policy_kind option \<Rightarrow> alert_state" where
  "disk_seen policy = process_alerts (example_env policy 200 [disk_alert ''sda'']) (example_alerts policy)"

lemma example_work: "alert_work (example_env policy 0 []) s (process_alerts (example_env policy now (map disk_alert ks)) s)"
  "alert_work (example_env policy 0 []) s (send_alerts (example_env policy now (map disk_alert ks)) s)"
  by (auto intro!: w_process w_send example_step_env simp: disk_alert_def)

lemma disk_seen_work: "alert_work (example_env policy 0 []) (example_alerts policy) (disk_seen policy)"
  unfolding disk_seen_def using example_work(1) [of policy _ _ "[''sda'']"] by simp

lemma disk_seen_reachable: "reachable_alerts (example_env policy 0 []) (disk_seen policy)"
  using disk_seen_work example_alerts_start by (meson reach.intros s_work)

text \<open>The states of an example run, evaluated.\<close>

definition example_policies :: "(policy_kind \<times> pkey option \<times> aref list) list \<Rightarrow> (aref \<Rightarrow> string) \<Rightarrow> alert_policy list" where
  "example_policies ps h = map (\<lambda>(k, key, rs). \<lparr>po_kind = k, po_last_key_value = key,
     po_last_key_value_alerts = map (\<lambda>r. (Some (h r), r)) rs\<rparr>) ps"

lemma example_alerts_eq:
  "example_alerts policy = (new_alert_service [])\<lparr>av_policies := example_policies
     [(IMMEDIATELY, Some (AtTime 100), []), (HOURLY, Some (InHour 0), []), (DAILY, Some (OnDay 0), []), (NEVER, None, [])] h\<rparr>"
  by (simp add: example_alerts_def example_env_def initialize_def loaded_alerts_def initial_policies_def new_policy_def receive_alerts_def
      policy_key_def new_alert_service_def example_policies_def Let_def)

lemmas run_evals = process_alerts_def should_run_or_send_alerts_def run_alerts_def get_failover_info_def run_one_def skip_source_def
  run_unlocked_def run_source_def record_run_def source_result_def set_node_and_handle_def of_source_def expire_alerts_def
  example_system_def both_products_def handle_locked_alert_source_def opt_or_def
  new_alert_service_def handle_alert_def upd_alert_def submit_send_def

lemmas send_evals = send_alerts_def receive_alerts_def policy_key_def notify_services_def service_notification_def not_dismissed_def
  send_immediate_def send_ticket_def shown_events_def dict_values_def List.map_filter_def

text \<open>An alert of the source, with its uuid, times and whether it is dismissed.\<close>

definition seen_disk :: "string \<Rightarrow> string \<Rightarrow> seconds \<Rightarrow> seconds \<Rightarrow> bool \<Rightarrow> alert" where
  "seen_disk k u t t' d = (disk_alert k)\<lparr>al_datetime := Some t, al_last_occurrence := Some t', al_node := Some ''A'',
     al_dismissed := Some d, al_uuid := Some u, al_source := Some ''Disks''\<rparr>"

lemma disk_alert_simps [simp]:
  "al_uuid (disk_alert k) = None" "al_key (disk_alert k) = k" "al_datetime (disk_alert k) = None"
  "(disk_alert k)\<lparr>al_source := Some ''Disks'', al_node := Some ''A'', al_uuid := Some u, al_datetime := Some t, al_last_occurrence := Some t', al_dismissed := Some d\<rparr> = seen_disk k u t t' d"
  "with_node ''A'' ((disk_alert k)\<lparr>al_source := Some ''Disks''\<rparr>) = (Some ''A'', Some ''Disks'', ''Disk'', k)"
  by (simp_all add: disk_alert_def seen_disk_def with_node_def)

lemma seen_disk_simps [simp]:
  "al_uuid (seen_disk k u t t' d) = Some u" "al_datetime (seen_disk k u t t' d) = Some t" "al_dismissed (seen_disk k u t t' d) = Some d"
  "al_source (seen_disk k u t t' d) = Some ''Disks''" "al_mail (seen_disk k u t t' d) = None" "al_node (seen_disk k u t t' d) = Some ''A''"
  "identity (seen_disk k u t t' d) = (Some ''A'', Some ''Disks'', ''Disk'', k)" "uuid_str (seen_disk k u t t' d) = u"
  "(seen_disk k u t t' d)\<lparr>al_dismissed := Some d'\<rparr> = seen_disk k u t t' d'"
  "for_service (example_env policy now as) INFO P (seen_disk k u t t' d) = P (case policy of None \<Rightarrow> IMMEDIATELY | Some p \<Rightarrow> p)"
  "should_show_alert (example_env policy now as) (seen_disk k u t t' d) \<longleftrightarrow> policy \<noteq> Some NEVER"
  "proactive (example_env policy now as) gone (seen_disk k u t t' d) = False"
  "should_expire_alert (example_env policy now as) (seen_disk k u t t' d) = False"
  "same_alert (seen_disk k u t t' d) (seen_disk k' u' s s' d') \<longleftrightarrow> k = k'"
  "class_of (example_env policy now as) (seen_disk k u t t' d) = Some (example_class False)"
  by (auto simp: seen_disk_def disk_alert_def identity_def uuid_str_def for_service_def class_products_def class_of_def both_products_def
      get_alert_level_def class_level_def get_alert_policy_def should_show_alert_def proactive_def should_expire_alert_def same_alert_def)


text \<open>The states of two runs: the source reports a disk, alerts are sent, and the source reports it again, or another one.\<close>

definition disk_state ::
  "nat \<Rightarrow> seconds \<Rightarrow> (aref \<Rightarrow> alert) \<Rightarrow> nat \<Rightarrow> nat \<Rightarrow> aref list \<Rightarrow> alert_policy list \<Rightarrow> bool \<Rightarrow> alert_event list \<Rightarrow> notification list \<Rightarrow> alert_state" where
  "disk_state runs t h nx nu as ps sub ev snt = (new_alert_service [])\<lparr>av_heap := h, av_next := nx, av_next_uuid := nu, av_alerts := as,
     av_last_run := [(''Disks'', t)], av_policies := ps,
     av_run_times := (\<lambda>_. \<lparr>rt_last = [], rt_max = 0, rt_total_count = 0, rt_total_time = 0\<rparr>)(''Disks'' :=
       \<lparr>rt_last = replicate runs 0, rt_max = 0, rt_total_count = runs, rt_total_time = 0\<rparr>),
     av_send_submitted := sub, av_events := ev, av_sent := snt\<rparr>"

definition disk_policies :: "seconds \<Rightarrow> aref list \<Rightarrow> int \<Rightarrow> aref list \<Rightarrow> (aref \<Rightarrow> string) \<Rightarrow> alert_policy list" where
  "disk_policies t rs hour rs' u = example_policies
     [(IMMEDIATELY, Some (AtTime t), rs), (HOURLY, Some (InHour hour), rs'), (DAILY, Some (OnDay 0), []), (NEVER, None, [])] u"

definition told :: "policy_kind \<Rightarrow> alert list \<Rightarrow> alert list \<Rightarrow> alert list \<Rightarrow> notification" where
  "told p as gone new = \<lparr>no_service = ''Mail'', no_policy = p, no_alerts = as, no_gone = gone, no_new = new\<rparr>"

definition one_disk :: "aref \<Rightarrow> alert" where
  "one_disk = (\<lambda>_. undefined)(0 := seen_disk ''sda'' ''x'' 200 200 False)"

lemmas disk_evals = disk_state_def disk_policies_def example_policies_def told_def one_disk_def Let_def

lemma disk_seen_eq: "disk_seen policy = disk_state 1 200 one_disk 1 1 [0] (disk_policies 100 [] 0 [] (\<lambda>_. ''x'')) True [] []"
  by (simp add: disk_seen_def example_alerts_eq [of _ "\<lambda>_. ''x''"] run_evals disk_evals cong: let_weak_cong)

abbreviation sda :: alert where "sda \<equiv> seen_disk ''sda'' ''x'' 200 200 False"


lemma hourly_2: "process_alerts (example_env (Some HOURLY) 3800 [disk_alert ''sda'']) (disk_state 1 200 one_disk 1 1 [0] ps sub ev snt) =
    disk_state 2 3800 (one_disk(1 := seen_disk ''sda'' ''x'' 200 3800 False)) 2 1 [1] ps True ev snt"
  by (simp add: run_evals disk_evals numeral_2_eq_2 cong: let_weak_cong)




lemma other_1: "send_alerts (example_env None 300 []) (disk_seen None) =
    disk_state 1 200 one_disk 1 1 [0] (disk_policies 300 [0] 0 [] (\<lambda>_. ''x'')) False [AlertAdded ''x''] [told IMMEDIATELY [sda] [] [sda]]"
  unfolding disk_seen_eq by (simp add: run_evals send_evals disk_evals cong: let_weak_cong)

lemma other_2: "process_alerts (example_env None 400 [disk_alert ''sdb'']) (disk_state 1 200 one_disk 1 1 [0] ps sub ev snt) =
    disk_state 2 400 (one_disk(1 := seen_disk ''sdb'' ''xx'' 400 400 False)) 2 2 [1] ps True ev snt"
  by (simp add: run_evals disk_evals numeral_2_eq_2 cong: let_weak_cong)

lemma other_3: "av_sent (send_alerts (example_env None 500 []) (disk_state 2 400 (one_disk(1 := seen_disk ''sdb'' ''xx'' 400 400 False)) 2 2 [1]
      (disk_policies 300 [0] 0 [] (\<lambda>_. ''x'')) True ev snt)) = snt @ [told IMMEDIATELY [seen_disk ''sdb'' ''xx'' 400 400 False] [sda] [seen_disk ''sdb'' ''xx'' 400 400 False]]"
  by (simp add: run_evals send_evals disk_evals cong: let_weak_cong)

section \<open>Properties\<close>

text \<open>
  C8: In every state that the alert service can reach from the start, whatever the sources, the
  users and the other node do, the alerts of the list have different uuids, and no two of them
  have the same node, source, class and key.
\<close>

theorem alerts_told_apart:
  assumes "reachable_alerts base s"
  shows "distinct (map (\<lambda>r. al_uuid (av_heap s r)) (av_alerts s)) \<and> distinct (map (\<lambda>r. identity (av_heap s r)) (av_alerts s)) \<and>
    (\<forall>r. r \<in> set (av_alerts s) \<longrightarrow> al_uuid (av_heap s r) \<noteq> None)"
  using reachable_inv(1) [OF assms] uuids_distinct alert_invD(2) by (fastforce simp: list_ok_def)

theorem alerts_told_apart_witness:
  "length (av_alerts example_two) = 2 \<and> distinct (map (\<lambda>r. identity (av_heap example_two r)) (av_alerts example_two))"
  using alerts_told_apart [OF example_two_reachable] arg_cong [OF example_two_alerts, of length] by simp



text \<open>
  C35: An alert that a run of the sources reports again keeps its uuid, the time of its first
  occurrence and whether it was dismissed. It is a new object. This also holds when the run is
  undone because the system left the state in which alerts are run.
\<close>

theorem reported_again_keeps_uuid:
  assumes "reachable_alerts base s" "step_env base env" "q \<in> set (av_alerts s)" "r \<in> set (av_alerts (process_alerts env s))"
    "identity (av_heap s q) = identity (av_heap (process_alerts env s) r)"
  shows "al_uuid (av_heap (process_alerts env s) r) = al_uuid (av_heap s q) \<and>
    al_datetime (av_heap (process_alerts env s) r) = al_datetime (av_heap s q) \<and>
    al_dismissed (av_heap (process_alerts env s) r) = al_dismissed (av_heap s q)"
  using process_keeps [OF reachable_inv(1) [OF assms(1)] step_envD(1,2) [OF assms(2)] assms(3-5)] by (simp add: keeps_def)

theorem reported_again_keeps_uuid_witness:
  "let t = process_alerts (example_env (Some HOURLY) 3800 [disk_alert ''sda'']) (disk_seen (Some HOURLY))
   in av_alerts t = [1] \<and> al_uuid (av_heap t 1) = Some ''x'' \<and> al_datetime (av_heap t 1) = Some 200"
proof -
  let ?e = "example_env (Some HOURLY) 3800 [disk_alert ''sda'']"
  have t: "av_alerts (process_alerts ?e (disk_seen (Some HOURLY))) = [1]"
    "identity (av_heap (disk_seen (Some HOURLY)) 0) = identity (av_heap (process_alerts ?e (disk_seen (Some HOURLY))) 1)"
    unfolding disk_seen_eq hourly_2 by (simp_all add: disk_evals)
  have s: "av_alerts (disk_seen (Some HOURLY)) = [0]" "al_uuid (av_heap (disk_seen (Some HOURLY)) 0) = Some ''x''"
    "al_datetime (av_heap (disk_seen (Some HOURLY)) 0) = Some 200" unfolding disk_seen_eq by (simp_all add: disk_evals)
  have "step_env (example_env (Some HOURLY) 0 []) ?e" by (rule example_step_env) simp
  from reported_again_keeps_uuid [OF disk_seen_reachable this, of 0 1] show ?thesis using s t by (simp add: Let_def)
qed



text \<open>
  C37: No alert service is ever told of an alert as both gone and new: no notification that is
  sent has a gone and a new alert of the same class and key.
\<close>

theorem notifications_drop_recreated:
  assumes "reachable_alerts base s" "n \<in> set (drop (length (av_sent s)) (av_sent (send_alerts env s)))" "g \<in> set (no_gone n)" "w \<in> set (no_new n)"
  shows "\<not> (al_class g = al_class w \<and> al_key g = al_key w)"
proof -
  note inv = reachable_inv(1) [OF assms(1)]
  let ?s = "s\<lparr>av_send_submitted := False\<rparr>"
  have i: "alert_inv (en_uuid base) ?s" by (rule same_view_inv [OF inv]) simp_all
  have "n \<in> set (concat (map (notices env ?s) (av_policies s)))"
    using assms(2) by (auto simp: send_alerts_def Let_def send_policies_sent split: if_splits)
  then obtain p where p: "p \<in> set (av_policies ?s)" "n \<in> set (notices env ?s p)" by auto
  have "policy_ok ?s p" using alert_invD(3) [OF i] p(1) by (simp add: policies_ok_def)
  then show ?thesis using notice_no_recreated [OF i _ p(2) assms(3,4)] by (simp add: same_alert_def)
qed

theorem notifications_drop_recreated_witness:
  "let s = process_alerts (example_env None 400 [disk_alert ''sdb'']) (send_alerts (example_env None 300 []) (disk_seen None));
       n = last (av_sent (send_alerts (example_env None 500 []) s))
   in length (no_gone n) = 1 \<and> length (no_new n) = 1 \<and>
      \<not> (al_class (hd (no_gone n)) = al_class (hd (no_new n)) \<and> al_key (hd (no_gone n)) = al_key (hd (no_new n)))"
proof -
  let ?s1 = "send_alerts (example_env None 300 []) (disk_seen None)"
  let ?s = "process_alerts (example_env None 400 [disk_alert ''sdb'']) ?s1"
  let ?t = "send_alerts (example_env None 500 []) ?s"
  let ?n = "last (av_sent ?t)"
  have ev: "length (av_sent ?s) = 1" "length (av_sent ?t) = 2" "length (no_gone ?n) = 1" "length (no_new ?n) = 1"
    unfolding other_1 other_2 other_3 by (simp_all add: disk_evals)
  have "alert_work (example_env None 0 []) (disk_seen None) ?s1" "alert_work (example_env None 0 []) ?s1 ?s"
    using example_work(2) [of None _ _ "[]"] example_work(1) [of None _ _ "[''sdb'']"] by simp_all
  then have "reachable_alerts (example_env None 0 []) ?s" using disk_seen_reachable by (meson reach.intros s_work)
  moreover have "?n \<in> set (drop (length (av_sent ?s)) (av_sent ?t))"
  proof -
    have "drop 1 (av_sent ?t) \<noteq> []" using ev(2) by simp
    then have "last (drop 1 (av_sent ?t)) \<in> set (drop 1 (av_sent ?t))" by (rule last_in_set)
    moreover have "last (drop 1 (av_sent ?t)) = ?n" using ev(2) by (intro last_drop) simp
    ultimately show ?thesis unfolding ev(1) by simp
  qed
  moreover have "hd (no_gone ?n) \<in> set (no_gone ?n)" "hd (no_new ?n) \<in> set (no_new ?n)" using ev(3,4) by (intro hd_in_set; auto)+
  ultimately show ?thesis using notifications_drop_recreated [of "example_env None 0 []" ?s ?n "example_env None 500 []"] ev(3,4)
    unfolding Let_def by blast
qed

text \<open>
  C38: Creating a one-shot alert that is there already (the same class and key on this node) does
  not add a second one: afterwards there is exactly one, the other alerts are as before, and if
  there was one before then it keeps its uuid, its first time and whether it is dismissed.
\<close>

theorem oneshot_create_once:
  assumes "reachable_alerts base s" "step_env base env" "map_of (en_classes env) name = Some k" "kl_one_shot k"
  shows "let ident = (Some (av_node s), Some [], name, json_dumps (en_float_repr env) (kl_key_from_args k args));
             (err, t) = oneshot_create env name args s
         in err = None \<and>
            (\<exists>r. filter (\<lambda>q. identity (av_heap t q) = ident) (av_alerts t) = [r] \<and>
              filter (\<lambda>q. identity (av_heap t q) \<noteq> ident) (av_alerts t) = filter (\<lambda>q. identity (av_heap s q) \<noteq> ident) (av_alerts s) \<and>
              (\<forall>q \<in> set (av_alerts s). identity (av_heap s q) = ident \<longrightarrow> keeps (av_heap s q) (av_heap t r)))"
proof -
  note inv = reachable_inv(1) [OF assms(1)]
  let ?i = "(Some (av_node s), Some [], name, json_dumps (en_float_repr env) (kl_key_from_args k args))"
  obtain h n rs where c: "oneshot_create env name args s =
      (None, submit_send (s\<lparr>av_heap := h, av_next := Suc (av_next s), av_next_uuid := n, av_alerts := rs @ [av_next s]\<rparr>))"
    and h: "\<And>q. q < av_next s \<Longrightarrow> h q = av_heap s q" "identity (h (av_next s)) = ?i"
    and rs: "rs = filter (\<lambda>q. identity (av_heap s q) \<noteq> identity (h (av_next s))) (av_alerts s)"
    and kp: "\<forall>q \<in> set (av_alerts s). identity (av_heap s q) = identity (h (av_next s)) \<longrightarrow> keeps (av_heap s q) (h (av_next s))"
    using oneshot_created [OF inv step_envD(3,2) [OF assms(2)] assms(3,4), of args] by blast
  have q: "h q = av_heap s q" if "q \<in> set (av_alerts s)" for q using h(1) alert_ref_lt [OF inv that] .
  have "identity (h x) \<noteq> ?i" if "x \<in> set rs" for x using that q h(2) unfolding rs by auto
  then have f: "filter (\<lambda>q. identity (h q) = ?i) rs = []" "filter (\<lambda>q. identity (h q) \<noteq> ?i) rs = rs"
    by (auto simp: filter_empty_conv intro: filter_True)
  have rs': "rs = filter (\<lambda>q. identity (av_heap s q) \<noteq> ?i) (av_alerts s)" using rs h(2) by simp
  show ?thesis unfolding c Let_def prod.case submit_send_def
    by (intro conjI exI [of _ "av_next s"]) (use f h(2) kp in \<open>simp_all add: rs' [symmetric]\<close>)
qed

theorem oneshot_create_once_witness:
  "length (av_alerts (snd (oneshot_create (example_env None 400 []) ''Quota'' PNone example_two))) = 2"
proof -
  let ?e = "example_env None 400 []"
  let ?t = "snd (oneshot_create ?e ''Quota'' PNone example_two)"
  let ?i = "(Some ''A'', Some ([] :: string), ''Quota'', ''null'')"
  have k: "map_of (en_classes ?e) ''Quota'' = Some (example_class True)" "kl_one_shot (example_class True)"
    by (simp_all add: example_env_def example_class_def)
  have ev: "(Some (av_node example_two), Some [], ''Quota'', json_dumps (en_float_repr ?e) (kl_key_from_args (example_class True) PNone)) = ?i"
    "length (filter (\<lambda>q. identity (av_heap example_two q) \<noteq> ?i) (av_alerts example_two)) = 1" by code_simp+
  obtain err t where c: "oneshot_create ?e ''Quota'' PNone example_two = (err, t)" by (metis prod.exhaust)
  have se: "step_env (example_env None 0 []) ?e" by (simp add: example_step_env)
  obtain r where "filter (\<lambda>q. identity (av_heap t q) = ?i) (av_alerts t) = [r]"
    "filter (\<lambda>q. identity (av_heap t q) \<noteq> ?i) (av_alerts t) = filter (\<lambda>q. identity (av_heap example_two q) \<noteq> ?i) (av_alerts example_two)"
    using oneshot_create_once [OF example_two_reachable se k, of PNone] unfolding ev(1) Let_def c prod.case by blast
  then have "length (filter (\<lambda>q. identity (av_heap t q) = ?i) (av_alerts t)) = 1"
    "length (filter (\<lambda>q. \<not> identity (av_heap t q) = ?i) (av_alerts t)) = 1" using ev(2) by simp_all
  then show ?thesis using sum_length_filter_compl [of "\<lambda>q. identity (av_heap t q) = ?i" "av_alerts t"] c by simp
qed




end
