(* ===== verification/Spec2Isabelle.thy ===== *)
theory Spec2Isabelle
  imports Roles Privileges Job_Properties Login_Properties Alert_Properties
begin

text \<open>
  A verification development of the TrueNAS middleware daemon (\<^verbatim>\<open>src/src/middlewared/middlewared\<close>).
\<close>

end
